(* ===== verification/Prelude.thy ===== *)
theory Prelude
  imports Main "HOL-Library.AList" "HOL-Library.Word"
begin

text \<open>
  The shared vocabulary of the development: what a piece of Go code may do besides
  returning (\<open>outcome\<close>), the errors the code returns, Go maps as association lists with
  distinct keys, and big-endian byte strings. The lemmas here are about these notions
  only; the components import this theory and rely on its simp rules.
\<close>

section \<open>What a Go call can do\<close>

text \<open>
  A call returns a value, panics (nil dereference, index out of range, non-positive
  ticker interval), or never proceeds: it waits for a mutex that nobody releases, or for
  a wait group that cannot reach zero.
\<close>

datatype 'a outcome = Returns 'a | Panics | Blocks

section \<open>Errors\<close>

text \<open>
  An error is the format string of the \<open>fmt.Errorf\<close> (or \<open>errors.New\<close>) that makes
  it; \<open>Wrapf\<close> also keeps the error it wraps. The other arguments of the format are not
  kept: the code only tests errors against nil and logs them. \<open>errors.Join\<close> is nil for no
  errors.
\<close>

datatype error = Errorf string | Wrapf string error | Joined "error list"

definition errorsJoin :: "error list \<Rightarrow> error option" where
  "errorsJoin errs = (if errs = [] then None else Some (Joined errs))"

section \<open>Go maps\<close>

text \<open>
  A Go map is an association list whose keys are distinct; \<open>range\<close> visits it in list
  order. Go leaves that order open, so a statement about every list with distinct keys
  covers every order.
\<close>

type_synonym ('k, 'v) gomap = "('k \<times> 'v) list"

definition gget :: "('k, 'v) gomap \<Rightarrow> 'k \<Rightarrow> 'v option" where
  "gget m k = map_of m k"

definition gput :: "'k \<Rightarrow> 'v \<Rightarrow> ('k, 'v) gomap \<Rightarrow> ('k, 'v) gomap" where
  "gput k v m = AList.update k v m"

definition gdel :: "'k \<Rightarrow> ('k, 'v) gomap \<Rightarrow> ('k, 'v) gomap" where
  "gdel k m = AList.delete k m"

definition gkeys :: "('k, 'v) gomap \<Rightarrow> 'k list" where
  "gkeys m = map fst m"

text \<open>Reading a missing key of a map of maps gives the nil map, which reads as empty.\<close>

definition gsub :: "('k, ('l, 'v) gomap) gomap \<Rightarrow> 'k \<Rightarrow> ('l, 'v) gomap" where
  "gsub m k = (case gget m k of None \<Rightarrow> [] | Some x \<Rightarrow> x)"

text \<open>\<open>if _, exists := m[k]; !exists { m[k] = make(...) }\<close>\<close>

definition gensure :: "'k \<Rightarrow> ('k, ('l, 'v) gomap) gomap \<Rightarrow> ('k, ('l, 'v) gomap) gomap" where
  "gensure k m = (if gget m k = None then gput k [] m else m)"

definition gok :: "('k, 'v) gomap \<Rightarrow> bool" where
  "gok m \<longleftrightarrow> distinct (map fst m)"

lemma gget_Nil [simp]: "gget [] k = None"
  by (simp add: gget_def)

lemma gget_Cons [simp]: "gget ((a, b) # m) k = (if k = a then Some b else gget m k)"
  by (auto simp: gget_def)

lemma gget_gput [simp]: "gget (gput k v m) k' = (if k' = k then Some v else gget m k')"
  by (simp add: gget_def gput_def update_conv')

lemma gget_gdel [simp]: "gget (gdel k m) k' = (if k' = k then None else gget m k')"
  by (simp add: gget_def gdel_def delete_conv')

lemma gput_Nil [simp]: "gput k v [] = [(k, v)]"
  by (simp add: gput_def)

lemma gput_Cons [simp]: "gput k v ((a, b) # m) = (if a = k then (k, v) # m else (a, b) # gput k v m)"
  by (simp add: gput_def)

lemma gdel_Nil [simp]: "gdel k [] = []"
  by (simp add: gdel_def)

lemma gdel_Cons [simp]: "gdel k ((a, b) # m) = (if a = k then gdel k m else (a, b) # gdel k m)"
  by (auto simp: gdel_def)

lemma gok_Nil [simp]: "gok []"
  by (simp add: gok_def)

lemma gok_Cons [simp]: "gok ((a, b) # m) \<longleftrightarrow> a \<notin> set (gkeys m) \<and> gok m"
  by (simp add: gok_def gkeys_def)

lemma gok_gput [simp]: "gok m \<Longrightarrow> gok (gput k v m)"
  by (simp add: gok_def gput_def distinct_update)

lemma gok_gdel [simp]: "gok m \<Longrightarrow> gok (gdel k m)"
  by (simp add: gok_def gdel_def distinct_delete)

lemma gkeys_Nil [simp]: "gkeys [] = []"
  by (simp add: gkeys_def)

lemma gkeys_Cons [simp]: "gkeys (x # m) = fst x # gkeys m"
  by (simp add: gkeys_def)

lemma gkeys_eq_Nil [simp]: "gkeys m = [] \<longleftrightarrow> m = []"
  by (simp add: gkeys_def)

lemma length_gkeys [simp]: "length (gkeys m) = length m"
  by (simp add: gkeys_def)

lemma distinct_gkeys [simp]: "gok m \<Longrightarrow> distinct (gkeys m)"
  by (simp add: gok_def gkeys_def)

lemma set_gkeys: "set (gkeys m) = {k. gget m k \<noteq> None}"
  by (auto simp: gkeys_def gget_def map_of_eq_None_iff dom_def)

lemma gget_in_gkeys: "k \<in> set (gkeys m) \<longleftrightarrow> (\<exists>v. gget m k = Some v)"
  by (simp add: set_gkeys)

lemma gget_None_gkeys: "gget m k = None \<longleftrightarrow> k \<notin> set (gkeys m)"
  by (simp add: set_gkeys)

lemma gget_mem: "gok m \<Longrightarrow> gget m k = Some v \<longleftrightarrow> (k, v) \<in> set m"
  by (simp add: gget_def gok_def)

lemma gget_memI: "gget m k = Some v \<Longrightarrow> (k, v) \<in> set m"
  by (simp add: gget_def map_of_SomeD)

lemma gput_not_Nil [simp]: "gput k v m \<noteq> []"
  by (simp add: gput_def)

lemma gdel_eq_Nil: "gdel k m = [] \<longleftrightarrow> (\<forall>k'. k' \<noteq> k \<longrightarrow> gget m k' = None)"
proof
  assume "gdel k m = []"
  then have "gget (gdel k m) k' = None" for k' by (simp only: gget_Nil)
  then show "\<forall>k'. k' \<noteq> k \<longrightarrow> gget m k' = None" by (metis gget_gdel)
next
  assume "\<forall>k'. k' \<noteq> k \<longrightarrow> gget m k' = None"
  then have "set (gkeys (gdel k m)) = {}" by (auto simp: set_gkeys)
  then show "gdel k m = []" by simp
qed

lemma gmap_Nil_iff: "m = [] \<longleftrightarrow> (\<forall>k. gget m k = None)"
  using gkeys_eq_Nil [of m] by (metis gget_None_gkeys gget_Nil list.set_intros(1) neq_Nil_conv)

text \<open>Writing back what was there, and deleting what was just appended.\<close>

lemma gput_same [simp]: "gget m k = Some v \<Longrightarrow> gput k v m = m"
  by (simp add: gget_def gput_def update_triv)

lemma gput_gput [simp]: "gput k v (gput k w m) = gput k v m"
  by (simp add: gput_def)

lemma gdel_fresh [simp]: "gget m k = None \<Longrightarrow> gdel k m = m"
  by (simp add: gget_def gdel_def map_of_eq_None_iff)

lemma gdel_gput [simp]: "gdel k (gput k v m) = gdel k m"
  by (simp add: gdel_def gput_def delete_update_same)

lemma gsub_gput [simp]: "gsub (gput k v m) k' = (if k' = k then v else gsub m k')"
  by (simp add: gsub_def)

lemma gsub_gdel [simp]: "gsub (gdel k m) k' = (if k' = k then [] else gsub m k')"
  by (simp add: gsub_def)

lemma gsub_Nil [simp]: "gsub [] k = []"
  by (simp add: gsub_def)

lemma gsub_Some [simp]: "gget m k = Some x \<Longrightarrow> gsub m k = x"
  by (simp add: gsub_def)

lemma gsub_None [simp]: "gget m k = None \<Longrightarrow> gsub m k = []"
  by (simp add: gsub_def)

text \<open>Writing a map back, or deleting its key when it has become empty, reads the same.\<close>

lemma gsub_prune: "gsub (if x = [] then gdel k m else gput k x m) k' = (if k' = k then x else gsub m k')"
  by simp

lemma gget_gensure: "gget (gensure k m) k' =
    (if k' = k then Some (gsub m k) else gget m k')"
  by (auto simp: gensure_def gsub_def split: option.splits)

lemma gsub_gensure [simp]: "gsub (gensure k m) k' = gsub m k'"
  by (simp add: gensure_def gsub_def)

lemma gok_gensure [simp]: "gok m \<Longrightarrow> gok (gensure k m)"
  by (simp add: gensure_def)

lemma gput_gensure [simp]: "gput k v (gensure k m) = gput k v m"
  by (simp add: gensure_def)

lemma length_gdel: "gok m \<Longrightarrow> gget m k = Some v \<Longrightarrow> Suc (length (gdel k m)) = length m"
  by (induction m) (auto simp: gget_None_gkeys split: if_splits)

lemma card_gkeys: "gok m \<Longrightarrow> card {k. gget m k \<noteq> None} = length m"
  by (metis distinct_card distinct_gkeys length_gkeys set_gkeys)

text \<open>A new key is appended.\<close>

lemma gput_fresh: "gget m k = None \<Longrightarrow> gput k v m = m @ [(k, v)]"
  by (induction m) (auto split: if_splits)

lemma gget_append: "gget (m @ m') k = (case gget m k of None \<Rightarrow> gget m' k | Some x \<Rightarrow> Some x)"
  by (induction m) auto

text \<open>A property of every value of a map.\<close>

definition gall :: "('v \<Rightarrow> bool) \<Rightarrow> ('k, 'v) gomap \<Rightarrow> bool" where
  "gall P m \<longleftrightarrow> list_all (\<lambda>x. P (snd x)) m"

lemma gall_Nil [simp]: "gall P []"
  by (simp add: gall_def)

lemma gall_Cons [simp]: "gall P (x # m) \<longleftrightarrow> P (snd x) \<and> gall P m"
  by (simp add: gall_def)

lemma gall_gput [simp]: "gall P m \<Longrightarrow> P x \<Longrightarrow> gall P (gput k x m)"
  by (induction m) auto

lemma gall_gdel [simp]: "gall P m \<Longrightarrow> gall P (gdel k m)"
  by (induction m) auto

lemma gall_gget: "gall P m \<Longrightarrow> gget m k = Some x \<Longrightarrow> P x"
  by (induction m) (auto split: if_splits)

lemma gall_gsub: "gall P m \<Longrightarrow> P [] \<Longrightarrow> P (gsub m k)"
  by (auto simp: gsub_def dest: gall_gget split: option.splits)

lemma gget_exists: "m \<noteq> [] \<Longrightarrow> \<exists>k x. gget m k = Some x"
  using gmap_Nil_iff [of m] by auto

section \<open>Bytes\<close>

type_synonym byte = "8 word"

lemma ucast_16_32_16 [simp]: "ucast (ucast (w :: 16 word) :: 32 word) = w"
  by (rule ucast_up_ucast_id) (simp add: is_up)

text \<open>The \<open>n\<close> low-order bytes of a number, most significant first, and back.\<close>

primrec be_bytes :: "nat \<Rightarrow> nat \<Rightarrow> byte list" where
  "be_bytes 0 x = []"
| "be_bytes (Suc n) x = be_bytes n (x div 256) @ [word_of_nat (x mod 256)]"

definition be_val :: "byte list \<Rightarrow> nat" where
  "be_val bs = foldl (\<lambda>a b. a * 256 + unat b) 0 bs"

lemma length_be_bytes [simp]: "length (be_bytes n x) = n"
  by (induction n arbitrary: x) auto

lemma be_val_snoc [simp]: "be_val (bs @ [b]) = be_val bs * 256 + unat b"
  by (simp add: be_val_def)

lemma be_val_Nil [simp]: "be_val [] = 0"
  by (simp add: be_val_def)

lemma unat_byte_of_nat: "x < 256 \<Longrightarrow> unat (word_of_nat x :: byte) = x"
  by (simp add: unat_of_nat)

lemma unat_byte_less: "unat (b :: byte) < 256"
  using unsigned_less [of b] by simp

lemma be_val_be_bytes: "be_val (be_bytes n x) = x mod 256 ^ n"
proof (induction n arbitrary: x)
  case 0
  then show ?case by simp
next
  case (Suc n)
  have "be_val (be_bytes (Suc n) x) = (x div 256 mod 256 ^ n) * 256 + x mod 256"
    by (simp add: Suc unat_byte_of_nat)
  also have "\<dots> = x mod (256 * 256 ^ n)"
    by (simp add: mod_mult2_eq)
  finally show ?case by simp
qed

lemma be_val_bound: "be_val bs < 256 ^ length bs"
proof (induction bs rule: rev_induct)
  case Nil
  then show ?case by simp
next
  case (snoc b bs)
  have "unat b < 256" by (rule unat_byte_less)
  with snoc show ?case by simp
qed

lemma be_bytes_be_val: "be_bytes (length bs) (be_val bs) = bs"
proof (induction bs rule: rev_induct)
  case Nil
  then show ?case by simp
next
  case (snoc b bs)
  have "unat b < 256" by (rule unat_byte_less)
  with snoc show ?case by simp
qed

end
