(* ===== verification/Prog.thy ===== *)
theory Prog
  imports Prelude
begin

text \<open>
  Sequential Go code on a state: a program takes the state and yields an \<open>outcome\<close> together
  with the state at the point where it returned, panicked or stopped for good. Effects
  made before a panic or a deadlock are kept, as they are in the running program.

  The second half is the small program logic the components use: \<open>keeps I f\<close> (whatever
  \<open>f\<close> does, \<open>I\<close> survives) and \<open>finishes I f\<close> (under \<open>I\<close>, \<open>f\<close> returns, and \<open>I\<close> holds again).
\<close>

section \<open>Programs\<close>

type_synonym ('s, 'a) prog = "'s \<Rightarrow> 'a outcome \<times> 's"

definition ret :: "'a \<Rightarrow> ('s, 'a) prog" where
  "ret a = (\<lambda>s. (Returns a, s))"

definition bind :: "('s, 'a) prog \<Rightarrow> ('a \<Rightarrow> ('s, 'b) prog) \<Rightarrow> ('s, 'b) prog" where
  "bind f g = (\<lambda>s. case f s of
     (Returns a, s') \<Rightarrow> g a s'
   | (Panics, s') \<Rightarrow> (Panics, s')
   | (Blocks, s') \<Rightarrow> (Blocks, s'))"

definition gets :: "('s \<Rightarrow> 'a) \<Rightarrow> ('s, 'a) prog" where
  "gets f = (\<lambda>s. (Returns (f s), s))"

definition modify :: "('s \<Rightarrow> 's) \<Rightarrow> ('s, unit) prog" where
  "modify f = (\<lambda>s. (Returns (), f s))"

definition panic :: "('s, 'a) prog" where
  "panic = (\<lambda>s. (Panics, s))"

definition block :: "('s, 'a) prog" where
  "block = (\<lambda>s. (Blocks, s))"

text \<open>Two statements in sequence, the first one's result unused.\<close>

definition andThen :: "('s, 'a) prog \<Rightarrow> ('s, 'b) prog \<Rightarrow> ('s, 'b) prog" where
  "andThen f g = bind f (\<lambda>_. g)"

text \<open>\<open>for _, x := range xs { f(x) }\<close>\<close>

primrec forEach :: "'x list \<Rightarrow> ('x \<Rightarrow> ('s, 'a) prog) \<Rightarrow> ('s, unit) prog" where
  "forEach [] f = ret ()"
| "forEach (x # xs) f = andThen (f x) (forEach xs f)"

text \<open>A loop whose body may return from the function: \<open>Some r\<close> is that return.\<close>

primrec forReturn :: "'x list \<Rightarrow> ('x \<Rightarrow> ('s, 'r option) prog) \<Rightarrow> ('s, 'r option) prog" where
  "forReturn [] f = ret None"
| "forReturn (x # xs) f = bind (f x) (\<lambda>r. case r of
     Some a \<Rightarrow> ret (Some a)
   | None \<Rightarrow> forReturn xs f)"

section \<open>Running programs\<close>

lemma run_ret [simp]: "ret a s = (Returns a, s)"
  by (simp add: ret_def)

lemma run_gets [simp]: "gets f s = (Returns (f s), s)"
  by (simp add: gets_def)

lemma run_modify [simp]: "modify f s = (Returns (), f s)"
  by (simp add: modify_def)

lemma run_panic [simp]: "panic s = (Panics, s)"
  by (simp add: panic_def)

lemma run_block [simp]: "block s = (Blocks, s)"
  by (simp add: block_def)

lemma bind_Returns [simp]: "f s = (Returns a, s') \<Longrightarrow> bind f g s = g a s'"
  by (simp add: bind_def)

lemma bind_Panics [simp]: "f s = (Panics, s') \<Longrightarrow> bind f g s = (Panics, s')"
  by (simp add: bind_def)

lemma bind_Blocks [simp]: "f s = (Blocks, s') \<Longrightarrow> bind f g s = (Blocks, s')"
  by (simp add: bind_def)

lemma andThen_Returns [simp]: "f s = (Returns a, s') \<Longrightarrow> andThen f g s = g s'"
  by (simp add: andThen_def)

lemma andThen_Panics [simp]: "f s = (Panics, s') \<Longrightarrow> andThen f g s = (Panics, s')"
  by (simp add: andThen_def)

lemma andThen_Blocks [simp]: "f s = (Blocks, s') \<Longrightarrow> andThen f g s = (Blocks, s')"
  by (simp add: andThen_def)

section \<open>What every run keeps\<close>

definition keeps :: "('s \<Rightarrow> bool) \<Rightarrow> ('s, 'a) prog \<Rightarrow> bool" where
  "keeps I f \<longleftrightarrow> (\<forall>s. I s \<longrightarrow> I (snd (f s)))"

named_theorems keeps_rules \<open>rules that reduce keeps of a program to keeps of its parts\<close>

lemma keepsI: "(\<And>s. I s \<Longrightarrow> I (snd (f s))) \<Longrightarrow> keeps I f"
  by (simp add: keeps_def)

lemma keepsD: "keeps I f \<Longrightarrow> I s \<Longrightarrow> I (snd (f s))"
  by (simp add: keeps_def)

lemma keeps_ret [keeps_rules]: "keeps I (ret a)"
  by (simp add: keeps_def)

lemma keeps_gets [keeps_rules]: "keeps I (gets f)"
  by (simp add: keeps_def)

lemma keeps_panic [keeps_rules]: "keeps I panic"
  by (simp add: keeps_def)

lemma keeps_block [keeps_rules]: "keeps I block"
  by (simp add: keeps_def)

lemma keeps_modify: "(\<And>s. I s \<Longrightarrow> I (f s)) \<Longrightarrow> keeps I (modify f)"
  by (simp add: keeps_def)

lemma keeps_bind [keeps_rules]:
  assumes "keeps I f" "\<And>a. keeps I (g a)"
  shows "keeps I (bind f g)"
proof (rule keepsI)
  fix s assume "I s"
  then have "I (snd (f s))" by (rule keepsD [OF assms(1)])
  then show "I (snd (bind f g s))"
    using keepsD [OF assms(2)] by (cases "f s" rule: prod.exhaust; cases "fst (f s)") auto
qed

lemma keeps_andThen [keeps_rules]: "keeps I f \<Longrightarrow> keeps I g \<Longrightarrow> keeps I (andThen f g)"
  by (simp add: andThen_def keeps_bind)

lemma keeps_if [keeps_rules]: "keeps I f \<Longrightarrow> keeps I g \<Longrightarrow> keeps I (if b then f else g)"
  by simp

lemma keeps_case_option [keeps_rules]:
  "keeps I f \<Longrightarrow> (\<And>a. keeps I (g a)) \<Longrightarrow> keeps I (case x of None \<Rightarrow> f | Some a \<Rightarrow> g a)"
  by (simp split: option.split)

lemma keeps_case_sum [keeps_rules]:
  "(\<And>a. keeps I (f a)) \<Longrightarrow> (\<And>b. keeps I (g b)) \<Longrightarrow> keeps I (case x of Inl a \<Rightarrow> f a | Inr b \<Rightarrow> g b)"
  by (simp split: sum.split)

lemma keeps_case_prod [keeps_rules]:
  "(\<And>a b. keeps I (f a b)) \<Longrightarrow> keeps I (case x of (a, b) \<Rightarrow> f a b)"
  by (simp split: prod.split)

lemma keeps_forEach [keeps_rules]: "(\<And>x. keeps I (f x)) \<Longrightarrow> keeps I (forEach xs f)"
  by (induction xs) (auto intro: keeps_rules)

lemma keeps_forReturn [keeps_rules]: "(\<And>x. keeps I (f x)) \<Longrightarrow> keeps I (forReturn xs f)"
  by (induction xs) (auto intro!: keeps_rules)

text \<open>An invariant that is a conjunction is kept part by part.\<close>

lemma keeps_conj: "keeps I f \<Longrightarrow> keeps J f \<Longrightarrow> keeps (\<lambda>s. I s \<and> J s) f"
  by (simp add: keeps_def)

text \<open>A field no program writes: \<open>keeps\<close> of every equation on it.\<close>

lemma keeps_fieldD: "(\<And>v. keeps (\<lambda>s. g s = v) f) \<Longrightarrow> g (snd (f s)) = g s"
  by (simp add: keeps_def)

section \<open>Programs that return\<close>

definition finishes :: "('s \<Rightarrow> bool) \<Rightarrow> ('s, 'a) prog \<Rightarrow> bool" where
  "finishes I f \<longleftrightarrow> (\<forall>s. I s \<longrightarrow> (\<exists>a s'. f s = (Returns a, s') \<and> I s'))"

named_theorems finishes_rules \<open>rules that reduce finishes of a program to its parts\<close>

lemma finishesD: "finishes I f \<Longrightarrow> I s \<Longrightarrow> \<exists>a s'. f s = (Returns a, s') \<and> I s'"
  by (simp add: finishes_def)

lemma finishesE:
  assumes "finishes I f" "I s"
  obtains a s' where "f s = (Returns a, s')" "I s'"
  using finishesD [OF assms] by blast

lemma finishes_ret [finishes_rules]: "finishes I (ret a)"
  by (simp add: finishes_def)

lemma finishes_gets [finishes_rules]: "finishes I (gets f)"
  by (simp add: finishes_def)

lemma finishes_modify: "(\<And>s. I s \<Longrightarrow> I (f s)) \<Longrightarrow> finishes I (modify f)"
  by (simp add: finishes_def)

lemma finishes_bind [finishes_rules]:
  assumes "finishes I f" "\<And>a. finishes I (g a)"
  shows "finishes I (bind f g)"
  unfolding finishes_def
proof (intro allI impI)
  fix s assume "I s"
  then obtain a s' where f: "f s = (Returns a, s')" and "I s'"
    by (rule finishesE [OF assms(1)])
  then obtain b s'' where "g a s' = (Returns b, s'')" "I s''"
    using finishesE [OF assms(2)] by blast
  with f show "\<exists>b s'. bind f g s = (Returns b, s') \<and> I s'" by simp
qed

lemma finishes_andThen [finishes_rules]:
  "finishes I f \<Longrightarrow> finishes I g \<Longrightarrow> finishes I (andThen f g)"
  by (simp add: andThen_def finishes_bind)

lemma finishes_if [finishes_rules]:
  "finishes I f \<Longrightarrow> finishes I g \<Longrightarrow> finishes I (if b then f else g)"
  by simp

lemma finishes_case_option [finishes_rules]:
  "finishes I f \<Longrightarrow> (\<And>a. finishes I (g a)) \<Longrightarrow> finishes I (case x of None \<Rightarrow> f | Some a \<Rightarrow> g a)"
  by (simp split: option.split)

lemma finishes_case_sum [finishes_rules]:
  "(\<And>a. finishes I (f a)) \<Longrightarrow> (\<And>b. finishes I (g b)) \<Longrightarrow>
     finishes I (case x of Inl a \<Rightarrow> f a | Inr b \<Rightarrow> g b)"
  by (simp split: sum.split)

lemma finishes_case_prod [finishes_rules]:
  "(\<And>a b. finishes I (f a b)) \<Longrightarrow> finishes I (case x of (a, b) \<Rightarrow> f a b)"
  by (simp split: prod.split)

lemma finishes_forEach [finishes_rules]:
  "(\<And>x. x \<in> set xs \<Longrightarrow> finishes I (f x)) \<Longrightarrow> finishes I (forEach xs f)"
  by (induction xs) (auto intro: finishes_rules)

lemma finishes_forReturn [finishes_rules]:
  "(\<And>x. x \<in> set xs \<Longrightarrow> finishes I (f x)) \<Longrightarrow> finishes I (forReturn xs f)"
  by (induction xs) (auto intro!: finishes_rules)

lemma finishes_keeps: "finishes I f \<Longrightarrow> keeps I f"
  by (rule keepsI) (metis finishesE snd_conv)

end
