(* ===== verification/Netip.thy ===== *)
theory Netip
  imports Prelude "HOL-Library.Char_ord" "HOL-Library.List_Lexorder"
begin

text \<open>
  The part of Go's \<open>net/netip\<close> that the package uses: addresses, prefixes, their byte
  slices and the total order \<open>Addr.Compare\<close>. An address is the zero \<open>Addr\<close>, an IPv4
  address, or an IPv6 address with a zone (empty for none). A prefix keeps an address and
  \<open>bitsPlusOne\<close>, which is 0 for an invalid length.
\<close>

section \<open>Addresses\<close>

datatype Addr = AddrZero | Addr4 "32 word" | Addr6 "128 word" string

definition BitLen :: "Addr \<Rightarrow> nat" where
  "BitLen a = (case a of AddrZero \<Rightarrow> 0 | Addr4 _ \<Rightarrow> 32 | Addr6 _ _ \<Rightarrow> 128)"

definition Is4 :: "Addr \<Rightarrow> bool" where
  "Is4 a \<longleftrightarrow> BitLen a = 32"

definition withoutZone :: "Addr \<Rightarrow> Addr" where
  "withoutZone a = (case a of Addr6 w _ \<Rightarrow> Addr6 w [] | _ \<Rightarrow> a)"

definition AsSlice :: "Addr \<Rightarrow> byte list" where
  "AsSlice a = (case a of
     AddrZero \<Rightarrow> []
   | Addr4 w \<Rightarrow> be_bytes 4 (unat w)
   | Addr6 w _ \<Rightarrow> be_bytes 16 (unat w))"

definition AddrFromSlice :: "byte list \<Rightarrow> Addr option" where
  "AddrFromSlice bs =
     (if length bs = 4 then Some (Addr4 (word_of_nat (be_val bs)))
      else if length bs = 16 then Some (Addr6 (word_of_nat (be_val bs)) [])
      else None)"

lemma BitLen_simps [simp]:
  "BitLen AddrZero = 0" "BitLen (Addr4 w) = 32" "BitLen (Addr6 u z) = 128"
  by (simp_all add: BitLen_def)

lemma BitLen_le: "BitLen a \<le> 128"
  by (cases a) simp_all

lemma withoutZone_idem [simp]: "withoutZone (withoutZone a) = withoutZone a"
  by (cases a) (simp_all add: withoutZone_def)

lemma BitLen_withoutZone [simp]: "BitLen (withoutZone a) = BitLen a"
  by (cases a) (simp_all add: withoutZone_def)

lemma length_AsSlice: "length (AsSlice a) = BitLen a div 8"
  by (cases a) (simp_all add: AsSlice_def)

lemma AsSlice_withoutZone [simp]: "AsSlice (withoutZone a) = AsSlice a"
  by (cases a) (simp_all add: AsSlice_def withoutZone_def)

text \<open>The slice of an address reads back as the address without its zone.\<close>

lemma AddrFromSlice_AsSlice:
  "a \<noteq> AddrZero \<Longrightarrow> AddrFromSlice (AsSlice a) = Some (withoutZone a)"
proof (cases a)
  case (Addr4 w)
  have "unat w < 2 ^ 32" using unsigned_less [of w] by simp
  with Addr4 show ?thesis
    by (simp add: AsSlice_def AddrFromSlice_def withoutZone_def be_val_be_bytes)
next
  case (Addr6 w z)
  have "unat w < 2 ^ 128" using unsigned_less [of w] by simp
  with Addr6 show ?thesis
    by (simp add: AsSlice_def AddrFromSlice_def withoutZone_def be_val_be_bytes)
qed simp

lemma AsSlice_AddrFromSlice: "AddrFromSlice bs = Some a \<Longrightarrow> AsSlice a = bs"
proof -
  have *: "be_bytes (length bs) (be_val bs) = bs" by (rule be_bytes_be_val)
  have b: "be_val bs < 256 ^ length bs" by (rule be_val_bound)
  assume "AddrFromSlice bs = Some a"
  then consider "length bs = 4" "a = Addr4 (word_of_nat (be_val bs))"
    | "length bs = 16" "a = Addr6 (word_of_nat (be_val bs)) []"
    by (auto simp: AddrFromSlice_def split: if_splits)
  then show ?thesis
    using * b by cases (simp_all add: AsSlice_def unat_of_nat)
qed

section \<open>The order on addresses\<close>

text \<open>
  \<open>Addr.Compare\<close>: first the bit length, then the numeric value, then, for IPv6, the
  zone.
\<close>

definition cmp :: "'a::linorder \<Rightarrow> 'a \<Rightarrow> int" where
  "cmp x y = (if x < y then - 1 else if y < x then 1 else 0)"

definition Compare :: "Addr \<Rightarrow> Addr \<Rightarrow> int" where
  "Compare a b =
     (if BitLen a \<noteq> BitLen b then cmp (BitLen a) (BitLen b)
      else case (a, b) of
        (Addr4 u, Addr4 v) \<Rightarrow> cmp u v
      | (Addr6 u y, Addr6 v z) \<Rightarrow> (if u \<noteq> v then cmp u v else cmp y z)
      | _ \<Rightarrow> 0)"

lemma cmp_le [simp]: "cmp x y \<le> 0 \<longleftrightarrow> x \<le> y"
  by (auto simp: cmp_def)

lemma Compare_le:
  "Compare a b \<le> 0 \<longleftrightarrow>
     (case (a, b) of
        (AddrZero, _) \<Rightarrow> True
      | (Addr4 u, Addr4 v) \<Rightarrow> u \<le> v
      | (Addr4 _, Addr6 _ _) \<Rightarrow> True
      | (Addr6 u y, Addr6 v z) \<Rightarrow> u < v \<or> u = v \<and> y \<le> z
      | _ \<Rightarrow> False)"
  by (cases a; cases b) (auto simp: Compare_def cmp_def)

instantiation Addr :: linorder
begin

definition less_eq_Addr :: "Addr \<Rightarrow> Addr \<Rightarrow> bool" where
  "less_eq_Addr a b \<longleftrightarrow> Compare a b \<le> 0"

definition less_Addr :: "Addr \<Rightarrow> Addr \<Rightarrow> bool" where
  "less_Addr a b \<longleftrightarrow> Compare a b \<le> 0 \<and> \<not> Compare b a \<le> 0"

instance
proof
  fix x y z :: Addr
  show "x < y \<longleftrightarrow> x \<le> y \<and> \<not> y \<le> x"
    by (simp add: less_eq_Addr_def less_Addr_def)
  show "x \<le> x"
    by (cases x) (simp_all add: less_eq_Addr_def Compare_le)
  show "x \<le> y \<Longrightarrow> y \<le> z \<Longrightarrow> x \<le> z"
    by (cases x; cases y; cases z) (auto simp: less_eq_Addr_def Compare_le)
  show "x \<le> y \<Longrightarrow> y \<le> x \<Longrightarrow> x = y"
    by (cases x; cases y) (auto simp: less_eq_Addr_def Compare_le)
  show "x \<le> y \<or> y \<le> x"
    by (cases x; cases y) (auto simp: less_eq_Addr_def Compare_le)
qed

end

section \<open>Prefixes\<close>

datatype Prefix = PrefixOf (prefixIP: Addr) (bitsPlusOne: "8 word")

definition PrefixFrom :: "Addr \<Rightarrow> int \<Rightarrow> Prefix" where
  "PrefixFrom a bits = PrefixOf (withoutZone a)
     (if a \<noteq> AddrZero \<and> 0 \<le> bits \<and> bits \<le> int (BitLen a) then word_of_int bits + 1 else 0)"

definition Bits :: "Prefix \<Rightarrow> int" where
  "Bits p = int (unat (bitsPlusOne p)) - 1"

text \<open>
  The prefixes \<open>PrefixFrom\<close> makes from an address: no zone, and a length that is either
  invalid or within the address. \<open>PrefixFrom\<close> rebuilds exactly these.
\<close>

definition prefix_ok :: "Prefix \<Rightarrow> bool" where
  "prefix_ok p \<longleftrightarrow> prefixIP p \<noteq> AddrZero \<and> withoutZone (prefixIP p) = prefixIP p
     \<and> Bits p \<le> int (BitLen (prefixIP p))"

lemma Bits_PrefixFrom:
  "Bits (PrefixFrom a bits) =
     (if a \<noteq> AddrZero \<and> 0 \<le> bits \<and> bits \<le> int (BitLen a) then bits else - 1)"
proof (cases "a \<noteq> AddrZero \<and> 0 \<le> bits \<and> bits \<le> int (BitLen a)")
  case True
  then have "bits \<le> 128" using BitLen_le [of a] by linarith
  with True have "uint (word_of_int bits + 1 :: 8 word) = bits + 1"
    by (simp add: uint_word_ariths uint_word_of_int)
  with True show ?thesis by (simp add: Bits_def PrefixFrom_def)
next
  case False
  then show ?thesis by (auto simp: Bits_def PrefixFrom_def)
qed

lemma prefix_ok_PrefixFrom: "a \<noteq> AddrZero \<Longrightarrow> prefix_ok (PrefixFrom a bits)"
  unfolding prefix_ok_def Bits_PrefixFrom
  by (cases a) (auto simp: PrefixFrom_def withoutZone_def)

lemma PrefixFrom_Bits:
  assumes "prefix_ok p"
  shows "PrefixFrom (prefixIP p) (uint (word_of_int (Bits p) :: 32 word)) = p"
proof -
  obtain a n where p: "p = PrefixOf a n" by (cases p)
  have len: "Bits p \<le> 128"
    using assms BitLen_le [of a] by (simp add: prefix_ok_def p)
  show ?thesis
  proof (cases "n = 0")
    case True
    then have "uint (word_of_int (Bits p) :: 32 word) = 2 ^ 32 - 1"
      by (simp add: p Bits_def) (simp add: uint_word_ariths)
    moreover have "int (BitLen a) \<le> 128" using BitLen_le [of a] by simp
    ultimately show ?thesis
      using assms True by (simp add: p prefix_ok_def PrefixFrom_def)
  next
    case False
    then have pos: "0 \<le> Bits p" by (simp add: p Bits_def word_neq_0_conv word_less_def)
    then have "uint (word_of_int (Bits p) :: 32 word) = Bits p"
      using len by (simp add: uint_word_of_int)
    moreover have "(word_of_int (Bits p) + 1 :: 8 word) = n"
      by (simp add: p Bits_def)
    ultimately show ?thesis
      using assms pos by (simp add: p prefix_ok_def PrefixFrom_def)
  qed
qed

end
