(* ===== verification/Types.thy ===== *)
theory Types
  imports Netip
begin

text \<open>
  The data types, enumerations and messages of \<open>src/types.go\<close>, the protobuf messages of
  \<open>src/pb\<close>, and the conversion between the two (\<open>Serialize\<close> and \<open>deserialize...Msg\<close>).
  \<open>proto.Marshal\<close> and \<open>proto.Unmarshal\<close> are not part of the repository: they are the
  fields of a \<open>codec\<close>, a parameter of every definition that calls them. The locale
  \<open>proto_codec\<close> states what the code relies on, and proves the round trips from it.
\<close>

section \<open>Types and enumerations\<close>

type_synonym VNI = "32 word"

abbreviation IPV4 :: "8 word" where "IPV4 \<equiv> 4"
abbreviation IPV6 :: "8 word" where "IPV6 \<equiv> 6"

record Destination =
  destIPVersion :: "8 word"
  destPrefix :: Prefix

text \<open>\<open>pb.NextHopType\<close>, \<open>pb.Action\<close> and \<open>pb.IPVersion\<close> are open \<open>int32\<close> enumerations.\<close>

type_synonym NextHopType = "32 word"

abbreviation NextHopType_STANDARD :: NextHopType where "NextHopType_STANDARD \<equiv> 0"
abbreviation NextHopType_NAT :: NextHopType where "NextHopType_NAT \<equiv> 1"
abbreviation NextHopType_LOADBALANCER_TARGET :: NextHopType
  where "NextHopType_LOADBALANCER_TARGET \<equiv> 2"

abbreviation Action_ADD :: "32 word" where "Action_ADD \<equiv> 0"
abbreviation Action_REMOVE :: "32 word" where "Action_REMOVE \<equiv> 1"

abbreviation IPVersion_IPv4 :: "32 word" where "IPVersion_IPv4 \<equiv> 0"
abbreviation IPVersion_IPv6 :: "32 word" where "IPVersion_IPv6 \<equiv> 1"

record NextHop =
  TargetAddress :: Addr
  TargetVNI :: "32 word"
  nhType :: NextHopType
  NATPortRangeFrom :: "16 word"
  NATPortRangeTo :: "16 word"

datatype ConnectionDirection = INCOMING | OUTGOING

datatype ConnectionState =
  CONNECTING | HELLO_SENT | HELLO_RECEIVED | ESTABLISHED | RETRY | CLOSED

definition ConnectionState_String :: "ConnectionState \<Rightarrow> string" where
  "ConnectionState_String cs = (case cs of
     CONNECTING \<Rightarrow> ''CONNECTING''
   | HELLO_SENT \<Rightarrow> ''HELLO_SENT''
   | HELLO_RECEIVED \<Rightarrow> ''HELLO_RECEIVED''
   | ESTABLISHED \<Rightarrow> ''ESTABLISHED''
   | RETRY \<Rightarrow> ''RETRY''
   | CLOSED \<Rightarrow> ''CLOSED'')"

abbreviation HELLO :: "8 word" where "HELLO \<equiv> 1"
abbreviation KEEPALIVE :: "8 word" where "KEEPALIVE \<equiv> 2"
abbreviation SUBSCRIBE :: "8 word" where "SUBSCRIBE \<equiv> 3"
abbreviation UNSUBSCRIBE :: "8 word" where "UNSUBSCRIBE \<equiv> 4"
abbreviation UPDATE :: "8 word" where "UPDATE \<equiv> 5"

abbreviation ADD :: "8 word" where "ADD \<equiv> 0"
abbreviation REMOVE :: "8 word" where "REMOVE \<equiv> 1"

section \<open>Messages\<close>

record msgHello =
  helloKeepaliveInterval :: "32 word"
  helloIsServer :: bool

record msgSubscribe =
  subscribeVNI :: VNI

record msgUnsubscribe =
  unsubscribeVNI :: VNI

record msgUpdate =
  updAction :: "8 word"
  updVNI :: VNI
  updDestination :: Destination
  updNextHop :: NextHop

text \<open>The \<open>message\<close> interface and the types that implement it.\<close>

datatype message =
    MsgHello msgHello
  | MsgKeepalive
  | MsgSubscribe msgSubscribe
  | MsgUnsubscribe msgUnsubscribe
  | MsgUpdate msgUpdate

section \<open>Protobuf messages\<close>

record pbHello =
  pbKeepaliveInterval :: "32 word"
  pbIsServer :: bool

record pbSubscription =
  pbVni :: "32 word"

record pbDestination =
  pbIpVersion :: "32 word"
  pbPrefix :: "byte list"
  pbPrefixLength :: "32 word"

record pbNextHop =
  pbTargetAddress :: "byte list"
  pbTargetVNI :: "32 word"
  pbType :: NextHopType
  pbNatPortRangeFrom :: "32 word"
  pbNatPortRangeTo :: "32 word"

text \<open>A message field is a pointer; nil is \<open>None\<close>.\<close>

record pbUpdate =
  pbAction :: "32 word"
  pbUpdateVni :: "32 word"
  pbDest :: "pbDestination option"
  pbHop :: "pbNextHop option"

record codec =
  marshalHello :: "pbHello \<Rightarrow> byte list option"
  unmarshalHello :: "byte list \<Rightarrow> pbHello option"
  marshalSubscription :: "pbSubscription \<Rightarrow> byte list option"
  unmarshalSubscription :: "byte list \<Rightarrow> pbSubscription option"
  marshalUpdate :: "pbUpdate \<Rightarrow> byte list option"
  unmarshalUpdate :: "byte list \<Rightarrow> pbUpdate option"

section \<open>Serialize\<close>

definition maxMsgLen :: nat where
  "maxMsgLen = 1188"

text \<open>The common end of the \<open>Serialize\<close> methods: a marshalling error, a message that is too
  long, or the bytes.\<close>

definition checkedBytes :: "byte list option \<Rightarrow> error + byte list" where
  "checkedBytes r = (case r of
     None \<Rightarrow> Inl (Errorf ''could not marshal message: %v'')
   | Some bs \<Rightarrow>
       if length bs > maxMsgLen
       then Inl (Errorf ''message too long: %d bytes > maximum of 1188 bytes'')
       else Inr bs)"

definition serializeHello :: "codec \<Rightarrow> msgHello \<Rightarrow> error + byte list" where
  "serializeHello C m = checkedBytes (marshalHello C
     \<lparr>pbKeepaliveInterval = helloKeepaliveInterval m, pbIsServer = helloIsServer m\<rparr>)"

definition serializeKeepalive :: "error + byte list" where
  "serializeKeepalive = Inr []"

definition serializeSubscribe :: "codec \<Rightarrow> msgSubscribe \<Rightarrow> error + byte list" where
  "serializeSubscribe C m =
     checkedBytes (marshalSubscription C \<lparr>pbVni = subscribeVNI m\<rparr>)"

definition serializeUnsubscribe :: "codec \<Rightarrow> msgUnsubscribe \<Rightarrow> error + byte list" where
  "serializeUnsubscribe C m =
     checkedBytes (marshalSubscription C \<lparr>pbVni = unsubscribeVNI m\<rparr>)"

definition pbUpdateOf :: "32 word \<Rightarrow> 32 word \<Rightarrow> msgUpdate \<Rightarrow> pbUpdate" where
  "pbUpdateOf action ipversion m =
     (let d = updDestination m; h = updNextHop m; nat = (nhType h = NextHopType_NAT)
      in \<lparr>pbAction = action,
          pbUpdateVni = updVNI m,
          pbDest = Some
            \<lparr>pbIpVersion = ipversion,
             pbPrefix = AsSlice (prefixIP (destPrefix d)),
             pbPrefixLength = word_of_int (Bits (destPrefix d))\<rparr>,
          pbHop = Some
            \<lparr>pbTargetAddress = AsSlice (TargetAddress h),
             pbTargetVNI = TargetVNI h,
             pbType = nhType h,
             pbNatPortRangeFrom = (if nat then ucast (NATPortRangeFrom h) else 0),
             pbNatPortRangeTo = (if nat then ucast (NATPortRangeTo h) else 0)\<rparr>\<rparr>)"

definition serializeUpdate :: "codec \<Rightarrow> msgUpdate \<Rightarrow> error + byte list" where
  "serializeUpdate C m =
     (let go = (\<lambda>action.
          if destIPVersion (updDestination m) = IPV4
          then checkedBytes (marshalUpdate C (pbUpdateOf action IPVersion_IPv4 m))
          else if destIPVersion (updDestination m) = IPV6
          then checkedBytes (marshalUpdate C (pbUpdateOf action IPVersion_IPv6 m))
          else Inl (Errorf ''invalid Destination IP version''))
      in if updAction m = ADD then go Action_ADD
         else if updAction m = REMOVE then go Action_REMOVE
         else Inl (Errorf ''invalid UPDATE action''))"

definition Serialize :: "codec \<Rightarrow> message \<Rightarrow> error + byte list" where
  "Serialize C msg = (case msg of
     MsgHello m \<Rightarrow> serializeHello C m
   | MsgKeepalive \<Rightarrow> serializeKeepalive
   | MsgSubscribe m \<Rightarrow> serializeSubscribe C m
   | MsgUnsubscribe m \<Rightarrow> serializeUnsubscribe C m
   | MsgUpdate m \<Rightarrow> serializeUpdate C m)"

section \<open>Deserialize\<close>

definition errUnmarshal :: error where
  "errUnmarshal = Errorf ''cannot unmarshal received packet, closing connection: %v''"

definition deserializeHelloMsg :: "codec \<Rightarrow> byte list \<Rightarrow> error + msgHello" where
  "deserializeHelloMsg C pktBytes = (case unmarshalHello C pktBytes of
     None \<Rightarrow> Inl errUnmarshal
   | Some pbmsg \<Rightarrow> Inr
       \<lparr>helloKeepaliveInterval = pbKeepaliveInterval pbmsg, helloIsServer = False\<rparr>)"

definition deserializeSubscribeMsg :: "codec \<Rightarrow> byte list \<Rightarrow> error + msgSubscribe" where
  "deserializeSubscribeMsg C pktBytes = (case unmarshalSubscription C pktBytes of
     None \<Rightarrow> Inl errUnmarshal
   | Some pbmsg \<Rightarrow> Inr \<lparr>subscribeVNI = pbVni pbmsg\<rparr>)"

definition deserializeUnsubscribeMsg :: "codec \<Rightarrow> byte list \<Rightarrow> error + msgUnsubscribe" where
  "deserializeUnsubscribeMsg C pktBytes = (case unmarshalSubscription C pktBytes of
     None \<Rightarrow> Inl errUnmarshal
   | Some pbmsg \<Rightarrow> Inr \<lparr>unsubscribeVNI = pbVni pbmsg\<rparr>)"

text \<open>
  The next hop of the protobuf message is dereferenced without a nil check, so a message
  without one makes the call panic.
\<close>

definition deserializeUpdateMsg :: "codec \<Rightarrow> byte list \<Rightarrow> (error + msgUpdate) outcome" where
  "deserializeUpdateMsg C pktBytes = (case unmarshalUpdate C pktBytes of
     None \<Rightarrow> Returns (Inl errUnmarshal)
   | Some pbmsg \<Rightarrow>
      (let action = (if pbAction pbmsg = Action_REMOVE then REMOVE else ADD) in
       case pbDest pbmsg of
         None \<Rightarrow> Returns (Inl (Errorf ''Destination is nil''))
       | Some d \<Rightarrow>
          (let ipversion = (if pbIpVersion d = IPVersion_IPv4 then IPV4 else IPV6) in
           case AddrFromSlice (pbPrefix d) of
             None \<Rightarrow> Returns (Inl (Errorf ''invalid destination IP''))
           | Some destIP \<Rightarrow>
              (case pbHop pbmsg of
                 None \<Rightarrow> Panics
               | Some h \<Rightarrow>
                  (case AddrFromSlice (pbTargetAddress h) of
                     None \<Rightarrow> Returns (Inl (Errorf ''invalid nexthop IP''))
                   | Some nhAddr \<Rightarrow> Returns (Inr
                       \<lparr>updAction = action,
                        updVNI = pbUpdateVni pbmsg,
                        updDestination =
                          \<lparr>destIPVersion = ipversion,
                           destPrefix = PrefixFrom destIP (uint (pbPrefixLength d))\<rparr>,
                        updNextHop =
                          \<lparr>TargetAddress = nhAddr,
                           TargetVNI = pbTargetVNI h,
                           nhType = pbType h,
                           NATPortRangeFrom = ucast (pbNatPortRangeFrom h),
                           NATPortRangeTo = ucast (pbNatPortRangeTo h)\<rparr>\<rparr>))))))"

section \<open>What survives the trip over the wire\<close>

text \<open>
  The updates that the protocol can carry without loss: a known action and IP version,
  addresses that are set and have no zone, and NAT ports only on NAT hops.
\<close>

definition update_ok :: "msgUpdate \<Rightarrow> bool" where
  "update_ok m \<longleftrightarrow>
     updAction m \<in> {ADD, REMOVE} \<and>
     destIPVersion (updDestination m) \<in> {IPV4, IPV6} \<and>
     prefix_ok (destPrefix (updDestination m)) \<and>
     TargetAddress (updNextHop m) \<noteq> AddrZero \<and>
     withoutZone (TargetAddress (updNextHop m)) = TargetAddress (updNextHop m) \<and>
     (nhType (updNextHop m) = NextHopType_NAT \<or>
       NATPortRangeFrom (updNextHop m) = 0 \<and> NATPortRangeTo (updNextHop m) = 0)"

lemma checkedBytes_Inr:
  "checkedBytes r = Inr bs \<longleftrightarrow> r = Some bs \<and> length bs \<le> maxMsgLen"
  by (auto simp: checkedBytes_def split: option.splits)

lemma Serialize_short: "Serialize C msg = Inr bs \<Longrightarrow> length bs \<le> maxMsgLen"
  by (auto simp: Serialize_def serializeHello_def serializeKeepalive_def serializeSubscribe_def
      serializeUnsubscribe_def serializeUpdate_def checkedBytes_Inr Let_def
      split: message.splits if_splits)

text \<open>
  What the package relies on from the protobuf library: a message that was marshalled
  unmarshals to the same message.
\<close>

locale proto_codec =
  fixes C :: codec
  assumes hello_inverse: "marshalHello C x = Some bs \<Longrightarrow> unmarshalHello C bs = Some x"
    and subscription_inverse:
      "marshalSubscription C y = Some bs \<Longrightarrow> unmarshalSubscription C bs = Some y"
    and update_inverse: "marshalUpdate C z = Some bs \<Longrightarrow> unmarshalUpdate C bs = Some z"
begin

lemma hello_trip:
  "serializeHello C m = Inr bs \<Longrightarrow> deserializeHelloMsg C bs = Inr (m\<lparr>helloIsServer := False\<rparr>)"
  by (auto simp: serializeHello_def checkedBytes_Inr deserializeHelloMsg_def dest: hello_inverse)

lemma subscribe_trip:
  "serializeSubscribe C m = Inr bs \<Longrightarrow> deserializeSubscribeMsg C bs = Inr m"
  by (auto simp: serializeSubscribe_def checkedBytes_Inr deserializeSubscribeMsg_def
      dest: subscription_inverse)

lemma unsubscribe_trip:
  "serializeUnsubscribe C m = Inr bs \<Longrightarrow> deserializeUnsubscribeMsg C bs = Inr m"
  by (auto simp: serializeUnsubscribe_def checkedBytes_Inr deserializeUnsubscribeMsg_def
      dest: subscription_inverse)

lemma pbUpdateOf_trip:
  assumes m: "marshalUpdate C (pbUpdateOf a i m) = Some bs"
    and act: "updAction m = (if a = Action_REMOVE then REMOVE else ADD)"
    and ver: "destIPVersion (updDestination m) = (if i = IPVersion_IPv4 then IPV4 else IPV6)"
    and ok: "update_ok m"
  shows "deserializeUpdateMsg C bs = Returns (Inr m)"
proof -
  have pfx: "AddrFromSlice (AsSlice (prefixIP (destPrefix (updDestination m))))
      = Some (prefixIP (destPrefix (updDestination m)))"
    using ok by (simp add: update_ok_def prefix_ok_def AddrFromSlice_AsSlice)
  have hop: "AddrFromSlice (AsSlice (TargetAddress (updNextHop m)))
      = Some (TargetAddress (updNextHop m))"
    using ok by (simp add: update_ok_def AddrFromSlice_AsSlice)
  have bits: "PrefixFrom (prefixIP (destPrefix (updDestination m)))
      (uint (word_of_int (Bits (destPrefix (updDestination m))) :: 32 word))
      = destPrefix (updDestination m)"
    using ok by (simp add: update_ok_def PrefixFrom_Bits)
  have ports: "(nhType (updNextHop m) \<noteq> NextHopType_NAT \<longrightarrow>
      NATPortRangeFrom (updNextHop m) = 0 \<and> NATPortRangeTo (updNextHop m) = 0)"
    using ok by (auto simp: update_ok_def)
  show ?thesis
    using update_inverse [OF m] pfx hop bits ports act ver
    by (simp add: deserializeUpdateMsg_def pbUpdateOf_def Let_def)
qed

lemma update_trip:
  assumes "serializeUpdate C m = Inr bs" and ok: "update_ok m"
  shows "deserializeUpdateMsg C bs = Returns (Inr m)"
proof -
  have acts: "updAction m = ADD \<or> updAction m = REMOVE"
    and vers: "destIPVersion (updDestination m) = IPV4 \<or> destIPVersion (updDestination m) = IPV6"
    using ok by (auto simp: update_ok_def)
  then show ?thesis
    using assms pbUpdateOf_trip [OF _ _ _ ok, of _ _ bs]
    by (auto simp: serializeUpdate_def Let_def checkedBytes_Inr split: if_splits)
qed

end

end
