(* ===== verification/Wire.thy ===== *)
theory Wire
  imports Types
begin

text \<open>
  Packets on the TCP stream: the header that \<open>sendMessage\<close> of \<open>src/peer.go\<close> puts in front
  of a serialized message, and the \<open>parsePacket\<close> loop of \<open>rxLoop\<close> that reads packets out
  of its 65535-byte buffer. The buffer keeps the bytes of earlier reads behind the bytes
  just read, and the loop looks at the whole buffer.
\<close>

section \<open>The code\<close>

definition msgTypeOf :: "message \<Rightarrow> 8 word" where
  "msgTypeOf msg = (case msg of
     MsgHello _ \<Rightarrow> HELLO
   | MsgKeepalive \<Rightarrow> KEEPALIVE
   | MsgSubscribe _ \<Rightarrow> SUBSCRIBE
   | MsgUnsubscribe _ \<Rightarrow> UNSUBSCRIBE
   | MsgUpdate _ \<Rightarrow> UPDATE)"

definition packet :: "8 word \<Rightarrow> byte list \<Rightarrow> byte list" where
  "packet msgType msgBytes =
     [1, word_of_nat (length msgBytes div 256), word_of_nat (length msgBytes mod 256), msgType]
     @ msgBytes"

definition encodeMessage :: "codec \<Rightarrow> message \<Rightarrow> error + byte list" where
  "encodeMessage C msg = (case Serialize C msg of
     Inl e \<Rightarrow> Inl (Wrapf ''could not serialize message: %v'' e)
   | Inr msgBytes \<Rightarrow> Inr (packet (msgTypeOf msg) msgBytes))"

text \<open>How a call of \<open>rxLoop\<close>'s body ends.\<close>

datatype rxEnd =
    RxContinue   \<comment> \<open>all bytes handled: read again\<close>
  | RxReset      \<comment> \<open>\<open>go p.Reset()\<close>, and the goroutine returns\<close>
  | RxReturn     \<comment> \<open>the goroutine returns, nothing else\<close>
  | RxPanic

datatype pktResult = PktMsg message | PktBad | PktUnknown | PktPanic

text \<open>The inner \<open>switch pktType\<close>.\<close>

definition decodePkt :: "codec \<Rightarrow> 8 word \<Rightarrow> byte list \<Rightarrow> pktResult" where
  "decodePkt C pktType pktBytes =
     (if pktType = HELLO then
        (case deserializeHelloMsg C pktBytes of Inl _ \<Rightarrow> PktBad | Inr m \<Rightarrow> PktMsg (MsgHello m))
      else if pktType = KEEPALIVE then PktMsg MsgKeepalive
      else if pktType = SUBSCRIBE then
        (case deserializeSubscribeMsg C pktBytes of Inl _ \<Rightarrow> PktBad | Inr m \<Rightarrow> PktMsg (MsgSubscribe m))
      else if pktType = UNSUBSCRIBE then
        (case deserializeUnsubscribeMsg C pktBytes of Inl _ \<Rightarrow> PktBad | Inr m \<Rightarrow> PktMsg (MsgUnsubscribe m))
      else if pktType = UPDATE then
        (case deserializeUpdateMsg C pktBytes of
           Returns (Inl _) \<Rightarrow> PktBad | Returns (Inr m) \<Rightarrow> PktMsg (MsgUpdate m) | _ \<Rightarrow> PktPanic)
      else PktUnknown)"

text \<open>The declared length of the packet at \<open>pktStart\<close>, a \<open>uint16\<close>.\<close>

definition pktLenAt :: "byte list \<Rightarrow> nat \<Rightarrow> 16 word" where
  "pktLenAt buf pktStart = push_bit 8 (ucast (buf ! (pktStart + 1))) + ucast (buf ! (pktStart + 2))"

text \<open>
  The \<open>goto parsePacket\<close> loop. An index or slice bound beyond the buffer panics. The
  result is the messages handed to the receive channels, in order, and how it ended.
\<close>

function parsePackets :: "codec \<Rightarrow> byte list \<Rightarrow> nat \<Rightarrow> nat \<Rightarrow> message list \<times> rxEnd" where
  "parsePackets C buf bytesRead pktStart =
     (if pktStart \<ge> length buf then ([], RxPanic)
      else if buf ! pktStart \<noteq> 1 then ([], RxReset)
      else if pktStart + 3 \<ge> length buf then ([], RxPanic)
      else let pktLen = unat (pktLenAt buf pktStart);
               pktType = buf ! (pktStart + 3)
      in if pktStart + pktLen + 4 > length buf then ([], RxPanic)
      else let pktBytes = take pktLen (drop (pktStart + 4) buf);
               pktStart' = pktStart + (4 + pktLen)
      in case decodePkt C pktType pktBytes of
           PktBad \<Rightarrow> ([], RxReset)
         | PktUnknown \<Rightarrow> ([], RxReturn)
         | PktPanic \<Rightarrow> ([], RxPanic)
         | PktMsg m \<Rightarrow>
             if pktStart' < bytesRead
             then let (ms, e) = parsePackets C buf bytesRead pktStart' in (m # ms, e)
             else ([m], RxContinue))"
  by pat_completeness auto
termination
  by (relation "measure (\<lambda>(C, buf, bytesRead, pktStart). bytesRead - pktStart)") auto

declare parsePackets.simps [simp del]

text \<open>What \<open>Read\<close> returned: bytes, end of file, or another error.\<close>

datatype readResult = ReadData "byte list" | ReadEOF | ReadError

text \<open>
  One iteration of \<open>rxLoop\<close> for a peer in state \<open>st\<close>: the messages, how it ended, and the
  buffer the next iteration starts with. \<open>Read\<close> overwrites the front of the buffer.
\<close>

definition rxIteration ::
    "codec \<Rightarrow> ConnectionState \<Rightarrow> byte list \<Rightarrow> readResult \<Rightarrow> (message list \<times> rxEnd) \<times> byte list" where
  "rxIteration C st buf r =
     (let buf' = (case r of ReadData bs \<Rightarrow> bs @ drop (length bs) buf | _ \<Rightarrow> buf) in
      (if st = CLOSED \<or> st = RETRY then ([], RxReturn)
       else case r of
         ReadEOF \<Rightarrow> ([], RxReset)
       | ReadError \<Rightarrow> ([], RxReset)
       | ReadData bs \<Rightarrow>
           if length bs \<ge> length buf then ([], RxReset)
           else parsePackets C buf' (length bs) 0, buf'))"

section \<open>One packet\<close>

lemma length_packet [simp]: "length (packet t bs) = length bs + 4"
  by (simp add: packet_def)

lemma packet_not_Nil [simp]: "packet t bs \<noteq> []"
  by (simp add: packet_def)

lemma packet_nth [simp]:
  "packet t bs ! 0 = 1"
  "packet t bs ! 1 = word_of_nat (length bs div 256)"
  "packet t bs ! 2 = word_of_nat (length bs mod 256)"
  "packet t bs ! 3 = t"
  by (simp_all add: packet_def numeral_2_eq_2 numeral_3_eq_3)

lemma pktLenAt_packet:
  assumes "length bs < 65536"
  shows "unat (pktLenAt (xs @ packet t bs @ ys) (length xs)) = length bs"
proof -
  let ?hi = "length bs div 256" and ?lo = "length bs mod 256"
  have "pktLenAt (xs @ packet t bs @ ys) (length xs)
      = push_bit 8 (word_of_nat ?hi) + word_of_nat ?lo"
    using assms by (simp add: pktLenAt_def nth_append unsigned_of_nat
        take_bit_nat_eq_self numeral_2_eq_2 packet_def)
  also have "\<dots> = word_of_nat (?hi * 256 + ?lo)"
    by (simp only: push_bit_eq_mult of_nat_add of_nat_mult) simp
  also have "?hi * 256 + ?lo = length bs" by simp
  finally show ?thesis using assms by (simp add: unat_of_nat)
qed

lemma packet_body: "take (length bs) (drop (length xs + 4) (xs @ packet t bs @ ys)) = bs"
  by (simp add: packet_def)

text \<open>One step of the loop on a well-formed packet in front of anything.\<close>

lemma parsePackets_step:
  assumes len: "length bs < 65536"
    and buf: "buf = xs @ packet t bs @ ys"
    and dec: "decodePkt C t bs = PktMsg m"
  shows "parsePackets C buf n (length xs) =
     (if length xs + (4 + length bs) < n
      then let (ms, e) = parsePackets C buf n (length xs + (4 + length bs)) in (m # ms, e)
      else ([m], RxContinue))"
proof -
  have idx: "buf ! length xs = 1" "buf ! (length xs + 3) = t"
    by (simp_all add: buf nth_append packet_def numeral_3_eq_3)
  have bounds: "length xs < length buf" "length xs + 3 < length buf"
    "length xs + length bs + 4 \<le> length buf"
    by (simp_all add: buf)
  have body: "take (length bs) (drop (length xs + 4) buf) = bs"
    unfolding buf by (rule packet_body)
  show ?thesis
    using idx bounds body dec pktLenAt_packet [OF len, of xs t ys]
    by (subst parsePackets.simps) (simp add: buf Let_def)
qed

section \<open>A stream of packets\<close>

text \<open>The bytes of a list of messages, if all of them serialize.\<close>

primrec encodeAll :: "codec \<Rightarrow> message list \<Rightarrow> error + byte list" where
  "encodeAll C [] = Inr []"
| "encodeAll C (m # ms) = (case encodeMessage C m of
     Inl e \<Rightarrow> Inl e
   | Inr b \<Rightarrow> (case encodeAll C ms of Inl e \<Rightarrow> Inl e | Inr bs \<Rightarrow> Inr (b @ bs)))"

text \<open>
  What the receiver sees of a message: \<open>deserializeHelloMsg\<close> does not copy \<open>IsServer\<close>.
\<close>

definition received :: "message \<Rightarrow> message" where
  "received msg = (case msg of MsgHello m \<Rightarrow> MsgHello (m\<lparr>helloIsServer := False\<rparr>) | _ \<Rightarrow> msg)"

definition message_ok :: "message \<Rightarrow> bool" where
  "message_ok msg = (case msg of MsgUpdate m \<Rightarrow> update_ok m | _ \<Rightarrow> True)"

context proto_codec
begin

lemma decode_serialized:
  assumes "Serialize C msg = Inr bs" and "message_ok msg"
  shows "decodePkt C (msgTypeOf msg) bs = PktMsg (received msg)"
  using assms
  by (cases msg)
    (auto simp: Serialize_def decodePkt_def msgTypeOf_def received_def message_ok_def
      hello_trip subscribe_trip unsubscribe_trip update_trip)

lemma encodeMessage_Inr:
  assumes "encodeMessage C msg = Inr b" and "message_ok msg"
  obtains bs where "b = packet (msgTypeOf msg) bs" "length bs \<le> maxMsgLen"
    "decodePkt C (msgTypeOf msg) bs = PktMsg (received msg)"
  using assms decode_serialized [of msg] Serialize_short [of C msg]
  by (auto simp: encodeMessage_def split: sum.splits)

lemma parse_encodeAll:
  assumes "encodeAll C (m # ms) = Inr bytes" "list_all message_ok (m # ms)"
  shows "parsePackets C (xs @ bytes @ ys) (length xs + length bytes) (length xs)
      = (map received (m # ms), RxContinue)"
  using assms
proof (induction ms arbitrary: m xs bytes)
  case Nil
  then obtain bs where "bytes = packet (msgTypeOf m) bs" "length bs \<le> maxMsgLen"
      "decodePkt C (msgTypeOf m) bs = PktMsg (received m)"
    by (auto elim!: encodeMessage_Inr split: sum.splits)
  then show ?case
    by (simp add: parsePackets_step [OF _ refl] maxMsgLen_def)
next
  case (Cons m' ms)
  from Cons.prems obtain b rest where b: "encodeMessage C m = Inr b"
    and rest: "encodeAll C (m' # ms) = Inr rest" and bytes: "bytes = b @ rest"
    by (auto split: sum.splits)
  from b Cons.prems obtain bs where bs: "b = packet (msgTypeOf m) bs" "length bs \<le> maxMsgLen"
      "decodePkt C (msgTypeOf m) bs = PktMsg (received m)"
    by (auto elim!: encodeMessage_Inr)
  have pos: "0 < length rest"
    using rest by (auto simp: encodeMessage_def split: sum.splits)
  have IH: "parsePackets C ((xs @ b) @ rest @ ys) (length (xs @ b) + length rest) (length (xs @ b))
      = (map received (m' # ms), RxContinue)"
    using Cons.prems rest by (intro Cons.IH) simp_all
  then show ?case
    using bs pos
    by (simp add: bytes parsePackets_step [OF _ refl] maxMsgLen_def add.assoc add.commute
        add.left_commute)
qed

end

end
