(* ===== verification/RouteTable.thy ===== *)
theory RouteTable
  imports Types
begin

text \<open>
  \<open>src/routetable.go\<close>: the four-level map from VNI, destination and next hop to the set
  of peers a route was received from. Every operation holds the table's mutex from its
  first to its last statement, so each is one function on the table. A pointer to a peer
  is \<open>Some\<close> of its address in the store; nil is \<open>None\<close> (used as the origin of a node's
  own announcements).

  The abstraction of a table is the relation \<open>rt_rel\<close> of its routes. The theory shows that
  each operation refines the set operation on that relation, which invariants it keeps,
  and which errors it returns.
\<close>

section \<open>The code\<close>

type_synonym peerptr = "nat option"

type_synonym hopMap = "(NextHop, (peerptr, bool) gomap) gomap"
type_synonym destMap = "(Destination, hopMap) gomap"

record routeTable =
  routes :: "(VNI, destMap) gomap"

definition newRouteTable :: routeTable where
  "newRouteTable = \<lparr>routes = []\<rparr>"

definition GetVNIs :: "routeTable \<Rightarrow> VNI list" where
  "GetVNIs rt = gkeys (routes rt)"

definition GetDestinationsByVNI :: "routeTable \<Rightarrow> VNI \<Rightarrow> (Destination, NextHop list) gomap" where
  "GetDestinationsByVNI rt vni =
     (case gget (routes rt) vni of
        None \<Rightarrow> []
      | Some dm \<Rightarrow> map (\<lambda>(dest, nhm). (dest, gkeys nhm)) dm)"

definition GetDestinationsByVNIWithPeer ::
    "routeTable \<Rightarrow> VNI \<Rightarrow> (Destination, (NextHop, peerptr list) gomap) gomap" where
  "GetDestinationsByVNIWithPeer rt vni =
     (case gget (routes rt) vni of
        None \<Rightarrow> []
      | Some dm \<Rightarrow>
          map (\<lambda>(dest, nhm). (dest, map (\<lambda>(nh, peersMap). (nh, gkeys peersMap)) nhm)) dm)"

definition GetNextHopsByDestination :: "routeTable \<Rightarrow> VNI \<Rightarrow> Destination \<Rightarrow> NextHop list" where
  "GetNextHopsByDestination rt vni dest =
     (case gget (routes rt) vni of
        None \<Rightarrow> []
      | Some dm \<Rightarrow>
         (case gget dm dest of
            None \<Rightarrow> []
          | Some nhm \<Rightarrow> gkeys nhm))"

definition RemoveNextHop ::
    "VNI \<Rightarrow> Destination \<Rightarrow> NextHop \<Rightarrow> peerptr \<Rightarrow> routeTable \<Rightarrow> (error + nat) \<times> routeTable" where
  "RemoveNextHop vni dest nh receivedFrom rt =
     (case gget (routes rt) vni of
        None \<Rightarrow> (Inl (Errorf ''VNI does not exist''), rt)
      | Some dm \<Rightarrow>
     (case gget dm dest of
        None \<Rightarrow> (Inl (Errorf ''destination does not exist''), rt)
      | Some hm \<Rightarrow>
     (case gget hm nh of
        None \<Rightarrow> (Inl (Errorf ''nexthop does not exist''), rt)
      | Some pm \<Rightarrow>
     (case gget pm receivedFrom of
        None \<Rightarrow> (Inl (Errorf ''receivedFrom does not exist''), rt)
      | Some _ \<Rightarrow>
         (let pm' = gdel receivedFrom pm;
              left = length pm';
              hm' = (if length pm' = 0 then gdel nh hm else gput nh pm' hm);
              dm' = (if length hm' = 0 then gdel dest dm else gput dest hm' dm);
              rs' = (if length dm' = 0 then gdel vni (routes rt) else gput vni dm' (routes rt))
          in (Inr left, rt\<lparr>routes := rs'\<rparr>))))))"

text \<open>
  The three \<open>make\<close> guards that \<open>AddNextHop\<close> and \<open>NextHopExists\<close> start with: afterwards the
  path to \<open>rt.routes[vni][dest][nh]\<close> exists. The last entry is that (possibly new) map.
\<close>

definition makePath :: "VNI \<Rightarrow> Destination \<Rightarrow> NextHop \<Rightarrow> routeTable \<Rightarrow> routeTable" where
  "makePath vni dest nh rt =
     (let rs = gensure vni (routes rt);
          dm = gensure dest (gsub rs vni);
          hm = gensure nh (gsub dm dest)
      in rt\<lparr>routes := gput vni (gput dest hm dm) rs\<rparr>)"

definition AddNextHop ::
    "VNI \<Rightarrow> Destination \<Rightarrow> NextHop \<Rightarrow> peerptr \<Rightarrow> routeTable \<Rightarrow> error option \<times> routeTable" where
  "AddNextHop vni dest nh receivedFrom rt =
     (let rt1 = makePath vni dest nh rt;
          rs = routes rt1;
          dm = gsub rs vni;
          hm = gsub dm dest;
          pm = gsub hm nh
      in case gget pm receivedFrom of
           Some _ \<Rightarrow> (Some (Errorf ''nexthop already exists''), rt1)
         | None \<Rightarrow> (None, rt1\<lparr>routes :=
             gput vni (gput dest (gput nh (gput receivedFrom True pm) hm) dm) rs\<rparr>))"

definition NextHopExists ::
    "VNI \<Rightarrow> Destination \<Rightarrow> NextHop \<Rightarrow> peerptr \<Rightarrow> routeTable \<Rightarrow> bool \<times> routeTable" where
  "NextHopExists vni dest nh receivedFrom rt =
     (let rt1 = makePath vni dest nh rt
      in case gget (gsub (gsub (gsub (routes rt1) vni) dest) nh) receivedFrom of
           Some _ \<Rightarrow> (True, rt1)
         | None \<Rightarrow> (False, rt1))"

section \<open>Invariants and abstraction\<close>

text \<open>Keys are distinct on every level: the lists represent maps.\<close>

definition rt_ok :: "routeTable \<Rightarrow> bool" where
  "rt_ok rt \<longleftrightarrow> gok (routes rt) \<and>
     gall (\<lambda>dm. gok dm \<and> gall (\<lambda>hm. gok hm \<and> gall gok hm) dm) (routes rt)"

text \<open>No level holds an empty map: every VNI, destination and next hop has a route.\<close>

definition rt_pruned :: "routeTable \<Rightarrow> bool" where
  "rt_pruned rt \<longleftrightarrow>
     gall (\<lambda>dm. dm \<noteq> [] \<and> gall (\<lambda>hm. hm \<noteq> [] \<and> gall (\<lambda>pm. pm \<noteq> []) hm) dm) (routes rt)"

definition peersOf :: "routeTable \<Rightarrow> VNI \<Rightarrow> Destination \<Rightarrow> NextHop \<Rightarrow> (peerptr, bool) gomap" where
  "peersOf rt v d h = gsub (gsub (gsub (routes rt) v) d) h"

definition rt_has :: "routeTable \<Rightarrow> VNI \<Rightarrow> Destination \<Rightarrow> NextHop \<Rightarrow> peerptr \<Rightarrow> bool" where
  "rt_has rt v d h p \<longleftrightarrow> gget (peersOf rt v d h) p \<noteq> None"

definition rt_rel :: "routeTable \<Rightarrow> (VNI \<times> Destination \<times> NextHop \<times> peerptr) set" where
  "rt_rel rt = {(v, d, h, p). rt_has rt v d h p}"

lemma rt_rel_iff [simp]: "(v, d, h, p) \<in> rt_rel rt \<longleftrightarrow> rt_has rt v d h p"
  by (simp add: rt_rel_def)

subsection \<open>Looking one step ahead\<close>

text \<open>
  What an operation writes is one new map of peers at one path, or the removal of that
  path. \<open>setPath\<close> and \<open>cutPath\<close> are these two writes.
\<close>

definition setPath ::
    "VNI \<Rightarrow> Destination \<Rightarrow> NextHop \<Rightarrow> (peerptr, bool) gomap \<Rightarrow> routeTable \<Rightarrow> routeTable" where
  "setPath v d h pm rt = rt\<lparr>routes :=
     gput v (gput d (gput h pm (gsub (gsub (routes rt) v) d)) (gsub (routes rt) v)) (routes rt)\<rparr>"

lemma makePath_setPath: "makePath v d h rt = setPath v d h (peersOf rt v d h) rt"
proof -
  have "gensure h (gsub (gsub (routes rt) v) d)
      = gput h (peersOf rt v d h) (gsub (gsub (routes rt) v) d)"
    by (auto simp: gensure_def peersOf_def gsub_def split: option.splits)
  then show ?thesis
    by (simp add: makePath_def setPath_def Let_def)
qed

lemma peersOf_setPath [simp]:
  "peersOf (setPath v d h pm rt) v' d' h' =
     (if v' = v \<and> d' = d \<and> h' = h then pm else peersOf rt v' d' h')"
  by (simp add: peersOf_def setPath_def)

lemma setPath_setPath [simp]: "setPath v d h pm (setPath v d h qm rt) = setPath v d h pm rt"
  by (simp add: setPath_def)

lemma AddNextHop_eq:
  "AddNextHop v d h p rt =
     (if rt_has rt v d h p
      then (Some (Errorf ''nexthop already exists''), makePath v d h rt)
      else (None, setPath v d h (gput p True (peersOf rt v d h)) rt))"
proof -
  have step: "rt1\<lparr>routes := gput v (gput d (gput h (gput p True (gsub (gsub (gsub (routes rt1) v) d) h))
         (gsub (gsub (routes rt1) v) d)) (gsub (routes rt1) v)) (routes rt1)\<rparr>
      = setPath v d h (gput p True (peersOf rt1 v d h)) rt1" for rt1
    by (simp add: setPath_def peersOf_def)
  have "gsub (gsub (gsub (routes (makePath v d h rt)) v) d) h = peersOf rt v d h"
    by (simp add: makePath_setPath flip: peersOf_def)
  then show ?thesis
    unfolding AddNextHop_def Let_def step
    by (simp add: rt_has_def makePath_setPath split: option.splits)
qed

lemma NextHopExists_eq: "NextHopExists v d h p rt = (rt_has rt v d h p, makePath v d h rt)"
proof -
  have "gsub (gsub (gsub (routes (makePath v d h rt)) v) d) h = peersOf rt v d h"
    by (simp add: makePath_setPath flip: peersOf_def)
  then show ?thesis
    by (simp add: NextHopExists_def Let_def rt_has_def split: option.splits)
qed

lemma rt_has_makePath [simp]: "rt_has (makePath v d h rt) v' d' h' p = rt_has rt v' d' h' p"
  by (simp add: rt_has_def makePath_setPath)

lemma rt_rel_makePath [simp]: "rt_rel (makePath v d h rt) = rt_rel rt"
  by (simp add: rt_rel_def)

lemma rt_ok_paths:
  assumes "rt_ok rt"
  shows "gok (gsub (routes rt) v)"
    and "gall (\<lambda>hm. gok hm \<and> gall gok hm) (gsub (routes rt) v)"
    and "gok (gsub (gsub (routes rt) v) d)"
    and "gall gok (gsub (gsub (routes rt) v) d)"
    and "gok (peersOf rt v d h)"
proof -
  have dm: "gok (gsub (routes rt) v) \<and> gall (\<lambda>hm. gok hm \<and> gall gok hm) (gsub (routes rt) v)"
    using assms unfolding rt_ok_def
    by (intro gall_gsub [where P = "\<lambda>dm. gok dm \<and> gall (\<lambda>hm. gok hm \<and> gall gok hm) dm"]) simp_all
  then show "gok (gsub (routes rt) v)"
    and hm: "gall (\<lambda>hm. gok hm \<and> gall gok hm) (gsub (routes rt) v)" by simp_all
  have "gok (gsub (gsub (routes rt) v) d) \<and> gall gok (gsub (gsub (routes rt) v) d)"
    by (rule gall_gsub [OF hm]) simp
  then show "gok (gsub (gsub (routes rt) v) d)" and "gall gok (gsub (gsub (routes rt) v) d)"
    by simp_all
  then show "gok (peersOf rt v d h)"
    unfolding peersOf_def by (intro gall_gsub [where P = gok]) simp_all
qed

lemma rt_ok_setPath: "rt_ok rt \<Longrightarrow> gok pm \<Longrightarrow> rt_ok (setPath v d h pm rt)"
  using rt_ok_paths(1,2) [of rt v] rt_ok_paths(3,4) [of rt v d]
  by (simp add: rt_ok_def setPath_def)

lemma rt_ok_makePath: "rt_ok rt \<Longrightarrow> rt_ok (makePath v d h rt)"
  by (simp add: makePath_setPath rt_ok_setPath rt_ok_paths)

lemma rt_has_path:
  assumes "rt_has rt v d h p"
  obtains dm hm pm where "gget (routes rt) v = Some dm" "gget dm d = Some hm"
    "gget hm h = Some pm" "gget pm p \<noteq> None" "peersOf rt v d h = pm"
proof -
  from assms have p: "gget (gsub (gsub (gsub (routes rt) v) d) h) p \<noteq> None"
    by (simp add: rt_has_def peersOf_def)
  then obtain dm where dm: "gget (routes rt) v = Some dm"
    by (cases "gget (routes rt) v") auto
  with p obtain hm where hm: "gget dm d = Some hm"
    by (cases "gget dm d") auto
  with p dm obtain pm where pm: "gget hm h = Some pm"
    by (cases "gget hm h") auto
  show ?thesis
    using that [OF dm hm pm] p dm hm pm by (simp add: peersOf_def)
qed

text \<open>Nothing is made on a path that a route already has.\<close>

lemma makePath_present: "rt_has rt v d h p \<Longrightarrow> makePath v d h rt = rt"
  by (erule rt_has_path) (simp add: makePath_setPath setPath_def)

lemma RemoveNextHop_present:
  assumes "rt_has rt v d h p"
  shows "fst (RemoveNextHop v d h p rt) = Inr (length (gdel p (peersOf rt v d h)))"
  using assms
  by (elim rt_has_path) (auto simp: RemoveNextHop_def Let_def split: option.splits)

lemma RemoveNextHop_absent:
  assumes "\<not> rt_has rt v d h p"
  shows "\<exists>e. RemoveNextHop v d h p rt = (Inl e, rt)"
  using assms
  by (auto simp: RemoveNextHop_def rt_has_def peersOf_def gsub_def split: option.splits)

lemma peersOf_RemoveNextHop:
  "peersOf (snd (RemoveNextHop v d h p rt)) v' d' h' =
     (if v' = v \<and> d' = d \<and> h' = h then gdel p (peersOf rt v d h) else peersOf rt v' d' h')"
proof (cases "rt_has rt v d h p")
  case True
  then obtain dm hm pm where "gget (routes rt) v = Some dm" "gget dm d = Some hm"
    "gget hm h = Some pm" "gget pm p \<noteq> None" "peersOf rt v d h = pm"
    by (rule rt_has_path)
  then show ?thesis
    by (auto simp: RemoveNextHop_def Let_def peersOf_def gsub_prune)
next
  case False
  then obtain e where "RemoveNextHop v d h p rt = (Inl e, rt)"
    using RemoveNextHop_absent by blast
  with False show ?thesis by (simp add: rt_has_def)
qed

lemma rt_has_RemoveNextHop:
  "rt_has (snd (RemoveNextHop v d h p rt)) v' d' h' p' \<longleftrightarrow>
     rt_has rt v' d' h' p' \<and> (v', d', h', p') \<noteq> (v, d, h, p)"
  by (auto simp: rt_has_def peersOf_RemoveNextHop)

lemma rt_has_AddNextHop:
  "rt_has (snd (AddNextHop v d h p rt)) v' d' h' p' \<longleftrightarrow>
     rt_has rt v' d' h' p' \<or> (v', d', h', p') = (v, d, h, p)"
  by (auto simp: AddNextHop_eq) (auto simp: rt_has_def split: if_splits)

lemma rt_ok_AddNextHop: "rt_ok rt \<Longrightarrow> rt_ok (snd (AddNextHop v d h p rt))"
  by (simp add: AddNextHop_eq rt_ok_makePath rt_ok_setPath rt_ok_paths)

lemma rt_ok_RemoveNextHop:
  assumes ok: "rt_ok rt"
  shows "rt_ok (snd (RemoveNextHop v d h p rt))"
proof (cases "rt_has rt v d h p")
  case True
  then obtain dm hm pm where *: "gget (routes rt) v = Some dm" "gget dm d = Some hm"
    "gget hm h = Some pm" "gget pm p \<noteq> None"
    by (rule rt_has_path)
  then have "gok dm" "gall (\<lambda>hm. gok hm \<and> gall gok hm) dm" "gok hm" "gall gok hm" "gok pm"
    using rt_ok_paths(1,2) [OF ok, of v] rt_ok_paths(3,4) [OF ok, of v d]
      rt_ok_paths(5) [OF ok, of v d h] by (simp_all add: peersOf_def)
  with * ok show ?thesis
    by (auto simp: RemoveNextHop_def Let_def rt_ok_def)
next
  case False
  then show ?thesis using RemoveNextHop_absent [of rt v d h p] ok by auto
qed

text \<open>Adding and removing keep a table without empty maps; asking does not.\<close>

lemma rt_pruned_paths:
  assumes "rt_pruned rt"
  shows "gall (\<lambda>hm. hm \<noteq> [] \<and> gall (\<lambda>pm. pm \<noteq> []) hm) (gsub (routes rt) v)"
    and "gall (\<lambda>pm. pm \<noteq> []) (gsub (gsub (routes rt) v) d)"
proof -
  show dm: "gall (\<lambda>hm. hm \<noteq> [] \<and> gall (\<lambda>pm. pm \<noteq> []) hm) (gsub (routes rt) v)"
    using assms unfolding rt_pruned_def
    by (auto simp: gsub_def dest: gall_gget split: option.splits)
  then show "gall (\<lambda>pm. pm \<noteq> []) (gsub (gsub (routes rt) v) d)"
    by (auto simp: gsub_def [of "gsub (routes rt) v"] dest: gall_gget split: option.splits)
qed

lemma rt_pruned_AddNextHop:
  assumes "rt_pruned rt"
  shows "rt_pruned (snd (AddNextHop v d h p rt))"
proof (cases "rt_has rt v d h p")
  case True
  with assms show ?thesis by (simp add: AddNextHop_eq makePath_present)
next
  case False
  with assms rt_pruned_paths(1) [OF assms, of v] rt_pruned_paths(2) [OF assms, of v d] show ?thesis
    by (simp add: AddNextHop_eq rt_pruned_def setPath_def)
qed

lemma rt_pruned_RemoveNextHop:
  assumes pr: "rt_pruned rt"
  shows "rt_pruned (snd (RemoveNextHop v d h p rt))"
proof (cases "rt_has rt v d h p")
  case True
  then obtain dm hm pm where *: "gget (routes rt) v = Some dm" "gget dm d = Some hm"
    "gget hm h = Some pm" "gget pm p \<noteq> None"
    by (rule rt_has_path)
  then have "gall (\<lambda>hm. hm \<noteq> [] \<and> gall (\<lambda>pm. pm \<noteq> []) hm) dm" "gall (\<lambda>pm. pm \<noteq> []) hm"
    using rt_pruned_paths(1) [OF pr, of v] rt_pruned_paths(2) [OF pr, of v d] by simp_all
  with * pr show ?thesis
    by (auto simp: RemoveNextHop_def Let_def rt_pruned_def)
next
  case False
  then show ?thesis using RemoveNextHop_absent [of rt v d h p] pr by auto
qed

section \<open>What the readers see\<close>

lemma rt_pruned_hop:
  assumes "rt_pruned rt" "gget (routes rt) v = Some dm" "gget dm d = Some hm" "gget hm h = Some pm"
  shows "\<exists>p. rt_has rt v d h p"
proof -
  have "pm \<noteq> []"
    using rt_pruned_paths(2) [OF assms(1), of v d] assms(2-4) by (auto dest: gall_gget)
  then obtain p where "gget pm p \<noteq> None" using gget_exists [of pm] by auto
  with assms have "rt_has rt v d h p" by (simp add: rt_has_def peersOf_def)
  then show ?thesis ..
qed

lemma GetNextHopsByDestination_set:
  assumes "rt_pruned rt"
  shows "set (GetNextHopsByDestination rt v d) = {h. \<exists>p. rt_has rt v d h p}"
proof (intro set_eqI iffI)
  fix h assume "h \<in> set (GetNextHopsByDestination rt v d)"
  then obtain dm hm pm where "gget (routes rt) v = Some dm" "gget dm d = Some hm"
    "gget hm h = Some pm"
    by (cases "gget (routes rt) v"; cases "gget (gsub (routes rt) v) d")
      (auto simp: GetNextHopsByDestination_def gget_in_gkeys)
  then show "h \<in> {h. \<exists>p. rt_has rt v d h p}"
    using rt_pruned_hop [OF assms] by blast
next
  fix h assume "h \<in> {h. \<exists>p. rt_has rt v d h p}"
  then show "h \<in> set (GetNextHopsByDestination rt v d)"
    by (auto simp: GetNextHopsByDestination_def gget_in_gkeys elim!: rt_has_path)
qed

lemma GetNextHopsByDestination_super:
  "rt_has rt v d h p \<Longrightarrow> h \<in> set (GetNextHopsByDestination rt v d)"
  by (erule rt_has_path) (auto simp: GetNextHopsByDestination_def gget_in_gkeys)

lemma gget_map_snd: "gget (map (\<lambda>(k, v). (k, f v)) m) k = map_option f (gget m k)"
  by (induction m) auto

lemma gkeys_map_snd [simp]: "gkeys (map (\<lambda>(k, v). (k, f v)) m) = gkeys m"
  by (induction m) auto

lemma gok_map_snd [simp]: "gok (map (\<lambda>(k, v). (k, f v)) m) = gok m"
  by (induction m) auto

text \<open>
  \<open>GetDestinationsByVNI\<close> lists, for each destination of the VNI, exactly what
  \<open>GetNextHopsByDestination\<close> returns for it.
\<close>

lemma gget_GetDestinationsByVNI:
  "gget (GetDestinationsByVNI rt v) d = map_option gkeys (gget (gsub (routes rt) v) d)"
  by (simp add: GetDestinationsByVNI_def gget_map_snd gsub_def split: option.splits)

lemma GetDestinationsByVNI_hops:
  "gget (GetDestinationsByVNI rt v) d = Some hs \<Longrightarrow> hs = GetNextHopsByDestination rt v d"
  by (auto simp: gget_GetDestinationsByVNI GetNextHopsByDestination_def gsub_def
      split: option.splits)

lemma GetDestinationsByVNI_super:
  assumes "rt_has rt v d h p"
  obtains hs where "(d, hs) \<in> set (GetDestinationsByVNI rt v)" "h \<in> set hs"
proof -
  from assms obtain dm hm pm where "gget (routes rt) v = Some dm" "gget dm d = Some hm"
    "gget hm h = Some pm"
    by (rule rt_has_path)
  then have "gget (GetDestinationsByVNI rt v) d = Some (gkeys hm)" "h \<in> set (gkeys hm)"
    by (simp_all add: gget_GetDestinationsByVNI gget_in_gkeys)
  then show ?thesis using that gget_memI by metis
qed

lemma gok_GetDestinationsByVNI: "rt_ok rt \<Longrightarrow> gok (GetDestinationsByVNI rt v)"
  using rt_ok_paths(1) [of rt v]
  by (auto simp: GetDestinationsByVNI_def gsub_def split: option.splits)

lemma GetVNIs_set:
  assumes "rt_pruned rt"
  shows "set (GetVNIs rt) = {v. \<exists>d h p. rt_has rt v d h p}"
proof -
  have "\<exists>d h p. rt_has rt v d h p" if dm: "gget (routes rt) v = Some dm" for v dm
  proof -
    from assms dm have "dm \<noteq> []" by (auto simp: rt_pruned_def dest: gall_gget)
    then obtain d hm where hm: "gget dm d = Some hm" using gget_exists by blast
    with rt_pruned_paths(1) [OF assms, of v] dm have "hm \<noteq> []" by (auto dest: gall_gget)
    then obtain h pm where pm: "gget hm h = Some pm" using gget_exists by blast
    show ?thesis using rt_pruned_hop [OF assms dm hm pm] by blast
  qed
  then show ?thesis
    by (auto simp: GetVNIs_def gget_in_gkeys elim: rt_has_path)
qed

lemma GetDestinationsByVNI_exact:
  assumes "rt_pruned t"
  shows "gget (GetDestinationsByVNI t v) d =
     (if \<exists>h p. rt_has t v d h p then Some (GetNextHopsByDestination t v d) else None)"
proof (cases "gget (GetDestinationsByVNI t v) d")
  case None
  then have "gget (gsub (routes t) v) d = None" by (simp add: gget_GetDestinationsByVNI)
  then have "\<not> rt_has t v d h p" for h p by (auto elim!: rt_has_path)
  with None show ?thesis by simp
next
  case (Some hs)
  then obtain hm where hm: "gget (gsub (routes t) v) d = Some hm"
    by (auto simp: gget_GetDestinationsByVNI)
  then have "hm \<noteq> []" using rt_pruned_paths(1) [OF assms, of v] by (auto dest: gall_gget)
  then obtain h where "h \<in> set (gkeys hm)" by (cases hm) auto
  moreover have "gkeys hm = GetNextHopsByDestination t v d"
    using hm GetDestinationsByVNI_hops [of t v d "gkeys hm"] by (simp add: gget_GetDestinationsByVNI)
  ultimately have "\<exists>p. rt_has t v d h p" using GetNextHopsByDestination_set [OF assms, of v d] by auto
  then show ?thesis using Some GetDestinationsByVNI_hops [OF Some] by auto
qed

lemma distinct_GetNextHopsByDestination: "rt_ok t \<Longrightarrow> distinct (GetNextHopsByDestination t v d)"
  using rt_ok_paths(3) [of t v d] by (auto simp: GetNextHopsByDestination_def gsub_def split: option.splits)

text \<open>The listing with peers has exactly the routes of the VNI.\<close>

lemma mem_map_values: "(k, y) \<in> set (map (\<lambda>(k, x). (k, f x)) m) \<longleftrightarrow> (\<exists>x. (k, x) \<in> set m \<and> y = f x)"
  by auto

lemma ex_map_values: "(\<exists>y. (k, y) \<in> set (map (\<lambda>(k, x). (k, f x)) m) \<and> P y) \<longleftrightarrow> (\<exists>x. (k, x) \<in> set m \<and> P (f x))"
  unfolding mem_map_values by blast

lemma GetDestinationsByVNIWithPeer_routes:
  assumes ok: "rt_ok t"
  shows "(\<exists>hm pm. (d, hm) \<in> set (GetDestinationsByVNIWithPeer t v) \<and> (h, pm) \<in> set hm \<and> p \<in> set pm) \<longleftrightarrow>
     rt_has t v d h p"
proof -
  let ?dm = "gsub (routes t) v" and ?list = "\<lambda>hm. map (\<lambda>(h, pm). (h, gkeys pm)) hm"
  have list: "GetDestinationsByVNIWithPeer t v = map (\<lambda>(d, hm). (d, ?list hm)) ?dm"
    by (simp add: GetDestinationsByVNIWithPeer_def gsub_def split: option.split)
  have "(\<exists>hm pm. (d, hm) \<in> set (GetDestinationsByVNIWithPeer t v) \<and> (h, pm) \<in> set hm \<and> p \<in> set pm) \<longleftrightarrow>
      (\<exists>hm pm. (d, hm) \<in> set ?dm \<and> (h, pm) \<in> set hm \<and> p \<in> set (gkeys pm))"
    unfolding list by (simp only: ex_map_values ex_simps)
  also have "\<dots> \<longleftrightarrow> (\<exists>hm pm. gget ?dm d = Some hm \<and> gget hm h = Some pm \<and> gget pm p \<noteq> None)"
  proof -
    have 1: "(d, hm) \<in> set ?dm \<longleftrightarrow> gget ?dm d = Some hm" for hm
      by (rule gget_mem [symmetric, OF rt_ok_paths(1) [OF ok]])
    have 2: "(h, pm) \<in> set hm \<longleftrightarrow> gget hm h = Some pm" if "gget ?dm d = Some hm" for hm pm
      using rt_ok_paths(3) [OF ok, of v d] that by (simp add: gget_mem)
    show ?thesis unfolding 1 by (auto simp: 2 gget_in_gkeys)
  qed
  also have "\<dots> \<longleftrightarrow> rt_has t v d h p"
    by (auto simp: rt_has_def peersOf_def gsub_def split: option.splits)
  finally show ?thesis .
qed

section \<open>The interface of a route table\<close>

text \<open>
  What the rest of the package relies on: a table is a relation; adding inserts one tuple
  and fails exactly when it is there; removing deletes one tuple, fails exactly when it is
  not there, and returns how many other peers still have the route; the listing of a VNI
  covers its routes. The lemmas are the package's deletion loops.
\<close>

locale route_store =
  fixes rel :: "'t \<Rightarrow> (VNI \<times> Destination \<times> NextHop \<times> peerptr) set"
    and invar :: "'t \<Rightarrow> bool"
    and add :: "VNI \<Rightarrow> Destination \<Rightarrow> NextHop \<Rightarrow> peerptr \<Rightarrow> 't \<Rightarrow> error option \<times> 't"
    and remove :: "VNI \<Rightarrow> Destination \<Rightarrow> NextHop \<Rightarrow> peerptr \<Rightarrow> 't \<Rightarrow> (error + nat) \<times> 't"
    and dests :: "'t \<Rightarrow> VNI \<Rightarrow> (Destination, NextHop list) gomap"
  assumes rel_add: "rel (snd (add v d h p t)) = insert (v, d, h, p) (rel t)"
    and add_None: "fst (add v d h p t) = None \<longleftrightarrow> (v, d, h, p) \<notin> rel t"
    and invar_add: "invar t \<Longrightarrow> invar (snd (add v d h p t))"
    and rel_remove: "rel (snd (remove v d h p t)) = rel t - {(v, d, h, p)}"
    and remove_Inr: "isl (fst (remove v d h p t)) \<longleftrightarrow> (v, d, h, p) \<notin> rel t"
    and remove_left: "invar t \<Longrightarrow> (v, d, h, p) \<in> rel t \<Longrightarrow>
      fst (remove v d h p t) = Inr (card {q. (v, d, h, q) \<in> rel t \<and> q \<noteq> p})"
    and invar_remove: "invar t \<Longrightarrow> invar (snd (remove v d h p t))"
    and dests_cover: "(v, d, h, p) \<in> rel t \<Longrightarrow> \<exists>hs. (d, hs) \<in> set (dests t v) \<and> h \<in> set hs"
begin

lemma remove_after_add:
  "invar t \<Longrightarrow> (v, d, h, p) \<notin> rel t \<Longrightarrow>
     rel (snd (remove v d h p (snd (add v d h p t)))) = rel t"
  by (simp add: rel_remove rel_add)

lemma remove_last:
  "invar t \<Longrightarrow> (v, d, h, p) \<in> rel t \<Longrightarrow> finite {q. (v, d, h, q) \<in> rel t} \<Longrightarrow>
     fst (remove v d h p t) = Inr 0 \<longleftrightarrow> (\<forall>q. (v, d, h, q) \<in> rel t \<longrightarrow> q = p)"
  using finite_subset [of "{q. (v, d, h, q) \<in> rel t \<and> q \<noteq> p}" "{q. (v, d, h, q) \<in> rel t}"]
  by (auto simp: remove_left card_eq_0_iff)

lemma rel_remove_hops:
  "rel (fold (\<lambda>h t. snd (remove v d h p t)) hs t) = rel t - {(v, d, h, p) | h. h \<in> set hs}"
  by (induction hs arbitrary: t) (auto simp: rel_remove)

lemma invar_remove_hops:
  "invar t \<Longrightarrow> invar (fold (\<lambda>h t. snd (remove v d h p t)) hs t)"
  by (induction hs arbitrary: t) (auto simp: invar_remove)

lemma rel_remove_dests:
  "rel (fold (\<lambda>(d, hs) t. fold (\<lambda>h t. snd (remove v d h p t)) hs t) ds t) =
     rel t - {(v, d, h, p) | d h hs. (d, hs) \<in> set ds \<and> h \<in> set hs}"
proof (induction ds arbitrary: t)
  case Nil
  then show ?case by simp
next
  case (Cons x ds)
  obtain d hs where x: "x = (d, hs)" by (cases x)
  show ?case unfolding x by (simp add: Cons.IH rel_remove_hops) blast
qed

lemma invar_remove_dests:
  "invar t \<Longrightarrow> invar (fold (\<lambda>(d, hs) t. fold (\<lambda>h t. snd (remove v d h p t)) hs t) ds t)"
  by (induction ds arbitrary: t) (auto simp: invar_remove_hops)

text \<open>Removing every listed hop of a VNI for one peer leaves none of its routes there.\<close>

lemma rel_drop_vni:
  "rel (fold (\<lambda>(d, hs) t. fold (\<lambda>h t. snd (remove v d h p t)) hs t) (dests t v) t) =
     rel t - {(v, d, h, p) | d h. True}"
  unfolding rel_remove_dests using dests_cover by blast

end

lemma RemoveNextHop_left:
  assumes ok: "rt_ok t" and has: "rt_has t v d h p"
  shows "fst (RemoveNextHop v d h p t) = Inr (card {q. rt_has t v d h q \<and> q \<noteq> p})"
proof -
  have "length (gdel p (peersOf t v d h)) = card {q. gget (gdel p (peersOf t v d h)) q \<noteq> None}"
    using ok by (simp only: card_gkeys gok_gdel rt_ok_paths)
  also have "{q. gget (gdel p (peersOf t v d h)) q \<noteq> None} = {q. rt_has t v d h q \<and> q \<noteq> p}"
    by (auto simp: rt_has_def)
  finally show ?thesis using has by (simp add: RemoveNextHop_present)
qed

lemma RemoveNextHop_isl: "isl (fst (RemoveNextHop v d h p t)) \<longleftrightarrow> \<not> rt_has t v d h p"
  using RemoveNextHop_present [of t v d h p] RemoveNextHop_absent [of t v d h p]
  by (cases "rt_has t v d h p") auto

lemma rt_rel_AddNextHop: "rt_rel (snd (AddNextHop v d h p t)) = insert (v, d, h, p) (rt_rel t)"
  by (auto simp: rt_has_AddNextHop rt_rel_def)

lemma rt_rel_RemoveNextHop: "rt_rel (snd (RemoveNextHop v d h p t)) = rt_rel t - {(v, d, h, p)}"
  by (auto simp: rt_has_RemoveNextHop rt_rel_def)

lemma AddNextHop_None: "fst (AddNextHop v d h p t) = None \<longleftrightarrow> \<not> rt_has t v d h p"
  by (simp add: AddNextHop_eq)

lemmas route_store_laws = rt_rel_AddNextHop rt_rel_RemoveNextHop AddNextHop_None
  RemoveNextHop_isl RemoveNextHop_left rt_ok_AddNextHop rt_ok_RemoveNextHop
  rt_pruned_AddNextHop rt_pruned_RemoveNextHop

text \<open>The table implements the interface, with and without the pruning invariant.\<close>

interpretation rt: route_store rt_rel rt_ok AddNextHop RemoveNextHop GetDestinationsByVNI
  by unfold_locales (auto simp: route_store_laws elim: GetDestinationsByVNI_super)

interpretation rtp: route_store rt_rel "\<lambda>t. rt_ok t \<and> rt_pruned t" AddNextHop RemoveNextHop
  GetDestinationsByVNI
  by unfold_locales (auto simp: route_store_laws elim: GetDestinationsByVNI_super)

section \<open>Round trip\<close>

lemma gdel_gput_new: "gget m k = None \<Longrightarrow> gdel k (gput k v m) = m"
  by (induction m) (auto simp: gget_def)

lemma gput_gput_same: "gget m k = Some v \<Longrightarrow> gput k v (gput k w m) = m"
  by (induction m) (auto split: if_splits)

text \<open>Putting a value at a key and pruning it again: the map is as it was.\<close>

lemma gprune_gput:
  assumes "gget m k = None \<or> gget m k = Some w \<and> w \<noteq> []" "w' = (if gget m k = None then [] else w)"
  shows "(if w' = [] then gdel k (gput k v m) else gput k w' (gput k v m)) = m"
  using assms by (auto simp: gdel_gput_new gput_gput_same)

lemma pruned_level:
  assumes "gall (\<lambda>x. x \<noteq> [] \<and> P x) m"
  shows "gget m k = None \<or> gget m k = Some (gsub m k) \<and> gsub m k \<noteq> []"
  using assms by (auto simp: gsub_def dest: gall_gget split: option.splits)

lemma remove_after_add_eq:
  assumes pr: "rt_pruned t" and new: "\<not> rt_has t v d h p"
  shows "RemoveNextHop v d h p (snd (AddNextHop v d h p t)) = (Inr (length (peersOf t v d h)), t)"
proof -
  let ?dm = "gsub (routes t) v" and ?hm = "gsub (gsub (routes t) v) d" and ?pm = "peersOf t v d h"
  have none: "gget ?pm p = None" using new by (simp add: rt_has_def)
  have dm: "gget (routes t) v = None \<or> gget (routes t) v = Some ?dm \<and> ?dm \<noteq> []"
    using pr unfolding rt_pruned_def by (rule pruned_level)
  have hm: "gget ?dm d = None \<or> gget ?dm d = Some ?hm \<and> ?hm \<noteq> []"
    using rt_pruned_paths(1) [OF pr] by (rule pruned_level)
  have pm: "gget ?hm h = None \<or> gget ?hm h = Some ?pm \<and> ?pm \<noteq> []"
    unfolding peersOf_def
    using pruned_level [of "\<lambda>_. True"] rt_pruned_paths(2) [OF pr, of v d] by simp
  have 1: "(if ?pm = [] then gdel h (gput h (gput p True ?pm) ?hm) else gput h ?pm (gput h (gput p True ?pm) ?hm)) = ?hm"
    using pm by (intro gprune_gput) (auto simp: peersOf_def)
  have 2: "(if ?hm = [] then gdel d (gput d x ?dm) else gput d ?hm (gput d x ?dm)) = ?dm" for x
    using hm by (intro gprune_gput) auto
  have 3: "(if ?dm = [] then gdel v (gput v x (routes t)) else gput v ?dm (gput v x (routes t))) = routes t" for x
    using dm by (intro gprune_gput) auto
  show ?thesis
    using new 1 2 3 none
    by (simp add: AddNextHop_eq setPath_def RemoveNextHop_def Let_def gdel_gput_new cong: if_cong)
qed

section \<open>Properties of the route table\<close>

subsection \<open>Example routes\<close>

definition exDest :: Destination where
  "exDest = \<lparr>destIPVersion = IPV4, destPrefix = PrefixFrom (Addr4 0x0A000000) 24\<rparr>"

definition exHop :: NextHop where
  "exHop = \<lparr>TargetAddress = Addr6 0xFD000000000000000000000000000001 [], TargetVNI = 7,
     nhType = NextHopType_STANDARD, NATPortRangeFrom = 0, NATPortRangeTo = 0\<rparr>"

definition exTable :: routeTable where
  "exTable = snd (AddNextHop 7 exDest exHop (Some 1) newRouteTable)"

lemma exTable_ok: "rt_ok exTable" "rt_pruned exTable"
proof -
  have "rt_ok newRouteTable" "rt_pruned newRouteTable"
    by (simp_all add: newRouteTable_def rt_ok_def rt_pruned_def)
  then show "rt_ok exTable" "rt_pruned exTable"
    by (simp_all add: exTable_def rt_ok_AddNextHop rt_pruned_AddNextHop)
qed

lemma exTable_has: "rt_has exTable v d h p \<longleftrightarrow> (v, d, h, p) = (7, exDest, exHop, Some 1)"
  unfolding exTable_def rt_has_AddNextHop
  by (auto simp: rt_has_def newRouteTable_def peersOf_def)

subsection \<open>Refinement of sets of routes\<close>

text \<open>
  C10. \<open>AddNextHop\<close> inserts the route (VNI, destination, next hop, peer) into the set of
  routes and nothing else; it returns nil exactly when the route was not there, and on its
  error the table is unchanged.
\<close>

theorem AddNextHop_refines_insert:
  "rt_rel (snd (AddNextHop v d h p t)) = insert (v, d, h, p) (rt_rel t) \<and>
     (if (v, d, h, p) \<in> rt_rel t
      then AddNextHop v d h p t = (Some (Errorf ''nexthop already exists''), t)
      else fst (AddNextHop v d h p t) = None)"
  unfolding rt_rel_AddNextHop by (simp add: AddNextHop_eq makePath_present)

text \<open>
  C9. On a table whose maps have distinct keys, \<open>RemoveNextHop\<close> deletes exactly the
  given route. If the route is there it returns the number of other peers that still have
  it; if not, it returns an error and the table is unchanged.
\<close>

theorem RemoveNextHop_refines_delete:
  assumes "rt_ok t"
  shows "rt_rel (snd (RemoveNextHop v d h p t)) = rt_rel t - {(v, d, h, p)} \<and>
     (if (v, d, h, p) \<in> rt_rel t
      then fst (RemoveNextHop v d h p t) = Inr (card {q. (v, d, h, q) \<in> rt_rel t \<and> q \<noteq> p})
      else \<exists>e. RemoveNextHop v d h p t = (Inl e, t))"
  using assms RemoveNextHop_absent [of t v d h p]
  by (auto simp: rt_rel_RemoveNextHop RemoveNextHop_left)

theorem RemoveNextHop_refines_delete_witness:
  "rt_ok exTable \<and> rt_rel (snd (RemoveNextHop 7 exDest exHop (Some 1) exTable)) = {} \<and>
     fst (RemoveNextHop 7 exDest exHop (Some 1) exTable) = Inr 0"
proof -
  have "rt_rel exTable = {(7, exDest, exHop, Some 1)}" by (auto simp: rt_rel_def exTable_has)
  moreover have "{q. rt_has exTable 7 exDest exHop q \<and> q \<noteq> Some 1} = {}"
    by (auto simp: exTable_has)
  ultimately show ?thesis
    using RemoveNextHop_refines_delete [OF exTable_ok(1), of 7 exDest exHop "Some 1"] exTable_ok(1)
    by (simp add: exTable_has)
qed

text \<open>
  C22. Adding and removing a next hop keep the shape of a table: keys stay distinct on
  every level, and no level is left with an empty map, so that an absent VNI, destination
  or next hop is absent from the maps.
\<close>

theorem route_table_invariant:
  assumes "rt_ok t \<and> rt_pruned t"
  shows "rt_ok (snd (AddNextHop v d h p t)) \<and> rt_pruned (snd (AddNextHop v d h p t)) \<and>
     rt_ok (snd (RemoveNextHop v d h p t)) \<and> rt_pruned (snd (RemoveNextHop v d h p t))"
  using assms by (simp add: route_store_laws)

theorem route_table_invariant_witness:
  "(rt_ok exTable \<and> rt_pruned exTable) \<and>
     rt_pruned (snd (RemoveNextHop 7 exDest exHop (Some 1) exTable))"
  using route_table_invariant [of exTable 7 exDest exHop "Some 1"] exTable_ok by simp

text \<open>
  Removing a route just added gives back the table itself, map for map, and
  returns how many peers had the route before.
\<close>

lemma add_remove_roundtrip:
  assumes "rt_pruned t" "(v, d, h, p) \<notin> rt_rel t"
  shows "RemoveNextHop v d h p (snd (AddNextHop v d h p t)) = (Inr (length (peersOf t v d h)), t)"
  using assms by (simp add: remove_after_add_eq)

lemma add_remove_roundtrip_witness:
  "rt_pruned exTable \<and> (7, exDest, exHop, Some 2) \<notin> rt_rel exTable \<and>
     snd (RemoveNextHop 7 exDest exHop (Some 2) (snd (AddNextHop 7 exDest exHop (Some 2) exTable))) = exTable"
  using add_remove_roundtrip [OF exTable_ok(2), of 7 exDest exHop "Some 2"] exTable_ok(2)
  by (simp add: exTable_has)

text \<open>
  On a table without empty maps the readers are exact: \<open>GetVNIs\<close> lists the VNIs
  that have a route, \<open>GetNextHopsByDestination\<close> the next hops of a destination, and
  \<open>GetDestinationsByVNI\<close> has an entry for a destination exactly when it has a route, with
  those next hops.
\<close>

lemma readers_exact:
  assumes "rt_pruned t"
  shows "set (GetVNIs t) = {v. \<exists>d h p. (v, d, h, p) \<in> rt_rel t} \<and>
     set (GetNextHopsByDestination t v d) = {h. \<exists>p. (v, d, h, p) \<in> rt_rel t} \<and>
     gget (GetDestinationsByVNI t v) d =
       (if \<exists>h p. (v, d, h, p) \<in> rt_rel t then Some (GetNextHopsByDestination t v d) else None)"
  using GetNextHopsByDestination_set [OF assms, of v d] GetVNIs_set [OF assms] GetDestinationsByVNI_exact [OF assms]
  by simp

lemma readers_exact_witness:
  "rt_pruned exTable \<and> set (GetVNIs exTable) = {7} \<and>
     set (GetNextHopsByDestination exTable 7 exDest) = {exHop}"
  using readers_exact [OF exTable_ok(2), of 7 exDest] exTable_ok(2) by (auto simp: exTable_has)

text \<open>
  \<open>NextHopExists\<close> answers correctly and adds no route, but it makes the maps on
  the path it asks about: after a question about an absent next hop the readers list that
  next hop, although no peer has it.
\<close>

lemma NextHopExists_phantom:
  "fst (NextHopExists v d h p t) = ((v, d, h, p) \<in> rt_rel t) \<and>
     rt_rel (snd (NextHopExists v d h p t)) = rt_rel t \<and>
     h \<in> set (GetNextHopsByDestination (snd (NextHopExists v d h p t)) v d)"
  by (simp add: NextHopExists_eq)
    (simp add: makePath_setPath setPath_def GetNextHopsByDestination_def gget_in_gkeys)

end
