(* ===== verification/World.thy ===== *)
theory World
  imports Prog Wire RouteTable
begin

text \<open>
  The state of one node: the fields of \<open>MetalBond\<close> (\<open>src/metalbond.go\<close>), and a store of the
  \<open>metalBondPeer\<close> structs (\<open>src/peer.go\<close>) that the node's maps point to. A non-nil
  \<open>*metalBondPeer\<close> is an address of the store. \<open>spawned\<close> is the list of goroutines that
  have been started with \<open>go\<close> and not been scheduled yet.

  Channels: nil is \<open>None\<close> (a send on it never proceeds). A made channel is the queue of
  the values sent and not received; the values of senders that wait because the channel
  is full are at the end of that queue. Mutexes: the code takes and releases them within
  one call, except \<open>mtxSubscribers\<close>, which \<open>addSubscriber\<close> leaves locked on one return
  path; that one is part of the state. The type parameter \<open>'c\<close> is the state of the
  \<open>Client\<close> the node installs routes with.
\<close>

section \<open>Structs\<close>

record metalBondPeer =
  conn :: "nat option"
  peerId :: string
  remoteAddr :: string
  localIP :: string
  localAddr :: string
  direction :: ConnectionDirection
  peerIsServer :: bool
  state :: ConnectionState
  receivedRoutes :: routeTable
  subscribedVNIs :: "(VNI, bool) gomap"
  peerKeepalive :: "32 word"
  keepaliveTimer :: "int option"
  shutdown :: "nat option"
  keepaliveStop :: "nat option"
  txChanClose :: "nat option"
  txChan :: "byte list list option"
  rxHello :: "msgHello list option"
  rxKeepalive :: "nat option"
  rxSubscribe :: "msgSubscribe list option"
  rxUnsubscribe :: "msgUnsubscribe list option"
  rxUpdate :: "msgUpdate list option"
  wg :: nat
  txChanCapacity :: int
  rxChanEventCapacity :: int
  rxChanDataUpdateCapacity :: int

record 'c MetalBond =
  mbRouteTable :: routeTable
  myAnnouncements :: routeTable
  mySubscriptions :: "(VNI, bool) gomap"
  mtxSubscribers :: bool
  subscribers :: "(VNI, (nat, bool) gomap) gomap"
  peers :: "(string, nat) gomap"
  mbKeepalive :: "32 word"
  shuttingDown :: bool
  client :: 'c
  lis :: "bool option"
  mbIsServer :: bool

datatype goroutine = GoHandle nat | GoRxLoop nat | GoTxLoop nat | GoKeepaliveLoop nat | GoReset nat

record 'c world = "'c MetalBond" +
  heap :: "nat \<Rightarrow> metalBondPeer"
  nextRef :: nat
  spawned :: "goroutine list"

text \<open>The methods of the \<open>Client\<close> interface (\<open>src/client.go\<close>), acting on the client's state.\<close>

record 'c Client =
  AddRoute :: "VNI \<Rightarrow> Destination \<Rightarrow> NextHop \<Rightarrow> 'c \<Rightarrow> error option \<times> 'c"
  RemoveRoute :: "VNI \<Rightarrow> Destination \<Rightarrow> NextHop \<Rightarrow> 'c \<Rightarrow> error option \<times> 'c"

text \<open>\<open>DummyClient\<close> installs nothing and never fails.\<close>

definition DummyClient :: "'c Client" where
  "DummyClient = \<lparr>AddRoute = \<lambda>vni dest nexthop c. (None, c), RemoveRoute = \<lambda>vni dest nexthop c. (None, c)\<rparr>"

text \<open>What the package is linked with: the protobuf codec and the client's methods.\<close>

record 'c env =
  cdc :: codec
  ops :: "'c Client"

type_synonym ('c, 'a) go = "('c world, 'a) prog"

section \<open>Access to the state\<close>

definition updPeer :: "nat \<Rightarrow> (metalBondPeer \<Rightarrow> metalBondPeer) \<Rightarrow> 'c world \<Rightarrow> 'c world" where
  "updPeer p f w = w\<lparr>heap := (heap w)(p := f (heap w p))\<rparr>"

definition setPeer :: "nat \<Rightarrow> (metalBondPeer \<Rightarrow> metalBondPeer) \<Rightarrow> ('c, unit) go" where
  "setPeer p f = modify (updPeer p f)"

definition onRouteTable :: "(routeTable \<Rightarrow> 'a \<times> routeTable) \<Rightarrow> ('c, 'a) go" where
  "onRouteTable f = (\<lambda>w. (Returns (fst (f (mbRouteTable w))),
     w\<lparr>mbRouteTable := snd (f (mbRouteTable w))\<rparr>))"

definition onAnnouncements :: "(routeTable \<Rightarrow> 'a \<times> routeTable) \<Rightarrow> ('c, 'a) go" where
  "onAnnouncements f = (\<lambda>w. (Returns (fst (f (myAnnouncements w))),
     w\<lparr>myAnnouncements := snd (f (myAnnouncements w))\<rparr>))"

definition onReceived :: "nat \<Rightarrow> (routeTable \<Rightarrow> 'a \<times> routeTable) \<Rightarrow> ('c, 'a) go" where
  "onReceived p f = (\<lambda>w. (Returns (fst (f (receivedRoutes (heap w p)))),
     updPeer p (receivedRoutes_update (\<lambda>t. snd (f t))) w))"

definition onClient :: "('c \<Rightarrow> 'a \<times> 'c) \<Rightarrow> ('c, 'a) go" where
  "onClient f = (\<lambda>w. (Returns (fst (f (client w))), w\<lparr>client := snd (f (client w))\<rparr>))"

definition goStart :: "goroutine \<Rightarrow> ('c, unit) go" where
  "goStart g = modify (\<lambda>w. w\<lparr>spawned := spawned w @ [g]\<rparr>)"

text \<open>\<open>mtxSubscribers\<close>: a writer holds it or not; readers do not exclude each other.\<close>

definition lockSubscribers :: "('c, unit) go" where
  "lockSubscribers = (\<lambda>w. if mtxSubscribers w then (Blocks, w)
     else (Returns (), w\<lparr>mtxSubscribers := True\<rparr>))"

definition unlockSubscribers :: "('c, unit) go" where
  "unlockSubscribers = modify (\<lambda>w. w\<lparr>mtxSubscribers := False\<rparr>)"

definition rlockSubscribers :: "('c, unit) go" where
  "rlockSubscribers = (\<lambda>w. if mtxSubscribers w then (Blocks, w) else (Returns (), w))"

text \<open>Sending on the peer's packet channel and on its one-word signal channels.\<close>

definition sendTx :: "nat \<Rightarrow> byte list \<Rightarrow> ('c, unit) go" where
  "sendTx p pkt = (\<lambda>w. case txChan (heap w p) of
     None \<Rightarrow> (Blocks, w)
   | Some q \<Rightarrow> (Returns (), updPeer p (txChan_update (\<lambda>_. Some (q @ [pkt]))) w))"

definition signal ::
    "(metalBondPeer \<Rightarrow> nat option) \<Rightarrow> ((nat option \<Rightarrow> nat option) \<Rightarrow> metalBondPeer \<Rightarrow> metalBondPeer)
      \<Rightarrow> nat \<Rightarrow> ('c, unit) go" where
  "signal get upd p = (\<lambda>w. case get (heap w p) of
     None \<Rightarrow> (Blocks, w)
   | Some n \<Rightarrow> (Returns (), updPeer p (upd (\<lambda>_. Some (Suc n))) w))"

lemmas state_defs = setPeer_def onRouteTable_def onAnnouncements_def onReceived_def onClient_def
  goStart_def lockSubscribers_def unlockSubscribers_def rlockSubscribers_def

lemma heap_updPeer [simp]: "heap (updPeer p f w) q = (if q = p then f (heap w p) else heap w q)"
  by (simp add: updPeer_def)

lemma updPeer_frame [simp]:
  "mbRouteTable (updPeer p f w) = mbRouteTable w"
  "myAnnouncements (updPeer p f w) = myAnnouncements w"
  "mySubscriptions (updPeer p f w) = mySubscriptions w"
  "mtxSubscribers (updPeer p f w) = mtxSubscribers w"
  "subscribers (updPeer p f w) = subscribers w"
  "peers (updPeer p f w) = peers w"
  "client (updPeer p f w) = client w"
  "mbIsServer (updPeer p f w) = mbIsServer w"
  "nextRef (updPeer p f w) = nextRef w"
  "spawned (updPeer p f w) = spawned w"
  "lis (updPeer p f w) = lis w"
  "shuttingDown (updPeer p f w) = shuttingDown w"
  "mbKeepalive (updPeer p f w) = mbKeepalive w"
  by (simp_all add: updPeer_def)

end
