(* ===== verification/Peer.thy ===== *)
theory Peer
  imports World
begin

text \<open>
  The sending side of a peer (\<open>src/peer.go\<close>): creation, \<open>GetState\<close>, the local address, \<open>sendMessage\<close> and the
  three exported operations \<open>Subscribe\<close>, \<open>Unsubscribe\<close> and \<open>SendUpdate\<close>.
\<close>

section \<open>The code\<close>

definition newMetalBondPeer ::
    "nat option \<Rightarrow> string \<Rightarrow> string \<Rightarrow> string \<Rightarrow> int \<Rightarrow> int \<Rightarrow> int \<Rightarrow> 32 word \<Rightarrow> ConnectionDirection \<Rightarrow>
      ('c, nat) go" where
  "newMetalBondPeer pconn uuid addr ip txCap rxEventCap rxDataCap ka dir = (\<lambda>w.
     (let p = nextRef w;
          peer = \<lparr>conn = pconn, peerId = uuid, remoteAddr = addr, localIP = ip, localAddr = [],
            direction = dir, peerIsServer = False, state = CONNECTING,
            receivedRoutes = newRouteTable, subscribedVNIs = [],
            peerKeepalive = ka, keepaliveTimer = None,
            shutdown = None, keepaliveStop = None, txChanClose = None, txChan = None,
            rxHello = None, rxKeepalive = None, rxSubscribe = None, rxUnsubscribe = None,
            rxUpdate = None, wg = 0,
            txChanCapacity = txCap, rxChanEventCapacity = rxEventCap,
            rxChanDataUpdateCapacity = rxDataCap\<rparr>
      in (Returns p, w\<lparr>heap := (heap w)(p := peer), nextRef := Suc p,
            spawned := spawned w @ [GoHandle p]\<rparr>)))"

definition GetState :: "nat \<Rightarrow> ('c, ConnectionState) go" where
  "GetState p = gets (\<lambda>w. state (heap w p))"

definition LocalAddr :: "nat \<Rightarrow> ('c, string) go" where
  "LocalAddr p = gets (\<lambda>w. localAddr (heap w p))"

abbreviation setLocalAddr :: "nat \<Rightarrow> string \<Rightarrow> ('c, unit) go" where
  "setLocalAddr p addr \<equiv> setPeer p (\<lambda>x. x\<lparr>localAddr := addr\<rparr>)"

definition sendMessage :: "'c env \<Rightarrow> nat \<Rightarrow> message \<Rightarrow> ('c, error option) go" where
  "sendMessage E p msg =
     bind (GetState p) (\<lambda>st.
     if st = CLOSED then ret (Some (Errorf ''state is closed'')) else
     case encodeMessage (cdc E) msg of
       Inl e \<Rightarrow> ret (Some e)
     | Inr pkt \<Rightarrow> andThen (sendTx p pkt) (ret None))"

definition peerSubscribe :: "'c env \<Rightarrow> nat \<Rightarrow> VNI \<Rightarrow> ('c, error option) go" where
  "peerSubscribe E p vni =
     bind (gets (\<lambda>w. direction (heap w p))) (\<lambda>dir.
     if dir = INCOMING then ret (Some (Errorf ''cannot subscribe on incoming connection'')) else
     bind (GetState p) (\<lambda>st.
     if st \<noteq> ESTABLISHED then ret (Some (Errorf ''connection not ESTABLISHED'')) else
     sendMessage E p (MsgSubscribe \<lparr>subscribeVNI = vni\<rparr>)))"

text \<open>The loop of \<open>Unsubscribe\<close> over the peer's received routes of the VNI.\<close>

definition dropReceived :: "VNI \<Rightarrow> peerptr \<Rightarrow> routeTable \<Rightarrow> routeTable" where
  "dropReceived vni p rt =
     fold (\<lambda>(dest, nhs) t. fold (\<lambda>nh t. snd (RemoveNextHop vni dest nh p t)) nhs t)
       (GetDestinationsByVNI rt vni) rt"

definition peerUnsubscribe :: "'c env \<Rightarrow> nat \<Rightarrow> VNI \<Rightarrow> ('c, error option) go" where
  "peerUnsubscribe E p vni =
     bind (gets (\<lambda>w. direction (heap w p))) (\<lambda>dir.
     if dir = INCOMING then ret (Some (Errorf ''cannot unsubscribe on incoming connection'')) else
     andThen (onReceived p (\<lambda>t. ((), dropReceived vni (Some p) t)))
     (sendMessage E p (MsgUnsubscribe \<lparr>unsubscribeVNI = vni\<rparr>)))"

definition SendUpdate :: "'c env \<Rightarrow> nat \<Rightarrow> msgUpdate \<Rightarrow> ('c, error option) go" where
  "SendUpdate E p upd =
     bind (GetState p) (\<lambda>st.
     if st \<noteq> ESTABLISHED then ret (Some (Errorf ''connection not ESTABLISHED''))
     else sendMessage E p (MsgUpdate upd))"

section \<open>What sending does\<close>

text \<open>A world in which every peer has run the head of \<open>handle\<close>, which makes the channels.\<close>

definition txMade :: "'c world \<Rightarrow> bool" where
  "txMade w \<longleftrightarrow> (\<forall>p. txChan (heap w p) \<noteq> None)"

definition txQueue :: "'c world \<Rightarrow> nat \<Rightarrow> byte list list" where
  "txQueue w p = (case txChan (heap w p) of None \<Rightarrow> [] | Some q \<Rightarrow> q)"

text \<open>The effect of a successful send: one packet at the end of one queue.\<close>

definition enqueue :: "nat \<Rightarrow> byte list \<Rightarrow> 'c world \<Rightarrow> 'c world" where
  "enqueue p pkt w = updPeer p (txChan_update (\<lambda>_. Some (txQueue w p @ [pkt]))) w"

lemma sendTx_made: "txChan (heap w p) \<noteq> None \<Longrightarrow> sendTx p pkt w = (Returns (), enqueue p pkt w)"
  by (auto simp: sendTx_def enqueue_def txQueue_def)

lemma sendMessage_run:
  assumes "txChan (heap w p) \<noteq> None"
  shows "sendMessage E p msg w =
     (if state (heap w p) = CLOSED then (Returns (Some (Errorf ''state is closed'')), w)
      else case encodeMessage (cdc E) msg of
        Inl e \<Rightarrow> (Returns (Some e), w)
      | Inr pkt \<Rightarrow> (Returns None, enqueue p pkt w))"
  using assms by (simp add: sendMessage_def GetState_def sendTx_made split: sum.splits)

lemma SendUpdate_run:
  assumes "txChan (heap w p) \<noteq> None"
  shows "SendUpdate E p upd w =
     (if state (heap w p) \<noteq> ESTABLISHED
      then (Returns (Some (Errorf ''connection not ESTABLISHED'')), w)
      else case encodeMessage (cdc E) (MsgUpdate upd) of
        Inl e \<Rightarrow> (Returns (Some e), w)
      | Inr pkt \<Rightarrow> (Returns None, enqueue p pkt w))"
  using assms by (simp add: SendUpdate_def GetState_def sendMessage_run)

lemma txQueue_enqueue [simp]:
  "txQueue (enqueue p pkt w) q = (if q = p then txQueue w p @ [pkt] else txQueue w q)"
  by (simp add: enqueue_def txQueue_def [of "updPeer _ _ _"]) (simp add: txQueue_def)

lemma enqueue_frame [simp]:
  "mbRouteTable (enqueue p pkt w) = mbRouteTable w"
  "myAnnouncements (enqueue p pkt w) = myAnnouncements w"
  "mySubscriptions (enqueue p pkt w) = mySubscriptions w"
  "mtxSubscribers (enqueue p pkt w) = mtxSubscribers w"
  "subscribers (enqueue p pkt w) = subscribers w"
  "peers (enqueue p pkt w) = peers w"
  "client (enqueue p pkt w) = client w"
  "state (heap (enqueue p pkt w) q) = state (heap w q)"
  "receivedRoutes (heap (enqueue p pkt w) q) = receivedRoutes (heap w q)"
  "peerIsServer (heap (enqueue p pkt w) q) = peerIsServer (heap w q)"
  "direction (heap (enqueue p pkt w) q) = direction (heap w q)"
  by (simp_all add: enqueue_def)

lemma txMade_enqueue [simp]: "txMade w \<Longrightarrow> txMade (enqueue p pkt w)"
  by (simp add: txMade_def enqueue_def)

lemma txMadeD: "txMade w \<Longrightarrow> txChan (heap w p) \<noteq> None"
  by (simp add: txMade_def)

end
