(* ===== verification/MetalBond.thy ===== *)
theory MetalBond
  imports Peer
begin

text \<open>
  The node (\<open>src/metalbond.go\<close>): its own subscriptions and announcements, the
  distribution of routes to peers, and the handling of routes that a peer announced or
  withdrew. The operations that close or reset a peer are in the theory \<open>Session\<close>.
\<close>

section \<open>The code\<close>

record Config =
  cfgKeepaliveInterval :: "32 word"

definition NewMetalBond :: "Config \<Rightarrow> 'c \<Rightarrow> 'c MetalBond" where
  "NewMetalBond config cl =
     (let ka = (if cfgKeepaliveInterval config = 0 then 5 else cfgKeepaliveInterval config)
      in \<lparr>mbRouteTable = newRouteTable, myAnnouncements = newRouteTable, mySubscriptions = [],
          mtxSubscribers = False, subscribers = [], peers = [], mbKeepalive = ka,
          shuttingDown = False, client = cl, lis = None, mbIsServer = False\<rparr>)"

definition distributeRouteToPeers ::
    "'c env \<Rightarrow> 8 word \<Rightarrow> VNI \<Rightarrow> Destination \<Rightarrow> NextHop \<Rightarrow> peerptr \<Rightarrow> ('c, error option) go" where
  "distributeRouteToPeers E action vni dest hop fromPeer =
     (let upd = \<lparr>updAction = action, updVNI = vni, updDestination = dest, updNextHop = hop\<rparr> in
      andThen rlockSubscribers
      (case fromPeer of
         None \<Rightarrow>
           bind (gets peers) (\<lambda>ps.
           forReturn (map snd ps) (\<lambda>sp. SendUpdate E sp upd))
       | Some from \<Rightarrow>
           bind (gets subscribers) (\<lambda>subs.
           if gget subs vni = None then ret None else
           andThen
             (forEach (gkeys (gsub subs vni)) (\<lambda>p.
                if p = from then ret None else
                bind (gets (\<lambda>w. peerIsServer (heap w from) \<and> peerIsServer (heap w p))) (\<lambda>bothServers.
                if bothServers then ret None else
                SendUpdate E p upd)))
             (ret None))))"

definition mbSubscribe :: "'c env \<Rightarrow> VNI \<Rightarrow> ('c, error option) go" where
  "mbSubscribe E vni =
     bind (gets mySubscriptions) (\<lambda>subs.
     if gget subs vni \<noteq> None then ret (Some (Errorf ''already subscribed to VNI %d'')) else
     andThen (modify (\<lambda>w. w\<lparr>mySubscriptions := gput vni True (mySubscriptions w)\<rparr>))
     (bind (gets peers) (\<lambda>ps.
      forReturn (map snd ps) (\<lambda>p.
        bind (peerSubscribe E p vni) (\<lambda>r. case r of
          Some e \<Rightarrow> ret (Some (Wrapf ''could not subscribe to vni %d: %v'' e))
        | None \<Rightarrow> ret None)))))"

definition IsSubscribed :: "VNI \<Rightarrow> ('c, bool) go" where
  "IsSubscribed vni = gets (\<lambda>w. gget (mySubscriptions w) vni \<noteq> None)"

text \<open>
  The loop of \<open>Unsubscribe\<close> that takes one peer's routes of the VNI out of the table. The
  body removes a hop only if the table has it for this peer; its result is only logged, and
  \<open>Inl\<close> also stands for a hop that was not there.
\<close>

definition removeIfPresent ::
    "VNI \<Rightarrow> Destination \<Rightarrow> NextHop \<Rightarrow> peerptr \<Rightarrow> routeTable \<Rightarrow> (error + nat) \<times> routeTable" where
  "removeIfPresent vni dest nh p t =
     (let (found, t1) = NextHopExists vni dest nh p t
      in if found then RemoveNextHop vni dest nh p t1 else (Inl (Errorf []), t1))"

definition dropFromTable :: "VNI \<Rightarrow> peerptr \<Rightarrow> routeTable \<Rightarrow> routeTable" where
  "dropFromTable vni p rt =
     fold (\<lambda>(dest, nhs) t. fold (\<lambda>nh t. snd (removeIfPresent vni dest nh p t)) nhs t)
       (GetDestinationsByVNI rt vni) rt"

definition mbUnsubscribe :: "'c env \<Rightarrow> VNI \<Rightarrow> ('c, error option) go" where
  "mbUnsubscribe E vni =
     bind (gets mySubscriptions) (\<lambda>subs.
     if gget subs vni = None then ret (Some (Errorf ''already unsubscribed from VNI %d'')) else
     bind (gets peers) (\<lambda>ps.
     andThen
       (forEach (map snd ps) (\<lambda>p.
          andThen (peerUnsubscribe E p vni)
          (onRouteTable (\<lambda>t. ((), dropFromTable vni (Some p) t)))))
     (andThen (modify (\<lambda>w. w\<lparr>mySubscriptions := gdel vni (mySubscriptions w)\<rparr>))
     (ret None))))"

definition IsRouteAnnounced :: "VNI \<Rightarrow> Destination \<Rightarrow> NextHop \<Rightarrow> ('c, bool) go" where
  "IsRouteAnnounced vni dest hop = onAnnouncements (NextHopExists vni dest hop None)"

definition AnnounceRoute :: "'c env \<Rightarrow> VNI \<Rightarrow> Destination \<Rightarrow> NextHop \<Rightarrow> ('c, error option) go" where
  "AnnounceRoute E vni dest hop =
     bind (onAnnouncements (AddNextHop vni dest hop None)) (\<lambda>r. case r of
       Some e \<Rightarrow> ret (Some (Wrapf ''cannot announce route: %v'' e))
     | None \<Rightarrow>
         bind (distributeRouteToPeers E ADD vni dest hop None) (\<lambda>r. case r of
           Some e \<Rightarrow> ret (Some (Wrapf ''could not distribute route to peers: %v'' e))
         | None \<Rightarrow> ret None))"

definition WithdrawRoute :: "'c env \<Rightarrow> VNI \<Rightarrow> Destination \<Rightarrow> NextHop \<Rightarrow> ('c, error option) go" where
  "WithdrawRoute E vni dest hop =
     bind (onAnnouncements (RemoveNextHop vni dest hop None)) (\<lambda>r. case r of
       Inl e \<Rightarrow> ret (Some (Wrapf ''cannot remove route from the local announcement route table: %v'' e))
     | Inr remaining \<Rightarrow>
         if remaining = 0 then
           bind (distributeRouteToPeers E REMOVE vni dest hop None) (\<lambda>r. case r of
             Some e \<Rightarrow> ret (Some (Wrapf ''failed to withdraw a route, for the reason: %v'' e))
           | None \<Rightarrow> ret None)
         else ret None)"

text \<open>The two loops of \<open>AddRoutesForVni\<close>, over the received and over the announced routes.\<close>

definition readdRoutes ::
    "'c env \<Rightarrow> VNI \<Rightarrow> (Destination, NextHop list) gomap \<Rightarrow> ('c, error option) go" where
  "readdRoutes E vni ds =
     forReturn ds (\<lambda>(dest, hops).
     forReturn hops (\<lambda>hop. onClient (AddRoute (ops E) vni dest hop)))"

definition AddRoutesForVni :: "'c env \<Rightarrow> VNI \<Rightarrow> ('c, error option) go" where
  "AddRoutesForVni E vni =
     bind (gets (\<lambda>w. GetDestinationsByVNI (mbRouteTable w) vni)) (\<lambda>ds.
     bind (readdRoutes E vni ds) (\<lambda>r. case r of
       Some e \<Rightarrow> ret (Some e)
     | None \<Rightarrow>
         bind (gets (\<lambda>w. GetDestinationsByVNI (myAnnouncements w) vni)) (readdRoutes E vni)))"

definition GetSubscribedVnis :: "('c, VNI list) go" where
  "GetSubscribedVnis = gets (\<lambda>w. gkeys (mySubscriptions w))"

definition GetNextHopByVniAndDestination :: "VNI \<Rightarrow> Destination \<Rightarrow> ('c, NextHop list) go" where
  "GetNextHopByVniAndDestination vni dest =
     gets (\<lambda>w. GetNextHopsByDestination (mbRouteTable w) vni dest)"

definition addReceivedRoute ::
    "'c env \<Rightarrow> nat \<Rightarrow> VNI \<Rightarrow> Destination \<Rightarrow> NextHop \<Rightarrow> ('c, error option) go" where
  "addReceivedRoute E fromPeer vni dest hop =
     bind (gets (\<lambda>w. length (GetNextHopsByDestination (myAnnouncements w) vni dest))) (\<lambda>mine.
     if nhType hop = NextHopType_STANDARD \<and> mine > 0 then ret None else
     bind (onRouteTable (AddNextHop vni dest hop (Some fromPeer))) (\<lambda>r. case r of
       Some e \<Rightarrow> ret (Some (Wrapf ''cannot add route to route table: %v'' e))
     | None \<Rightarrow>
         andThen (distributeRouteToPeers E ADD vni dest hop (Some fromPeer))
         (andThen (onClient (AddRoute (ops E) vni dest hop))
         (ret None))))"

definition removeReceivedRoute ::
    "'c env \<Rightarrow> nat \<Rightarrow> VNI \<Rightarrow> Destination \<Rightarrow> NextHop \<Rightarrow> ('c, error option) go" where
  "removeReceivedRoute E fromPeer vni dest hop =
     bind (onRouteTable (RemoveNextHop vni dest hop (Some fromPeer))) (\<lambda>r. case r of
       Inl e \<Rightarrow> ret (Some (Wrapf ''cannot remove route from route table: %v'' e))
     | Inr remaining \<Rightarrow>
         andThen
           (if remaining = 0 then distributeRouteToPeers E REMOVE vni dest hop (Some fromPeer)
            else ret None)
         (andThen (onClient (RemoveRoute (ops E) vni dest hop))
         (ret None)))"

definition removeSubscriber :: "'c env \<Rightarrow> nat \<Rightarrow> VNI \<Rightarrow> ('c, error option) go" where
  "removeSubscriber E peer vni =
     andThen rlockSubscribers
     (bind (gets subscribers) (\<lambda>subs.
      if gget subs vni = None then ret (Some (Errorf ''peer is not subscribed'')) else
      if gget (gsub subs vni) peer = None then ret (Some (Errorf ''peer is not subscribed'')) else
      bind (gets (\<lambda>w. GetDestinationsByVNI (receivedRoutes (heap w peer)) vni)) (\<lambda>ds.
      andThen
        (forEach ds (\<lambda>(dest, nhs).
         forEach nhs (\<lambda>nh.
           andThen (onReceived peer (RemoveNextHop vni dest nh (Some peer)))
           (removeReceivedRoute E peer vni dest nh))))
      (andThen lockSubscribers
      (andThen (modify (\<lambda>w. w\<lparr>subscribers := gput vni (gdel peer (gsub (subscribers w) vni)) (subscribers w)\<rparr>))
      (andThen unlockSubscribers
      (ret None)))))))"

section \<open>The guarded removal is a removal\<close>

lemma removeIfPresent_eq:
  "removeIfPresent v d h p t =
     (if rt_has t v d h p then RemoveNextHop v d h p (makePath v d h t)
      else (Inl (Errorf []), makePath v d h t))"
  by (simp add: removeIfPresent_def NextHopExists_eq)

lemma rt_rel_removeIfPresent:
  "rt_rel (snd (removeIfPresent v d h p t)) = rt_rel t - {(v, d, h, p)}"
  by (auto simp: removeIfPresent_eq rt_rel_RemoveNextHop)

lemma removeIfPresent_left:
  "rt_ok t \<Longrightarrow> rt_has t v d h p \<Longrightarrow>
     fst (removeIfPresent v d h p t) = Inr (card {q. rt_has t v d h q \<and> q \<noteq> p})"
  by (simp add: removeIfPresent_eq RemoveNextHop_left rt_ok_makePath)

interpretation rtx: route_store rt_rel rt_ok AddNextHop removeIfPresent GetDestinationsByVNI
  by unfold_locales
    (auto simp: route_store_laws rt_rel_removeIfPresent removeIfPresent_left removeIfPresent_eq
      rt_ok_makePath elim: GetDestinationsByVNI_super)

end
