(* ===== verification/Session.thy ===== *)
theory Session
  imports MetalBond "HOL-Library.Signed_Division"
begin

text \<open>
  The life of a connection (\<open>src/peer.go\<close>, and the operations of \<open>src/metalbond.go\<close> that
  open and close peers): the connection state and what its changes trigger, the handlers
  of received messages, closing, resetting, and the bodies of the four goroutines of a
  peer. Each body is one function per loop iteration: what the environment contributes (a
  dial result, a read result, which channel the \<open>select\<close> takes) is an argument.
\<close>

section \<open>Connection state\<close>

definition announceTo :: "'c env \<Rightarrow> nat \<Rightarrow> ('c, unit) go" where
  "announceTo E p =
     bind (gets (\<lambda>w. GetVNIs (myAnnouncements w))) (\<lambda>vnis.
     forEach vnis (\<lambda>vni.
     bind (gets (\<lambda>w. GetDestinationsByVNI (myAnnouncements w) vni)) (\<lambda>ds.
     forEach ds (\<lambda>(dest, hops).
     forEach hops (\<lambda>hop.
       SendUpdate E p \<lparr>updAction = ADD, updVNI = vni, updDestination = dest, updNextHop = hop\<rparr>)))))"

definition setState :: "'c env \<Rightarrow> nat \<Rightarrow> ConnectionState \<Rightarrow> ('c, unit) go" where
  "setState E p newState =
     bind (gets (\<lambda>w. state (heap w p))) (\<lambda>oldState.
     andThen (setPeer p (\<lambda>x. x\<lparr>state := newState\<rparr>))
     (andThen
       (if oldState \<noteq> newState \<and> newState = ESTABLISHED then
          bind (gets (\<lambda>w. gkeys (mySubscriptions w))) (\<lambda>subs.
          andThen (forEach subs (\<lambda>sub. peerSubscribe E p sub))
          (announceTo E p))
        else ret ())
     (if oldState \<noteq> newState \<and> newState \<noteq> ESTABLISHED then
        andThen rlockSubscribers
        (bind (gets (\<lambda>w. filter (\<lambda>vni. p \<in> set (gkeys (gsub (subscribers w) vni))) (gkeys (subscribers w)))) (\<lambda>vnis.
         forEach vnis (\<lambda>vni. removeSubscriber E p vni)))
      else ret ())))"

section \<open>Closing and resetting\<close>

definition Close :: "'c env \<Rightarrow> nat \<Rightarrow> ('c, unit) go" where
  "Close E p =
     bind (GetState p) (\<lambda>st.
     if st \<noteq> CLOSED then
       andThen (setState E p CLOSED)
       (andThen (signal txChanClose txChanClose_update p)
       (andThen (signal shutdown shutdown_update p)
       (signal keepaliveStop keepaliveStop_update p)))
     else ret ())"

definition unsafeRemovePeer :: "'c env \<Rightarrow> string \<Rightarrow> ('c, unit) go" where
  "unsafeRemovePeer E addr =
     bind (gets (\<lambda>w. gget (peers w) addr)) (\<lambda>r. case r of
       None \<Rightarrow> ret ()
     | Some p \<Rightarrow> andThen (Close E p) (modify (\<lambda>w. w\<lparr>peers := gdel addr (peers w)\<rparr>)))"

definition RemovePeer :: "'c env \<Rightarrow> string \<Rightarrow> ('c, error option) go" where
  "RemovePeer E addr = andThen (unsafeRemovePeer E addr) (ret None)"

text \<open>
  \<open>Reset\<close> of an outgoing connection up to \<open>wg.Wait()\<close>, the wait, and the rest. When the
  caller is itself one of the goroutines the group counts, the wait never ends.
\<close>

definition resetBegin :: "'c env \<Rightarrow> nat \<Rightarrow> ('c, unit) go" where
  "resetBegin E p =
     andThen (setState E p RETRY)
     (andThen (signal txChanClose txChanClose_update p)
     (andThen (signal shutdown shutdown_update p)
     (signal keepaliveStop keepaliveStop_update p)))"

definition wgWait :: "nat \<Rightarrow> ('c, unit) go" where
  "wgWait p = (\<lambda>w. if wg (heap w p) = 0 then (Returns (), w) else (Blocks, w))"

definition resetFinish :: "'c env \<Rightarrow> nat \<Rightarrow> ('c, unit) go" where
  "resetFinish E p =
     andThen (setPeer p (\<lambda>x. x\<lparr>conn := None\<rparr>))
     (andThen (setLocalAddr p [])
     (andThen (setState E p CONNECTING)
     (goStart (GoHandle p))))"

definition Reset :: "'c env \<Rightarrow> nat \<Rightarrow> ('c, unit) go" where
  "Reset E p =
     bind (GetState p) (\<lambda>st.
     if st = CLOSED then ret () else
     bind (gets (\<lambda>w. heap w p)) (\<lambda>x. case direction x of
       INCOMING \<Rightarrow> andThen (Close E p) (andThen (RemovePeer E (remoteAddr x)) (ret ()))
     | OUTGOING \<Rightarrow> andThen (resetBegin E p) (andThen (wgWait p) (resetFinish E p))))"

section \<open>Subscribers\<close>

definition addSubscriber :: "'c env \<Rightarrow> nat \<Rightarrow> VNI \<Rightarrow> ('c, error option) go" where
  "addSubscriber E peer vni =
     andThen lockSubscribers
     (andThen (modify (\<lambda>w. w\<lparr>subscribers := gensure vni (subscribers w)\<rparr>))
     (bind (gets (\<lambda>w. gget (gsub (subscribers w) vni) peer)) (\<lambda>r.
      if r \<noteq> None then ret (Some (Errorf ''peer is already subscribed'')) else
      andThen (modify (\<lambda>w. w\<lparr>subscribers := gput vni (gput peer True (gsub (subscribers w) vni)) (subscribers w)\<rparr>))
      (andThen unlockSubscribers
      (bind (gets (\<lambda>w. GetDestinationsByVNIWithPeer (mbRouteTable w) vni)) (\<lambda>ds.
       andThen
         (forEach ds (\<lambda>(dest, hopToPeersMap).
          forEach hopToPeersMap (\<lambda>(hop, ps).
          forEach ps (\<lambda>peerFromList.
            if peerFromList = Some peer \<and> nhType hop = NextHopType_NAT then ret () else
            bind (SendUpdate E peer
              \<lparr>updAction = ADD, updVNI = vni, updDestination = dest, updNextHop = hop\<rparr>) (\<lambda>r.
            case r of None \<Rightarrow> ret () | Some e \<Rightarrow> Reset E peer)))))
       (ret None)))))))"

section \<open>Handlers of received messages\<close>

text \<open>
  Every \<open>time.Duration\<close> is an \<open>int64\<close> of nanoseconds: multiplication wraps and division
  truncates towards zero.
\<close>

definition keepaliveTimeout :: "32 word \<Rightarrow> int" where
  "keepaliveTimeout ka = sint (ucast ka * 1000000000 * 5 :: 64 word) sdiv 2"

definition keepaliveTick :: "32 word \<Rightarrow> int" where
  "keepaliveTick ka = sint (ucast ka * 1000000000 :: 64 word)"

definition resetKeepaliveTimeout :: "nat \<Rightarrow> ('c, unit) go" where
  "resetKeepaliveTimeout p =
     bind (gets (\<lambda>w. heap w p)) (\<lambda>x.
     if keepaliveTimer x \<noteq> None
     then setPeer p (\<lambda>x. x\<lparr>keepaliveTimer := Some (keepaliveTimeout (peerKeepalive x))\<rparr>)
     else ret ())"

definition processRxHello :: "'c env \<Rightarrow> nat \<Rightarrow> msgHello \<Rightarrow> ('c, unit) go" where
  "processRxHello E p msg =
     andThen (if helloKeepaliveInterval msg < 1 then Reset E p else ret ())
     (andThen (setPeer p (\<lambda>x. x\<lparr>peerIsServer := helloIsServer msg\<rparr>))
     (andThen (setPeer p (\<lambda>x. x\<lparr>peerKeepalive :=
         (if helloKeepaliveInterval msg < peerKeepalive x then helloKeepaliveInterval msg
          else peerKeepalive x)\<rparr>))
     (andThen (setState E p HELLO_RECEIVED)
     (andThen (goStart (GoKeepaliveLoop p))
     (bind (gets (\<lambda>w. heap w p)) (\<lambda>x.
      if direction x = INCOMING then
        bind (gets mbIsServer) (\<lambda>srv.
        andThen (sendMessage E p (MsgHello
          \<lparr>helloKeepaliveInterval = peerKeepalive x, helloIsServer = srv\<rparr>))
        (setState E p HELLO_SENT))
      else ret ()))))))"

definition processRxKeepalive :: "'c env \<Rightarrow> nat \<Rightarrow> ('c, unit) go" where
  "processRxKeepalive E p =
     bind (gets (\<lambda>w. heap w p)) (\<lambda>x.
     let alive =
       andThen (resetKeepaliveTimeout p)
       (if direction x = INCOMING then andThen (sendMessage E p MsgKeepalive) (ret ())
        else ret ())
     in
     if direction x = INCOMING \<and> state x = HELLO_SENT then
       andThen (setState E p ESTABLISHED) alive
     else if direction x = OUTGOING \<and> state x = HELLO_RECEIVED then
       andThen (setState E p ESTABLISHED) alive
     else if state x = ESTABLISHED then alive
     else goStart (GoReset p))"

definition processRxSubscribe :: "'c env \<Rightarrow> nat \<Rightarrow> msgSubscribe \<Rightarrow> ('c, unit) go" where
  "processRxSubscribe E p msg =
     andThen (setPeer p (\<lambda>x. x\<lparr>subscribedVNIs := gput (subscribeVNI msg) True (subscribedVNIs x)\<rparr>))
     (andThen (addSubscriber E p (subscribeVNI msg)) (ret ()))"

definition processRxUnsubscribe :: "'c env \<Rightarrow> nat \<Rightarrow> msgUnsubscribe \<Rightarrow> ('c, unit) go" where
  "processRxUnsubscribe E p msg =
     andThen (removeSubscriber E p (unsubscribeVNI msg))
     (setPeer p (\<lambda>x. x\<lparr>subscribedVNIs := gdel (unsubscribeVNI msg) (subscribedVNIs x)\<rparr>))"

definition processRxUpdate :: "'c env \<Rightarrow> nat \<Rightarrow> msgUpdate \<Rightarrow> ('c, unit) go" where
  "processRxUpdate E p msg =
     (let v = updVNI msg; d = updDestination msg; h = updNextHop msg in
      if updAction msg = ADD then
        bind (onReceived p (AddNextHop v d h (Some p))) (\<lambda>r. case r of
          Some e \<Rightarrow> ret ()
        | None \<Rightarrow> andThen (addReceivedRoute E p v d h) (ret ()))
      else if updAction msg = REMOVE then
        bind (onReceived p (RemoveNextHop v d h (Some p))) (\<lambda>r. case r of
          Inl e \<Rightarrow> ret ()
        | Inr _ \<Rightarrow> andThen (removeReceivedRoute E p v d h) (ret ()))
      else ret ())"

section \<open>Cleaning up\<close>

text \<open>\<open>Some ()\<close> is the early return on a route that is missing from the peer's own table.\<close>

definition cleanup :: "'c env \<Rightarrow> nat \<Rightarrow> ('c, unit) go" where
  "cleanup E p =
     bind (gets (\<lambda>w. gkeys (subscribedVNIs (heap w p)))) (\<lambda>subs.
     andThen (forEach subs (\<lambda>vni. mbUnsubscribe E vni))
     (bind (gets (\<lambda>w. GetVNIs (receivedRoutes (heap w p)))) (\<lambda>vnis.
      andThen
        (forReturn vnis (\<lambda>vni.
         bind (gets (\<lambda>w. GetDestinationsByVNI (receivedRoutes (heap w p)) vni)) (\<lambda>ds.
         forReturn ds (\<lambda>(dest, nhs).
         forReturn nhs (\<lambda>nh.
           bind (onReceived p (RemoveNextHop vni dest nh (Some p))) (\<lambda>r. case r of
             Inl e \<Rightarrow> ret (Some ())
           | Inr _ \<Rightarrow> andThen (removeReceivedRoute E p vni dest nh) (ret None)))))))
      (ret ()))))"

section \<open>Peers of the node\<close>

definition AddPeer ::
    "string \<Rightarrow> string \<Rightarrow> string \<Rightarrow> int \<Rightarrow> int \<Rightarrow> int \<Rightarrow> ('c, error option) go" where
  "AddPeer uuid addr ip txCap rxEventCap rxDataCap =
     bind (gets (\<lambda>w. gget (peers w) addr)) (\<lambda>r.
     if r \<noteq> None then ret (Some (Errorf ''peer already registered'')) else
     bind (gets mbKeepalive) (\<lambda>ka.
     bind (newMetalBondPeer None uuid addr ip txCap rxEventCap rxDataCap ka OUTGOING) (\<lambda>p.
     andThen (modify (\<lambda>w. w\<lparr>peers := gput addr p (peers w)\<rparr>))
     (ret None))))"

definition PeerState :: "string \<Rightarrow> ('c, ConnectionState \<times> error option) go" where
  "PeerState addr =
     bind (gets (\<lambda>w. gget (peers w) addr)) (\<lambda>r. case r of
       Some p \<Rightarrow> bind (GetState p) (\<lambda>st. ret (st, None))
     | None \<Rightarrow> ret (CLOSED, Some (Errorf ''peer %s does not exist'')))"

text \<open>One round of the accept loop of \<open>StartServer\<close>; \<open>None\<close> is an error of \<open>Accept\<close>.\<close>

definition acceptOnce ::
    "(nat \<times> string) option \<Rightarrow> string \<Rightarrow> int \<Rightarrow> int \<Rightarrow> int \<Rightarrow> ('c, bool) go" where
  "acceptOnce r uuid txCap rxEventCap rxDataCap =
     bind (gets shuttingDown) (\<lambda>down.
     if down then ret False else case r of
       None \<Rightarrow> ret False
     | Some (c, addr) \<Rightarrow>
         bind (gets mbKeepalive) (\<lambda>ka.
         bind (newMetalBondPeer (Some c) uuid addr [] txCap rxEventCap rxDataCap ka INCOMING) (\<lambda>p.
         andThen (modify (\<lambda>w. w\<lparr>peers := gput addr p (peers w)\<rparr>))
         (ret True))))"

text \<open>
  \<open>listening\<close> says whether \<open>net.Listen\<close> succeeded. \<open>m.lis\<close> is set in both cases: \<open>Some False\<close>
  is a pointer to the nil listener of a failed call.
\<close>

definition StartServer :: "bool \<Rightarrow> ('c, error option) go" where
  "StartServer listening =
     andThen (modify (\<lambda>w. w\<lparr>lis := Some listening\<rparr>))
     (if \<not> listening then ret (Some (Errorf ''cannot open TCP port: %v'')) else
      andThen (modify (\<lambda>w. w\<lparr>mbIsServer := True\<rparr>)) (ret None))"

text \<open>
  \<open>Shutdown\<close>: closing the listener that \<open>Listen\<close> failed to make is a call through a nil
  interface.
\<close>

definition Shutdown :: "'c env \<Rightarrow> ('c, unit) go" where
  "Shutdown E =
     andThen (modify (\<lambda>w. w\<lparr>shuttingDown := True\<rparr>))
     (bind (gets lis) (\<lambda>l.
      if l = Some False then panic else
      bind (gets (\<lambda>w. gkeys (peers w))) (\<lambda>addrs.
      forEach addrs (unsafeRemovePeer E))))"

section \<open>The goroutines of a peer\<close>

definition wgAdd :: "nat \<Rightarrow> ('c, unit) go" where
  "wgAdd p = setPeer p (\<lambda>x. x\<lparr>wg := Suc (wg x)\<rparr>)"

definition wgDone :: "nat \<Rightarrow> ('c, unit) go" where
  "wgDone p = setPeer p (\<lambda>x. x\<lparr>wg := wg x - 1\<rparr>)"

text \<open>
  \<open>handle\<close>: its head, one round of the dialling loop, the start of the other goroutines. \<open>make\<close>
  of a channel panics on a negative capacity.
\<close>

definition handleInit :: "nat \<Rightarrow> ('c, unit) go" where
  "handleInit p =
     andThen (wgAdd p)
     (bind (gets (\<lambda>w. heap w p)) (\<lambda>x.
      if txChanCapacity x < 0 \<or> rxChanEventCapacity x < 0 \<or> rxChanDataUpdateCapacity x < 0 then panic else
      setPeer p (\<lambda>x. x\<lparr>txChan := Some [], shutdown := Some 0, keepaliveStop := Some 0,
        txChanClose := Some 0, rxHello := Some [], rxKeepalive := Some 0, rxSubscribe := Some [],
        rxUnsubscribe := Some [], rxUpdate := Some []\<rparr>)))"

datatype dialResult = ResolveFailed | DialFailed | Dialled nat string

datatype dialNext = HandleReturned | DialAgain | DialDone

definition handleDial :: "'c env \<Rightarrow> nat \<Rightarrow> dialResult \<Rightarrow> ('c, dialNext) go" where
  "handleDial E p r =
     bind (gets (\<lambda>w. heap w p)) (\<lambda>x.
     if conn x \<noteq> None then ret DialDone else
     if (case shutdown x of Some (Suc _) \<Rightarrow> True | _ \<Rightarrow> False) then
       andThen (setPeer p (shutdown_update (map_option (\<lambda>n. n - 1))))
       (andThen (cleanup E p) (andThen (wgDone p) (ret HandleReturned)))
     else case r of
       ResolveFailed \<Rightarrow> andThen (wgDone p) (ret HandleReturned)
     | DialFailed \<Rightarrow> ret DialAgain
     | Dialled c addr \<Rightarrow>
         andThen (setLocalAddr p addr)
         (andThen (setPeer p (\<lambda>x. x\<lparr>conn := Some c\<rparr>)) (ret DialDone)))"

definition handleConnected :: "'c env \<Rightarrow> nat \<Rightarrow> ('c, unit) go" where
  "handleConnected E p =
     andThen (goStart (GoRxLoop p))
     (andThen (goStart (GoTxLoop p))
     (bind (gets (\<lambda>w. heap w p)) (\<lambda>x.
      if direction x = OUTGOING then
        andThen (sendMessage E p (MsgHello
          \<lparr>helloKeepaliveInterval = peerKeepalive x, helloIsServer = False\<rparr>))
        (setState E p HELLO_SENT)
      else ret ())))"

datatype handleCase = OnHello | OnKeepalive | OnSubscribe | OnUnsubscribe | OnUpdate | OnShutdown

text \<open>
  One round of the \<open>select\<close> of \<open>handle\<close>, given the case it takes. \<open>None\<close>: that channel has
  nothing to receive, so the case cannot be taken; \<open>Some b\<close>: it was taken, and \<open>b\<close> says
  whether the loop goes on.
\<close>

definition handleSelect :: "'c env \<Rightarrow> nat \<Rightarrow> handleCase \<Rightarrow> ('c, bool option) go" where
  "handleSelect E p c =
     bind (gets (\<lambda>w. heap w p)) (\<lambda>x.
     case c of
       OnHello \<Rightarrow> (case rxHello x of
         Some (m # ms) \<Rightarrow> andThen (setPeer p (rxHello_update (\<lambda>_. Some ms)))
           (andThen (processRxHello E p m) (ret (Some True)))
       | _ \<Rightarrow> ret None)
     | OnKeepalive \<Rightarrow> (case rxKeepalive x of
         Some (Suc n) \<Rightarrow> andThen (setPeer p (rxKeepalive_update (\<lambda>_. Some n)))
           (andThen (processRxKeepalive E p) (ret (Some True)))
       | _ \<Rightarrow> ret None)
     | OnSubscribe \<Rightarrow> (case rxSubscribe x of
         Some (m # ms) \<Rightarrow> andThen (setPeer p (rxSubscribe_update (\<lambda>_. Some ms)))
           (andThen (processRxSubscribe E p m) (ret (Some True)))
       | _ \<Rightarrow> ret None)
     | OnUnsubscribe \<Rightarrow> (case rxUnsubscribe x of
         Some (m # ms) \<Rightarrow> andThen (setPeer p (rxUnsubscribe_update (\<lambda>_. Some ms)))
           (andThen (processRxUnsubscribe E p m) (ret (Some True)))
       | _ \<Rightarrow> ret None)
     | OnUpdate \<Rightarrow> (case rxUpdate x of
         Some (m # ms) \<Rightarrow> andThen (setPeer p (rxUpdate_update (\<lambda>_. Some ms)))
           (andThen (processRxUpdate E p m) (ret (Some True)))
       | _ \<Rightarrow> ret None)
     | OnShutdown \<Rightarrow> (case shutdown x of
         Some (Suc n) \<Rightarrow> andThen (setPeer p (shutdown_update (\<lambda>_. Some n)))
           (andThen (cleanup E p) (andThen (wgDone p) (ret (Some False))))
       | _ \<Rightarrow> ret None))"

text \<open>\<open>rxLoop\<close> hands each message to the channel of its type.\<close>

definition deliver :: "nat \<Rightarrow> message \<Rightarrow> ('c, unit) go" where
  "deliver p msg =
     bind (gets (\<lambda>w. heap w p)) (\<lambda>x. case msg of
       MsgHello m \<Rightarrow> (case rxHello x of None \<Rightarrow> block
         | Some q \<Rightarrow> setPeer p (rxHello_update (\<lambda>_. Some (q @ [m]))))
     | MsgKeepalive \<Rightarrow> (case rxKeepalive x of None \<Rightarrow> block
         | Some n \<Rightarrow> setPeer p (rxKeepalive_update (\<lambda>_. Some (Suc n))))
     | MsgSubscribe m \<Rightarrow> (case rxSubscribe x of None \<Rightarrow> block
         | Some q \<Rightarrow> setPeer p (rxSubscribe_update (\<lambda>_. Some (q @ [m]))))
     | MsgUnsubscribe m \<Rightarrow> (case rxUnsubscribe x of None \<Rightarrow> block
         | Some q \<Rightarrow> setPeer p (rxUnsubscribe_update (\<lambda>_. Some (q @ [m]))))
     | MsgUpdate m \<Rightarrow> (case rxUpdate x of None \<Rightarrow> block
         | Some q \<Rightarrow> setPeer p (rxUpdate_update (\<lambda>_. Some (q @ [m])))))"

text \<open>One round of \<open>rxLoop\<close>: the buffer of the next round, or \<open>None\<close> when it returned.\<close>

definition rxLoopOnce :: "'c env \<Rightarrow> nat \<Rightarrow> byte list \<Rightarrow> readResult \<Rightarrow> ('c, byte list option) go" where
  "rxLoopOnce E p buf r =
     bind (GetState p) (\<lambda>st.
     case rxIteration (cdc E) st buf r of ((ms, e), buf') \<Rightarrow>
       andThen (forEach ms (deliver p))
       (case e of
          RxContinue \<Rightarrow> ret (Some buf')
        | RxReset \<Rightarrow> andThen (goStart (GoReset p)) (andThen (wgDone p) (ret None))
        | RxReturn \<Rightarrow> andThen (wgDone p) (ret None)
        | RxPanic \<Rightarrow> panic))"

text \<open>
  One round of \<open>txLoop\<close>. It takes a packet (\<open>Some b\<close>: whether the write went through) or the
  close signal (\<open>None\<close>); the result is the packet written, and whether the loop goes on.
\<close>

definition txLoopOnce :: "nat \<Rightarrow> bool option \<Rightarrow> ('c, (byte list option \<times> bool) option) go" where
  "txLoopOnce p c =
     bind (gets (\<lambda>w. heap w p)) (\<lambda>x. case c of
       Some written \<Rightarrow> (case txChan x of
         Some (msg # q) \<Rightarrow> andThen (setPeer p (txChan_update (\<lambda>_. Some q)))
           (andThen (if \<not> written then goStart (GoReset p) else ret ())
           (ret (Some (Some msg, True))))
       | _ \<Rightarrow> ret None)
     | None \<Rightarrow> (case txChanClose x of
         Some (Suc n) \<Rightarrow> andThen (setPeer p (txChanClose_update (\<lambda>_. Some n)))
           (andThen (wgDone p) (ret (Some (None, False))))
       | _ \<Rightarrow> ret None))"

text \<open>\<open>keepaliveLoop\<close>: its head, and one round. \<open>time.NewTicker\<close> panics unless its interval is
  positive.\<close>

definition keepaliveInit :: "'c env \<Rightarrow> nat \<Rightarrow> ('c, unit) go" where
  "keepaliveInit E p =
     andThen (wgAdd p)
     (andThen (setPeer p (\<lambda>x. x\<lparr>keepaliveTimer := Some (keepaliveTimeout (peerKeepalive x))\<rparr>))
     (bind (gets (\<lambda>w. heap w p)) (\<lambda>x.
      if keepaliveTick (peerKeepalive x) \<le> 0 then panic else
      if direction x = OUTGOING then andThen (sendMessage E p MsgKeepalive) (ret ())
      else ret ())))"

datatype keepaliveCase = OnTick | OnTimeout | OnStop

definition keepaliveSelect :: "'c env \<Rightarrow> nat \<Rightarrow> keepaliveCase \<Rightarrow> ('c, bool option) go" where
  "keepaliveSelect E p c =
     bind (gets (\<lambda>w. heap w p)) (\<lambda>x. case c of
       OnTick \<Rightarrow>
         andThen (if direction x = OUTGOING then andThen (sendMessage E p MsgKeepalive) (ret ())
           else ret ())
         (ret (Some True))
     | OnTimeout \<Rightarrow> andThen (goStart (GoReset p)) (ret (Some True))
     | OnStop \<Rightarrow> (case keepaliveStop x of
         Some (Suc n) \<Rightarrow> andThen (setPeer p (keepaliveStop_update (\<lambda>_. Some n)))
           (andThen (wgDone p) (ret (Some False)))
       | _ \<Rightarrow> ret None))"

end
