(* ===== verification/Invariant.thy ===== *)
theory Invariant
  imports Session
begin

text \<open>
  The invariant of a node and that every operation keeps it: the lists that stand for maps
  have distinct keys, announcements have no origin peer, a peer's own table holds only its
  own routes and no empty maps, every route of the node's table is also in the table of
  the peer it came from, and a peer that has not run the head of \<open>handle\<close> has received
  nothing and subscribed to nothing.
\<close>

section \<open>The invariant\<close>

definition peer_ok :: "nat \<Rightarrow> metalBondPeer \<Rightarrow> bool" where
  "peer_ok p x \<longleftrightarrow> rt_ok (receivedRoutes x) \<and> rt_pruned (receivedRoutes x) \<and>
     gok (subscribedVNIs x) \<and>
     (\<forall>v d h q. rt_has (receivedRoutes x) v d h q \<longrightarrow> q = Some p) \<and>
     (txChan x = None \<longrightarrow> rt_rel (receivedRoutes x) = {} \<and> rxUpdate x = None \<and> rxSubscribe x = None)"

definition maps_ok :: "'c world \<Rightarrow> bool" where
  "maps_ok w \<longleftrightarrow> rt_ok (mbRouteTable w) \<and> rt_ok (myAnnouncements w) \<and> gok (mySubscriptions w) \<and>
     gok (subscribers w) \<and> gall gok (subscribers w) \<and> gok (peers w) \<and>
     (\<forall>v d h q. rt_has (myAnnouncements w) v d h q \<longrightarrow> q = None)"

definition table_ok :: "'c world \<Rightarrow> bool" where
  "table_ok w \<longleftrightarrow> (\<forall>v d h. \<not> rt_has (mbRouteTable w) v d h None) \<and>
     (\<forall>v d h p. rt_has (mbRouteTable w) v d h (Some p) \<longrightarrow>
        rt_has (receivedRoutes (heap w p)) v d h (Some p))"

definition refs_ok :: "'c world \<Rightarrow> bool" where
  "refs_ok w \<longleftrightarrow> (\<forall>p \<ge> nextRef w. txChan (heap w p) = None) \<and>
     (\<forall>v p. gget (gsub (subscribers w) v) p \<noteq> None \<longrightarrow> txChan (heap w p) \<noteq> None)"

definition node_ok :: "'c world \<Rightarrow> bool" where
  "node_ok w \<longleftrightarrow> maps_ok w \<and> (\<forall>p. peer_ok p (heap w p)) \<and> table_ok w \<and> refs_ok w"

text \<open>The node is fine and the goroutines of the peers \<open>Q\<close> have made their channels.\<close>

definition ok_at :: "nat set \<Rightarrow> 'c world \<Rightarrow> bool" where
  "ok_at Q w \<longleftrightarrow> node_ok w \<and> (\<forall>q. q \<in> Q \<longrightarrow> txChan (heap w q) \<noteq> None)"

lemma ok_at_empty [simp]: "ok_at {} w \<longleftrightarrow> node_ok w"
  by (simp add: ok_at_def)

lemmas ok_defs = ok_at_def node_ok_def maps_ok_def table_ok_def refs_ok_def

section \<open>The elementary steps\<close>

lemma ok_at_updPeer:
  assumes ok: "ok_at Q w"
    and rr: "receivedRoutes (f (heap w p)) = receivedRoutes (heap w p)"
    and tx: "txChan (f (heap w p)) = None \<longleftrightarrow> txChan (heap w p) = None"
    and "rxUpdate (heap w p) = None \<Longrightarrow> rxUpdate (f (heap w p)) = None"
    and "rxSubscribe (heap w p) = None \<Longrightarrow> rxSubscribe (f (heap w p)) = None"
    and "gok (subscribedVNIs (heap w p)) \<Longrightarrow> gok (subscribedVNIs (f (heap w p)))"
  shows "ok_at Q (updPeer p f w)"
proof -
  have "peer_ok p (heap w p)" using ok by (simp add: ok_at_def node_ok_def)
  then have "peer_ok p (f (heap w p))" using assms by (auto simp: peer_ok_def)
  moreover have "refs_ok (updPeer p f w)"
    using ok tx by (auto simp: ok_at_def node_ok_def refs_ok_def) force+
  ultimately show ?thesis
    using ok rr tx by (auto simp: ok_at_def node_ok_def maps_ok_def table_ok_def)
qed

lemma keeps_setPeer:
  assumes "\<And>x. receivedRoutes (f x) = receivedRoutes x"
    and "\<And>x. txChan (f x) = None \<longleftrightarrow> txChan x = None"
    and "\<And>x. rxUpdate x = None \<Longrightarrow> rxUpdate (f x) = None"
    and "\<And>x. rxSubscribe x = None \<Longrightarrow> rxSubscribe (f x) = None"
    and "\<And>x. gok (subscribedVNIs x) \<Longrightarrow> gok (subscribedVNIs (f x))"
  shows "keeps (ok_at Q) (setPeer p f)"
  unfolding setPeer_def using assms by (intro keeps_modify ok_at_updPeer)

lemma keeps_sendTx [keeps_rules]: "keeps (ok_at Q) (sendTx p pkt)"
  by (rule keepsI) (auto simp: sendTx_def intro!: ok_at_updPeer split: option.splits)

lemma keeps_signal [keeps_rules]:
  "keeps (ok_at Q) (signal txChanClose txChanClose_update p)"
  "keeps (ok_at Q) (signal shutdown shutdown_update p)"
  "keeps (ok_at Q) (signal keepaliveStop keepaliveStop_update p)"
  by (rule keepsI, auto simp: signal_def intro!: ok_at_updPeer split: option.splits)+

lemma keeps_lock [keeps_rules]:
  "keeps (ok_at Q) lockSubscribers"
  "keeps (ok_at Q) unlockSubscribers"
  "keeps (ok_at Q) rlockSubscribers"
  by (auto simp: state_defs keeps_def ok_defs)

lemma keeps_goStart [keeps_rules]: "keeps (ok_at Q) (goStart g)"
  by (simp add: state_defs keeps_def ok_defs)

lemma keeps_onClient [keeps_rules]: "keeps (ok_at Q) (onClient f)"
  by (simp add: state_defs keeps_def ok_defs)

lemma keeps_frame_modify [keeps_rules]:
  "keeps (ok_at Q) (modify (\<lambda>w. w\<lparr>shuttingDown := b\<rparr>))"
  "keeps (ok_at Q) (modify (\<lambda>w. w\<lparr>lis := l\<rparr>))"
  "keeps (ok_at Q) (modify (\<lambda>w. w\<lparr>mbIsServer := b\<rparr>))"
  "keeps (ok_at Q) (modify (\<lambda>w. w\<lparr>peers := gput a p (peers w)\<rparr>))"
  "keeps (ok_at Q) (modify (\<lambda>w. w\<lparr>peers := gdel a (peers w)\<rparr>))"
  "keeps (ok_at Q) (modify (\<lambda>w. w\<lparr>mySubscriptions := gput v True (mySubscriptions w)\<rparr>))"
  "keeps (ok_at Q) (modify (\<lambda>w. w\<lparr>mySubscriptions := gdel v (mySubscriptions w)\<rparr>))"
  by (auto intro!: keeps_modify simp: ok_defs)

lemma keeps_subscribers_drop [keeps_rules]:
  "keeps (ok_at Q) (modify (\<lambda>w. w\<lparr>subscribers := gput v (gdel p (gsub (subscribers w) v)) (subscribers w)\<rparr>))"
proof (rule keeps_modify)
  fix w :: "'c world"
  assume ok: "ok_at Q w"
  then have "gok (gsub (subscribers w) v)"
    by (intro gall_gsub [where P = gok]) (simp_all add: ok_defs)
  with ok show "ok_at Q (w\<lparr>subscribers := gput v (gdel p (gsub (subscribers w) v)) (subscribers w)\<rparr>)"
    by (auto simp: ok_defs split: if_splits)
qed

lemma keeps_subscribers_ensure [keeps_rules]:
  "keeps (ok_at Q) (modify (\<lambda>w. w\<lparr>subscribers := gensure v (subscribers w)\<rparr>))"
proof (rule keeps_modify)
  fix w :: "'c world"
  assume ok: "ok_at Q w"
  then have "gall gok (gensure v (subscribers w))" by (simp add: ok_defs gensure_def)
  with ok show "ok_at Q (w\<lparr>subscribers := gensure v (subscribers w)\<rparr>)"
    by (auto simp: ok_defs)
qed

lemma keeps_subscribers_add [keeps_rules]:
  assumes run: "p \<in> Q"
  shows "keeps (ok_at Q) (modify (\<lambda>w. w\<lparr>subscribers := gput v (gput p True (gsub (subscribers w) v)) (subscribers w)\<rparr>))"
proof (rule keeps_modify)
  fix w :: "'c world"
  assume ok: "ok_at Q w"
  then have "gok (gsub (subscribers w) v)"
    by (intro gall_gsub [where P = gok]) (simp_all add: ok_defs)
  with ok run show "ok_at Q (w\<lparr>subscribers := gput v (gput p True (gsub (subscribers w) v)) (subscribers w)\<rparr>)"
    by (auto simp: ok_defs split: if_splits)
qed

subsection \<open>Steps on the tables\<close>

lemma keeps_onAnnouncements:
  assumes "\<And>t. rt_ok t \<Longrightarrow> rt_ok (snd (f t))"
    and "\<And>t v d h q. rt_has (snd (f t)) v d h q \<Longrightarrow> rt_has t v d h q \<or> q = None"
  shows "keeps (ok_at Q) (onAnnouncements f)"
proof (rule keepsI)
  fix w :: "'c world"
  assume ok: "ok_at Q w"
  with assms have "maps_ok (w\<lparr>myAnnouncements := snd (f (myAnnouncements w))\<rparr>)"
    by (fastforce simp: ok_at_def node_ok_def maps_ok_def)
  with ok show "ok_at Q (snd (onAnnouncements f w))"
    by (simp add: onAnnouncements_def ok_at_def node_ok_def table_ok_def refs_ok_def)
qed

lemma keeps_announce [keeps_rules]:
  "keeps (ok_at Q) (onAnnouncements (AddNextHop v d h None))"
  "keeps (ok_at Q) (onAnnouncements (RemoveNextHop v d h None))"
  "keeps (ok_at Q) (onAnnouncements (NextHopExists v d h None))"
  by (rule keeps_onAnnouncements;
      auto simp: rt_ok_AddNextHop rt_ok_RemoveNextHop rt_has_AddNextHop rt_has_RemoveNextHop
        NextHopExists_eq rt_ok_makePath)+

text \<open>A route enters the node's table only when the peer's own table has it.\<close>

lemma ok_at_add_table:
  assumes "ok_at Q w" "rt_has (receivedRoutes (heap w p)) v d h (Some p)"
  shows "ok_at Q (w\<lparr>mbRouteTable := snd (AddNextHop v d h (Some p) (mbRouteTable w))\<rparr>)"
  using assms by (auto simp: ok_defs rt_ok_AddNextHop rt_has_AddNextHop)

lemma ok_at_remove_table:
  "ok_at Q w \<Longrightarrow> ok_at Q (w\<lparr>mbRouteTable := snd (RemoveNextHop v d h p (mbRouteTable w))\<rparr>)"
  by (auto simp: ok_defs rt_ok_RemoveNextHop rt_has_RemoveNextHop)

lemma ok_at_add_received:
  assumes ok: "ok_at Q w" and run: "txChan (heap w p) \<noteq> None"
  shows "ok_at Q (updPeer p (receivedRoutes_update (\<lambda>t. snd (AddNextHop v d h (Some p) t))) w)"
proof -
  have "peer_ok p (heap w p)" using ok by (simp add: ok_at_def node_ok_def)
  then have "peer_ok p (receivedRoutes_update (\<lambda>t. snd (AddNextHop v d h (Some p) t)) (heap w p))"
    using run by (auto simp: peer_ok_def rt_ok_AddNextHop rt_pruned_AddNextHop rt_has_AddNextHop)
  with ok show ?thesis
    by (auto simp: ok_defs rt_has_AddNextHop)
qed

text \<open>Taking a route out of the peer's table and then out of the node's.\<close>

lemma ok_at_remove_both:
  assumes ok: "ok_at Q w"
  shows "ok_at Q ((updPeer p (receivedRoutes_update (\<lambda>t. snd (RemoveNextHop v d h (Some p) t))) w)
      \<lparr>mbRouteTable := snd (RemoveNextHop v d h (Some p) (mbRouteTable w))\<rparr>)"
proof -
  have "peer_ok p (heap w p)" using ok by (simp add: ok_at_def node_ok_def)
  then have "peer_ok p (receivedRoutes_update (\<lambda>t. snd (RemoveNextHop v d h (Some p) t)) (heap w p))"
    by (auto simp: peer_ok_def rt_ok_RemoveNextHop rt_pruned_RemoveNextHop rt_has_RemoveNextHop
        rt_rel_def)
  with ok show ?thesis
    by (auto simp: ok_defs rt_ok_RemoveNextHop rt_has_RemoveNextHop)
qed

section \<open>Operations of the node\<close>

lemma keeps_GetState [keeps_rules]: "keeps I (GetState p)"
  unfolding GetState_def by (rule keeps_gets)

lemma keeps_sendMessage [keeps_rules]: "keeps (ok_at Q) (sendMessage E p msg)"
  unfolding sendMessage_def by (intro keeps_rules)

lemma keeps_peerSubscribe [keeps_rules]: "keeps (ok_at Q) (peerSubscribe E p v)"
  unfolding peerSubscribe_def by (intro keeps_rules)

lemma keeps_SendUpdate [keeps_rules]: "keeps (ok_at Q) (SendUpdate E p upd)"
  unfolding SendUpdate_def by (intro keeps_rules)

lemma keeps_distribute [keeps_rules]:
  "keeps (ok_at Q) (distributeRouteToPeers E a v d h from)"
  unfolding distributeRouteToPeers_def Let_def by (intro keeps_rules)

lemma keeps_mbSubscribe [keeps_rules]: "keeps (ok_at Q) (mbSubscribe E v)"
  unfolding mbSubscribe_def by (intro keeps_rules)

lemma keeps_IsRouteAnnounced [keeps_rules]: "keeps (ok_at Q) (IsRouteAnnounced v d h)"
  unfolding IsRouteAnnounced_def by (intro keeps_rules)

lemma keeps_AnnounceRoute [keeps_rules]: "keeps (ok_at Q) (AnnounceRoute E v d h)"
  unfolding AnnounceRoute_def by (intro keeps_rules)

lemma keeps_WithdrawRoute [keeps_rules]: "keeps (ok_at Q) (WithdrawRoute E v d h)"
  unfolding WithdrawRoute_def by (intro keeps_rules)

lemma keeps_AddRoutesForVni [keeps_rules]: "keeps (ok_at Q) (AddRoutesForVni E v)"
  unfolding AddRoutesForVni_def readdRoutes_def by (intro keeps_rules)

subsection \<open>Received routes\<close>

lemma keeps_onRouteTable_remove [keeps_rules]:
  "keeps (ok_at Q) (onRouteTable (RemoveNextHop v d h p))"
  by (rule keepsI) (simp add: onRouteTable_def ok_at_remove_table)

lemma keeps_removeReceivedRoute [keeps_rules]: "keeps (ok_at Q) (removeReceivedRoute E p v d h)"
  unfolding removeReceivedRoute_def by (intro keeps_rules)

text \<open>
  What \<open>removeReceivedRoute\<close> does after the table has been changed; the change itself is
  made whatever happens next.
\<close>

lemma removeReceivedRoute_split:
  "removeReceivedRoute E p v d h w =
     (case fst (RemoveNextHop v d h (Some p) (mbRouteTable w)) of
        Inl e \<Rightarrow> ret (Some (Wrapf ''cannot remove route from route table: %v'' e))
      | Inr n \<Rightarrow> andThen
          (if n = 0 then distributeRouteToPeers E REMOVE v d h (Some p) else ret None)
          (andThen (onClient (RemoveRoute (ops E) v d h)) (ret None)))
     (w\<lparr>mbRouteTable := snd (RemoveNextHop v d h (Some p) (mbRouteTable w))\<rparr>)"
  by (simp add: removeReceivedRoute_def onRouteTable_def split: sum.split)

lemma ok_at_dropBoth:
  assumes "ok_at Q w"
  shows "ok_at Q (snd (removeReceivedRoute E p v d h
     (updPeer p (receivedRoutes_update (\<lambda>t. snd (RemoveNextHop v d h (Some p) t))) w)))"
  unfolding removeReceivedRoute_split
  by (rule keepsD [where I = "ok_at Q"])
    (use ok_at_remove_both [OF assms] in \<open>auto intro!: keeps_rules\<close>)

lemma keeps_dropBoth [keeps_rules]:
  "keeps (ok_at Q) (andThen (onReceived p (RemoveNextHop v d h (Some p))) (removeReceivedRoute E p v d h))"
  by (rule keepsI) (simp add: onReceived_def andThen_def bind_def ok_at_dropBoth)

lemma keeps_dropBoth_bind [keeps_rules]:
  fixes E :: "'c env"
  assumes "\<And>e. keeps (ok_at Q) (f e)" and "keeps (ok_at Q) g"
  shows "keeps (ok_at Q) (bind (onReceived p (RemoveNextHop v d h (Some p))) (\<lambda>r. case r of
     Inl e \<Rightarrow> f e
   | Inr _ \<Rightarrow> andThen (removeReceivedRoute E p v d h) g))"
proof (rule keepsI)
  fix w :: "'c world"
  assume ok: "ok_at Q w"
  let ?r = "RemoveNextHop v d h (Some p) (receivedRoutes (heap w p))"
  let ?w = "updPeer p (receivedRoutes_update (\<lambda>t. snd (RemoveNextHop v d h (Some p) t))) w"
  have run: "onReceived p (RemoveNextHop v d h (Some p)) w = (Returns (fst ?r), ?w)"
    by (simp add: onReceived_def)
  show "ok_at Q (snd (bind (onReceived p (RemoveNextHop v d h (Some p))) (\<lambda>r. case r of
     Inl e \<Rightarrow> f e | Inr _ \<Rightarrow> andThen (removeReceivedRoute E p v d h) g) w))"
  proof (cases "fst ?r")
    case (Inl e)
    then have "snd ?r = receivedRoutes (heap w p)"
      using rt.remove_Inr [of v d h "Some p" "receivedRoutes (heap w p)"]
        RemoveNextHop_absent [of "receivedRoutes (heap w p)" v d h "Some p"] by auto
    then have "ok_at Q ?w" by (intro ok_at_updPeer [OF ok]) simp_all
    with Inl assms(1) show ?thesis by (simp add: run keepsD)
  next
    case (Inr n)
    have "snd (andThen (removeReceivedRoute E p v d h) g ?w) =
        (case fst (removeReceivedRoute E p v d h ?w) of
           Returns _ \<Rightarrow> snd (g (snd (removeReceivedRoute E p v d h ?w)))
         | _ \<Rightarrow> snd (removeReceivedRoute E p v d h ?w))"
      by (auto simp: andThen_def bind_def split: prod.splits outcome.splits)
    with Inr ok_at_dropBoth [OF ok, of E p v d h] assms(2) show ?thesis
      by (simp add: run keepsD split: outcome.splits)
  qed
qed

subsection \<open>Unsubscribing\<close>

lemma dropReceived_rel: "rt_rel (dropReceived v p t) = rt_rel t - {(v, d, h, p) | d h. True}"
  unfolding dropReceived_def by (rule rt.rel_drop_vni)

lemma dropReceived_ok:
  "rt_ok t \<Longrightarrow> rt_pruned t \<Longrightarrow> rt_ok (dropReceived v p t) \<and> rt_pruned (dropReceived v p t)"
  unfolding dropReceived_def by (rule rtp.invar_remove_dests) simp

lemma dropFromTable_rel: "rt_rel (dropFromTable v p t) = rt_rel t - {(v, d, h, p) | d h. True}"
  unfolding dropFromTable_def by (rule rtx.rel_drop_vni)

lemma dropFromTable_ok: "rt_ok t \<Longrightarrow> rt_ok (dropFromTable v p t)"
  unfolding dropFromTable_def by (rule rtx.invar_remove_dests)

lemma rt_has_dropReceived:
  "rt_has (dropReceived v p t) v' d h q \<longleftrightarrow> rt_has t v' d h q \<and> (v', q) \<noteq> (v, p)"
  using dropReceived_rel [of v p t] by (auto simp: set_eq_iff)

lemma rt_has_dropFromTable:
  "rt_has (dropFromTable v p t) v' d h q \<longleftrightarrow> rt_has t v' d h q \<and> (v', q) \<noteq> (v, p)"
  using dropFromTable_rel [of v p t] by (auto simp: set_eq_iff)

text \<open>
  One round of the loop of \<open>mbUnsubscribe\<close>. When the send blocks on a channel that was not
  made yet, the peer has no routes and nothing was dropped.
\<close>

lemma ok_at_drop_vni:
  assumes ok: "ok_at Q w"
  shows "ok_at Q ((updPeer p (receivedRoutes_update (dropReceived v (Some p))) w)
      \<lparr>mbRouteTable := dropFromTable v (Some p) (mbRouteTable w)\<rparr>)"
proof -
  have x: "peer_ok p (heap w p)" using ok by (simp add: ok_at_def node_ok_def)
  have "peer_ok p (receivedRoutes_update (dropReceived v (Some p)) (heap w p))"
    using x dropReceived_ok [of "receivedRoutes (heap w p)" v "Some p"]
    by (auto simp: peer_ok_def rt_has_dropReceived dropReceived_rel)
  with ok show ?thesis
    by (auto simp: ok_defs dropFromTable_ok rt_has_dropFromTable rt_has_dropReceived)
qed

lemma ok_at_drop_table:
  assumes "ok_at Q w"
  shows "ok_at Q (w\<lparr>mbRouteTable := dropFromTable v p (mbRouteTable w)\<rparr>)"
  using assms by (auto simp: ok_defs dropFromTable_ok rt_has_dropFromTable)

lemma ok_at_drop_idle:
  assumes ok: "ok_at Q w" and idle: "txChan (heap w p) = None"
  shows "ok_at Q (updPeer p (receivedRoutes_update (dropReceived v (Some p))) w)"
proof -
  have x: "peer_ok p (heap w p)" using ok by (simp add: ok_at_def node_ok_def)
  then have none: "\<not> rt_has (receivedRoutes (heap w p)) v' d h r" for v' d h r
    using idle by (auto simp: peer_ok_def rt_rel_def)
  then have "\<not> rt_has (mbRouteTable w) v' d h (Some p)" for v' d h
    using ok unfolding ok_at_def node_ok_def table_ok_def by blast
  moreover have "peer_ok p (receivedRoutes_update (dropReceived v (Some p)) (heap w p))"
    using x dropReceived_ok [of "receivedRoutes (heap w p)" v "Some p"]
    by (auto simp: peer_ok_def rt_has_dropReceived dropReceived_rel)
  ultimately show ?thesis
    using ok by (auto simp: ok_defs rt_has_dropReceived)
qed

lemma ok_at_drop_enqueue:
  assumes "ok_at Q w" "txChan (heap w p) \<noteq> None" "w' = w1 \<or> (\<exists>pkt. w' = enqueue p pkt w1)"
    and w1: "w1 = updPeer p (receivedRoutes_update (dropReceived v (Some p))) w"
  shows "ok_at Q (w'\<lparr>mbRouteTable := dropFromTable v (Some p) (mbRouteTable w')\<rparr>)"
proof -
  have drop: "ok_at Q (w1\<lparr>mbRouteTable := dropFromTable v (Some p) (mbRouteTable w1)\<rparr>)"
    using ok_at_drop_vni [OF assms(1), where p = p and v = v] by (simp add: w1)
  have "(enqueue p pkt w1)\<lparr>mbRouteTable := dropFromTable v (Some p) (mbRouteTable w1)\<rparr> =
      updPeer p (txChan_update (\<lambda>_. Some (txQueue w1 p @ [pkt])))
        (w1\<lparr>mbRouteTable := dropFromTable v (Some p) (mbRouteTable w1)\<rparr>)" for pkt
    by (simp add: enqueue_def updPeer_def)
  then have "ok_at Q ((enqueue p pkt w1)\<lparr>mbRouteTable := dropFromTable v (Some p) (mbRouteTable w1)\<rparr>)" for pkt
    using ok_at_updPeer [OF drop, where f = "txChan_update (\<lambda>_. Some (txQueue w1 p @ [pkt]))" and p = p]
      assms(2) by (simp add: w1)
  with drop assms(3) show ?thesis by auto
qed

lemma sendMessage_made:
  assumes "txChan (heap w p) \<noteq> None"
  obtains r w' where "sendMessage E p msg w = (Returns r, w')" "w' = w \<or> (\<exists>pkt. w' = enqueue p pkt w)"
  using sendMessage_run [OF assms, of E msg] by (auto split: if_splits sum.splits)

lemma keeps_unsubscribe_round [keeps_rules]:
  fixes E :: "'c env"
  shows "keeps (ok_at Q) (andThen (peerUnsubscribe E p v)
     (onRouteTable (\<lambda>t. ((), dropFromTable v (Some p) t))))" (is "keeps _ ?f")
proof (rule keepsI)
  fix w :: "'c world"
  assume ok: "ok_at Q w"
  let ?w = "updPeer p (receivedRoutes_update (dropReceived v (Some p))) w"
  let ?send = "sendMessage E p (MsgUnsubscribe \<lparr>unsubscribeVNI = v\<rparr>)"
  let ?drop = "onRouteTable (\<lambda>t. ((), dropFromTable v (Some p) t)) :: ('c, unit) go"
  show "ok_at Q (snd (?f w))"
  proof (cases "direction (heap w p)")
    case INCOMING
    then show ?thesis
      using ok_at_drop_table [OF ok, of v "Some p"]
      by (simp add: peerUnsubscribe_def onRouteTable_def)
  next
    case OUTGOING
    then have run: "?f w = andThen ?send ?drop ?w"
      by (simp add: peerUnsubscribe_def onReceived_def andThen_def bind_def)
    show ?thesis
    proof (cases "txChan (heap w p) = None")
      case True
      have "keeps (ok_at Q) (andThen ?send ?drop)"
        by (intro keeps_rules keepsI) (simp add: onRouteTable_def ok_at_drop_table)
      with ok_at_drop_idle [OF ok True] show ?thesis by (simp add: run keepsD)
    next
      case False
      then obtain r w' where "?send ?w = (Returns r, w')" "w' = ?w \<or> (\<exists>pkt. w' = enqueue p pkt ?w)"
        by (rule_tac sendMessage_made [of ?w p E "MsgUnsubscribe \<lparr>unsubscribeVNI = v\<rparr>"]) auto
      with ok_at_drop_enqueue [OF ok False _ refl] show ?thesis
        unfolding run by (simp add: onRouteTable_def)
    qed
  qed
qed

lemma keeps_mbUnsubscribe [keeps_rules]: "keeps (ok_at Q) (mbUnsubscribe E v)"
  unfolding mbUnsubscribe_def by (intro keeps_rules)

lemma keeps_removeSubscriber [keeps_rules]: "keeps (ok_at Q) (removeSubscriber E p v)"
  unfolding removeSubscriber_def by (intro keeps_rules)

section \<open>Operations of a connection\<close>

lemma keeps_announceTo [keeps_rules]: "keeps (ok_at Q) (announceTo E p)"
  unfolding announceTo_def by (intro keeps_rules)

lemma keeps_setState [keeps_rules]: "keeps (ok_at Q) (setState E p st)"
  unfolding setState_def by (intro keeps_rules keeps_setPeer) simp_all

lemma keeps_Close [keeps_rules]: "keeps (ok_at Q) (Close E p)"
  unfolding Close_def by (intro keeps_rules)

lemma keeps_RemovePeer [keeps_rules]:
  "keeps (ok_at Q) (unsafeRemovePeer E a)" "keeps (ok_at Q) (RemovePeer E a)"
  unfolding RemovePeer_def unsafeRemovePeer_def by (intro keeps_rules)+

lemma keeps_wgWait [keeps_rules]: "keeps I (wgWait p)"
  by (simp add: keeps_def wgWait_def)

lemma keeps_resetBegin [keeps_rules]: "keeps (ok_at Q) (resetBegin E p)"
  unfolding resetBegin_def by (intro keeps_rules)

lemma keeps_resetFinish [keeps_rules]: "keeps (ok_at Q) (resetFinish E p)"
  unfolding resetFinish_def by (intro keeps_rules keeps_setPeer) simp_all

lemma keeps_case_direction [keeps_rules]:
  "keeps I f \<Longrightarrow> keeps I g \<Longrightarrow> keeps I (case x of INCOMING \<Rightarrow> f | OUTGOING \<Rightarrow> g)"
  by (simp split: ConnectionDirection.split)

lemma keeps_Reset [keeps_rules]: "keeps (ok_at Q) (Reset E p)"
  unfolding Reset_def by (intro keeps_rules)

lemma keeps_addSubscriber [keeps_rules]: "p \<in> Q \<Longrightarrow> keeps (ok_at Q) (addSubscriber E p v)"
  unfolding addSubscriber_def by (intro keeps_rules)

lemma keeps_resetKeepaliveTimeout [keeps_rules]: "keeps (ok_at Q) (resetKeepaliveTimeout p)"
  unfolding resetKeepaliveTimeout_def by (intro keeps_rules keeps_setPeer) simp_all

lemma keeps_processRxHello [keeps_rules]: "keeps (ok_at Q) (processRxHello E p m)"
  unfolding processRxHello_def by (intro keeps_rules keeps_setPeer) simp_all

lemma keeps_processRxKeepalive [keeps_rules]: "keeps (ok_at Q) (processRxKeepalive E p)"
  unfolding processRxKeepalive_def Let_def by (intro keeps_rules)

lemma keeps_processRxSubscribe [keeps_rules]: "p \<in> Q \<Longrightarrow> keeps (ok_at Q) (processRxSubscribe E p m)"
  unfolding processRxSubscribe_def by (intro keeps_rules keeps_setPeer) simp_all

lemma keeps_processRxUnsubscribe [keeps_rules]: "keeps (ok_at Q) (processRxUnsubscribe E p m)"
  unfolding processRxUnsubscribe_def by (intro keeps_rules keeps_setPeer) simp_all

lemma keeps_cleanup [keeps_rules]: "keeps (ok_at Q) (cleanup E p)"
  unfolding cleanup_def by (intro keeps_rules)

text \<open>A received route enters the peer's table before the node's.\<close>

lemma ok_at_addReceivedRoute:
  fixes w :: "'c world"
  assumes ok: "ok_at Q w" and has: "rt_has (receivedRoutes (heap w p)) v d h (Some p)"
  shows "ok_at Q (snd (addReceivedRoute E p v d h w))"
proof -
  let ?w = "w\<lparr>mbRouteTable := snd (AddNextHop v d h (Some p) (mbRouteTable w))\<rparr>"
  have ok': "ok_at Q ?w" by (rule ok_at_add_table [OF ok has])
  have rest: "keeps (ok_at Q) (andThen (distributeRouteToPeers E ADD v d h (Some p))
      (andThen (onClient (AddRoute (ops E) v d h)) (ret None)))"
    by (intro keeps_rules)
  show ?thesis
    using ok keepsD [OF rest ok'] ok'
    by (auto simp: addReceivedRoute_def onRouteTable_def bind_def split: option.split)
qed

lemma keeps_processRxUpdate [keeps_rules]:
  fixes E :: "'c env"
  assumes run: "p \<in> Q"
  shows "keeps (ok_at Q) (processRxUpdate E p m)"
proof -
  have "keeps (ok_at Q) (bind (onReceived p (AddNextHop v d h (Some p))) (\<lambda>r. case r of
      Some e \<Rightarrow> ret () | None \<Rightarrow> andThen (addReceivedRoute E p v d h) (ret ())))" for v d h
  proof (rule keepsI)
    fix w :: "'c world"
    assume ok: "ok_at Q w"
    let ?w = "updPeer p (receivedRoutes_update (\<lambda>t. snd (AddNextHop v d h (Some p) t))) w"
    have ok': "ok_at Q ?w"
      using run ok by (intro ok_at_add_received) (auto simp: ok_at_def)
    then have "ok_at Q (snd (addReceivedRoute E p v d h ?w))"
      by (rule ok_at_addReceivedRoute) (simp add: rt_has_AddNextHop)
    with ok' show "ok_at Q (snd (bind (onReceived p (AddNextHop v d h (Some p))) (\<lambda>r. case r of
        Some e \<Rightarrow> ret () | None \<Rightarrow> andThen (addReceivedRoute E p v d h) (ret ())) w))"
      by (auto simp: onReceived_def bind_def andThen_def split: option.splits prod.splits outcome.splits)
  qed
  note add = this
  show ?thesis
    unfolding processRxUpdate_def Let_def
    by (intro keeps_if add keeps_dropBoth_bind keeps_ret)
qed

section \<open>Peers and goroutines\<close>

lemma keeps_newMetalBondPeer [keeps_rules]:
  fixes Q
  shows "keeps (ok_at Q) (newMetalBondPeer c u a ip n1 n2 n3 ka dir)"
proof (rule keepsI)
  fix w :: "'c world"
  assume ok: "ok_at Q w"
  have idle: "txChan (heap w (nextRef w)) = None"
    using ok by (simp add: ok_at_def node_ok_def refs_ok_def)
  then have "\<not> rt_has (receivedRoutes (heap w (nextRef w))) v d h q" for v d h q
    using ok by (auto simp: ok_at_def node_ok_def peer_ok_def rt_rel_def)
  then have no: "\<not> rt_has (mbRouteTable w) v d h (Some (nextRef w))" for v d h
    using ok unfolding ok_at_def node_ok_def table_ok_def by blast
  have nosub: "gget (gsub (subscribers w) v) (nextRef w) = None" for v
    using ok idle unfolding ok_at_def node_ok_def refs_ok_def by blast
  have "peer_ok (nextRef w) (heap (snd (newMetalBondPeer c u a ip n1 n2 n3 ka dir w)) (nextRef w))"
    by (simp add: newMetalBondPeer_def Let_def peer_ok_def rt_rel_def rt_has_def peersOf_def
        newRouteTable_def rt_ok_def rt_pruned_def)
  with ok idle no nosub show "ok_at Q (snd (newMetalBondPeer c u a ip n1 n2 n3 ka dir w))"
    by (auto simp: newMetalBondPeer_def Let_def ok_defs)
qed

lemma keeps_AddPeer [keeps_rules]: "keeps (ok_at Q) (AddPeer u a ip n1 n2 n3)"
  unfolding AddPeer_def by (intro keeps_rules)

lemma keeps_acceptOnce [keeps_rules]: "keeps (ok_at Q) (acceptOnce r u n1 n2 n3)"
  unfolding acceptOnce_def by (intro keeps_rules)

lemma keeps_StartServer [keeps_rules]: "keeps (ok_at Q) (StartServer b)"
  unfolding StartServer_def by (intro keeps_rules)

lemma keeps_Shutdown [keeps_rules]: "keeps (ok_at Q) (Shutdown E)"
  unfolding Shutdown_def by (intro keeps_rules)

lemma keeps_wg [keeps_rules]: "keeps (ok_at Q) (wgAdd p)" "keeps (ok_at Q) (wgDone p)"
  unfolding wgAdd_def wgDone_def by (intro keeps_setPeer; simp)+

text \<open>\<open>handle\<close> of an allocated peer makes its channels.\<close>

lemma ok_at_updPeer_made:
  assumes "ok_at Q w" "p < nextRef w" "peer_ok p (f (heap w p))" "txChan (f (heap w p)) \<noteq> None"
    and "receivedRoutes (f (heap w p)) = receivedRoutes (heap w p)"
  shows "ok_at (insert p Q) (updPeer p f w)"
  using assms by (auto simp: ok_defs)

lemma ok_at_handleInit:
  assumes ok: "ok_at Q w" and p: "p < nextRef w"
  shows "ok_at Q (snd (handleInit p w))"
proof -
  let ?w = "updPeer p (\<lambda>x. x\<lparr>wg := Suc (wg x)\<rparr>) w"
  have ok': "ok_at Q ?w"
    using keepsD [OF keeps_wg(1) ok, of p] by (simp add: wgAdd_def setPeer_def)
  have "peer_ok p (heap w p)" using ok by (simp add: ok_at_def node_ok_def)
  then have "ok_at (insert p Q) (updPeer p (\<lambda>x. x\<lparr>txChan := Some [], shutdown := Some 0,
      keepaliveStop := Some 0, txChanClose := Some 0, rxHello := Some [], rxKeepalive := Some 0,
      rxSubscribe := Some [], rxUnsubscribe := Some [], rxUpdate := Some []\<rparr>) ?w)"
    using ok' p by (intro ok_at_updPeer_made) (auto simp: peer_ok_def)
  then have "ok_at Q (updPeer p (\<lambda>x. x\<lparr>txChan := Some [], shutdown := Some 0,
      keepaliveStop := Some 0, txChanClose := Some 0, rxHello := Some [], rxKeepalive := Some 0,
      rxSubscribe := Some [], rxUnsubscribe := Some [], rxUpdate := Some []\<rparr>) ?w)"
    by (simp add: ok_at_def)
  with ok' show ?thesis by (simp add: handleInit_def wgAdd_def setPeer_def)
qed

lemma keeps_case_outcome_kinds [keeps_rules]:
  "keeps I f1 \<Longrightarrow> keeps I f2 \<Longrightarrow> (\<And>c a. keeps I (f3 c a)) \<Longrightarrow>
     keeps I (case r of ResolveFailed \<Rightarrow> f1 | DialFailed \<Rightarrow> f2 | Dialled c a \<Rightarrow> f3 c a)"
  "keeps I g1 \<Longrightarrow> keeps I g2 \<Longrightarrow> keeps I g3 \<Longrightarrow> keeps I g4 \<Longrightarrow>
     keeps I (case e of RxContinue \<Rightarrow> g1 | RxReset \<Rightarrow> g2 | RxReturn \<Rightarrow> g3 | RxPanic \<Rightarrow> g4)"
  "keeps I h1 \<Longrightarrow> (\<And>n. keeps I (h2 n)) \<Longrightarrow> keeps I (case n of 0 \<Rightarrow> h1 | Suc n \<Rightarrow> h2 n)"
  "keeps I l1 \<Longrightarrow> (\<And>y ys. keeps I (l2 y ys)) \<Longrightarrow> keeps I (case xs of [] \<Rightarrow> l1 | y # ys \<Rightarrow> l2 y ys)"
  "keeps I k1 \<Longrightarrow> keeps I k2 \<Longrightarrow> keeps I k3 \<Longrightarrow>
     keeps I (case k of OnTick \<Rightarrow> k1 | OnTimeout \<Rightarrow> k2 | OnStop \<Rightarrow> k3)"
  by (simp_all split: dialResult.split rxEnd.split nat.split list.split keepaliveCase.split)

lemma keeps_handleDial [keeps_rules]: "keeps (ok_at Q) (handleDial E p r)"
  unfolding handleDial_def by (intro keeps_rules keeps_setPeer) simp_all

lemma keeps_handleConnected [keeps_rules]: "keeps (ok_at Q) (handleConnected E p)"
  unfolding handleConnected_def by (intro keeps_rules)

lemma keeps_keepaliveInit [keeps_rules]: "keeps (ok_at Q) (keepaliveInit E p)"
  unfolding keepaliveInit_def by (intro keeps_rules keeps_setPeer) simp_all

lemma keeps_keepaliveSelect [keeps_rules]: "keeps (ok_at Q) (keepaliveSelect E p c)"
  unfolding keepaliveSelect_def by (intro keeps_rules keeps_setPeer) simp_all

text \<open>
  The remaining bodies write a channel field; what they may write depends on what they
  read, so the two steps are taken together.
\<close>

lemma keeps_gets_bind:
  "(\<And>s. I s \<Longrightarrow> I (snd (g (f s) s))) \<Longrightarrow> keeps I (bind (gets f) g)"
  by (simp add: keeps_def)

lemma keeps_deliver [keeps_rules]: "keeps (ok_at Q) (deliver p msg)"
  unfolding deliver_def setPeer_def
  by (rule keeps_gets_bind) (auto intro!: ok_at_updPeer split: message.split option.split)

lemma keeps_rxLoopOnce [keeps_rules]: "keeps (ok_at Q) (rxLoopOnce E p buf r)"
  unfolding rxLoopOnce_def by (intro keeps_rules)

lemma keeps_after:
  assumes "keeps I g" "I (updPeer p f s)"
  shows "I (snd (andThen (setPeer p f) g s))"
  using keepsD [OF assms] by (simp add: setPeer_def)

lemma keeps_txLoopOnce [keeps_rules]: "keeps (ok_at Q) (txLoopOnce p c)"
proof (rule keepsI)
  fix w :: "'c world"
  assume ok: "ok_at Q w"
  have tx: "ok_at Q (updPeer p (txChan_update (\<lambda>_. Some ys)) w)" if "txChan (heap w p) = Some (y # ys)" for y ys
    using that by (intro ok_at_updPeer [OF ok]) simp_all
  have cl: "ok_at Q (updPeer p (txChanClose_update (\<lambda>_. Some n)) w)" for n
    by (intro ok_at_updPeer [OF ok]) simp_all
  show "ok_at Q (snd (txLoopOnce p c w))"
  proof (cases c)
    case None
    have "keeps (ok_at Q) (andThen (wgDone p) (ret x))" for x :: "(byte list option \<times> bool) option"
      by (intro keeps_rules)
    from keeps_after [OF this cl] ok None show ?thesis
      by (simp add: txLoopOnce_def split: option.split nat.split)
  next
    case (Some b)
    have "keeps (ok_at Q) (andThen (if \<not> b then goStart (GoReset p) else ret ()) (ret x))"
      for x :: "(byte list option \<times> bool) option"
      by (intro keeps_rules)
    from keeps_after [OF this tx] ok Some show ?thesis
      by (auto simp: txLoopOnce_def split: option.split list.split)
  qed
qed

lemma ok_at_running:
  assumes "ok_at Q w" "rxUpdate (heap w p) \<noteq> None \<or> rxSubscribe (heap w p) \<noteq> None"
  shows "ok_at (insert p Q) w"
  using assms by (auto simp: ok_at_def node_ok_def peer_ok_def)

lemma ok_at_insert: "ok_at (insert p Q) w \<Longrightarrow> ok_at Q w"
  by (auto simp: ok_at_def)

lemma ok_at_take_update:
  fixes E :: "'c env"
  assumes ok: "ok_at Q w" and "rxUpdate (heap w p) = Some (m # ms)"
  shows "ok_at Q (snd (andThen (setPeer p (rxUpdate_update (\<lambda>_. Some ms)))
    (andThen (processRxUpdate E p m) (ret x)) w))"
proof (rule ok_at_insert, rule keeps_after)
  show "keeps (ok_at (insert p Q)) (andThen (processRxUpdate E p m) (ret x))"
    by (intro keeps_rules) simp
  show "ok_at (insert p Q) (updPeer p (rxUpdate_update (\<lambda>_. Some ms)) w)"
    using assms by (intro ok_at_updPeer ok_at_running) simp_all
qed

lemma ok_at_take_subscribe:
  fixes E :: "'c env"
  assumes ok: "ok_at Q w" and "rxSubscribe (heap w p) = Some (m # ms)"
  shows "ok_at Q (snd (andThen (setPeer p (rxSubscribe_update (\<lambda>_. Some ms)))
    (andThen (processRxSubscribe E p m) (ret x)) w))"
proof (rule ok_at_insert, rule keeps_after)
  show "keeps (ok_at (insert p Q)) (andThen (processRxSubscribe E p m) (ret x))"
    by (intro keeps_rules) simp
  show "ok_at (insert p Q) (updPeer p (rxSubscribe_update (\<lambda>_. Some ms)) w)"
    using assms by (intro ok_at_updPeer ok_at_running) simp_all
qed

lemma keeps_take:
  fixes E :: "'c env"
  shows "keeps (ok_at Q) (andThen (setPeer p (rxHello_update (\<lambda>_. Some a)))
      (andThen (processRxHello E p m1) (ret x)))"
    and "keeps (ok_at Q) (andThen (setPeer p (rxKeepalive_update (\<lambda>_. Some b)))
      (andThen (processRxKeepalive E p) (ret x)))"
    and "keeps (ok_at Q) (andThen (setPeer p (rxUnsubscribe_update (\<lambda>_. Some c)))
      (andThen (processRxUnsubscribe E p m2) (ret x)))"
    and "keeps (ok_at Q) (andThen (setPeer p (shutdown_update (\<lambda>_. Some d)))
      (andThen (cleanup E p) (andThen (wgDone p) (ret x))))"
  by (intro keeps_rules keeps_setPeer; simp)+

lemma keeps_handleSelect [keeps_rules]:
  fixes E :: "'c env"
  shows "keeps (ok_at Q) (handleSelect E p c)"
proof (rule keepsI)
  fix w :: "'c world"
  assume ok: "ok_at Q w"
  show "ok_at Q (snd (handleSelect E p c w))"
  proof (cases c)
    case OnHello
    with ok keepsD [OF keeps_take(1) [where x = "Some True"] ok] show ?thesis
      by (simp add: handleSelect_def split: option.split list.split)
  next
    case OnKeepalive
    with ok keepsD [OF keeps_take(2) [where x = "Some True"] ok] show ?thesis
      by (simp add: handleSelect_def split: option.split nat.split)
  next
    case OnSubscribe
    with ok ok_at_take_subscribe [OF ok, where x = "Some True"] show ?thesis
      by (simp add: handleSelect_def split: option.split list.split)
  next
    case OnUnsubscribe
    with ok keepsD [OF keeps_take(3) [where x = "Some True"] ok] show ?thesis
      by (simp add: handleSelect_def split: option.split list.split)
  next
    case OnUpdate
    with ok ok_at_take_update [OF ok, where x = "Some True"] show ?thesis
      by (simp add: handleSelect_def split: option.split list.split)
  next
    case OnShutdown
    with ok keepsD [OF keeps_take(4) [where x = "Some False"] ok] show ?thesis
      by (simp add: handleSelect_def split: option.split nat.split)
  qed
qed

end
