(* ===== verification/Distribution.thy ===== *)
theory Distribution
  imports Invariant
begin

text \<open>
  Who gets which packet: closed forms of \<open>distributeRouteToPeers\<close> and of the operations
  built on it, for a node whose subscriber mutex is free. They say at once that the
  operation returns, what it changes, and that it changes nothing else.
\<close>

section \<open>Sending one packet to several peers\<close>

definition enqueueAll :: "nat list \<Rightarrow> byte list \<Rightarrow> 'c world \<Rightarrow> 'c world" where
  "enqueueAll ps pkt w = fold (\<lambda>p. enqueue p pkt) ps w"

text \<open>The subscribers of a VNI that a route of \<open>from\<close> is sent to.\<close>

definition recipients :: "'c world \<Rightarrow> VNI \<Rightarrow> nat \<Rightarrow> nat list" where
  "recipients w vni from =
     filter (\<lambda>p. p \<noteq> from \<and> \<not> (peerIsServer (heap w from) \<and> peerIsServer (heap w p)) \<and>
         state (heap w p) = ESTABLISHED)
       (gkeys (gsub (subscribers w) vni))"

definition updateMsg :: "8 word \<Rightarrow> VNI \<Rightarrow> Destination \<Rightarrow> NextHop \<Rightarrow> message" where
  "updateMsg a v d h =
     MsgUpdate \<lparr>updAction = a, updVNI = v, updDestination = d, updNextHop = h\<rparr>"

definition sendAll :: "'c env \<Rightarrow> message \<Rightarrow> nat list \<Rightarrow> 'c world \<Rightarrow> 'c world" where
  "sendAll E msg ps w = (case encodeMessage (cdc E) msg of
     Inl _ \<Rightarrow> w | Inr pkt \<Rightarrow> enqueueAll ps pkt w)"

text \<open>The mutex is free and the node's invariant holds: no send can block for good.\<close>

definition live :: "'c world \<Rightarrow> bool" where
  "live w \<longleftrightarrow> node_ok w \<and> \<not> mtxSubscribers w"

lemma enqueueAll_simps [simp]:
  "enqueueAll [] pkt w = w"
  "enqueueAll (p # ps) pkt w = enqueueAll ps pkt (enqueue p pkt w)"
  by (simp_all add: enqueueAll_def)

lemma enqueueAll_frame [simp]:
  "mbRouteTable (enqueueAll ps pkt w) = mbRouteTable w"
  "myAnnouncements (enqueueAll ps pkt w) = myAnnouncements w"
  "mySubscriptions (enqueueAll ps pkt w) = mySubscriptions w"
  "mtxSubscribers (enqueueAll ps pkt w) = mtxSubscribers w"
  "subscribers (enqueueAll ps pkt w) = subscribers w"
  "peers (enqueueAll ps pkt w) = peers w"
  "client (enqueueAll ps pkt w) = client w"
  "state (heap (enqueueAll ps pkt w) q) = state (heap w q)"
  "receivedRoutes (heap (enqueueAll ps pkt w) q) = receivedRoutes (heap w q)"
  "peerIsServer (heap (enqueueAll ps pkt w) q) = peerIsServer (heap w q)"
  by (induction ps arbitrary: w) simp_all

lemma txQueue_enqueueAll:
  "distinct ps \<Longrightarrow> txQueue (enqueueAll ps pkt w) q = txQueue w q @ (if q \<in> set ps then [pkt] else [])"
  by (induction ps arbitrary: w) auto

lemma txChan_enqueue: "txChan (heap w q) \<noteq> None \<Longrightarrow> txChan (heap (enqueue p pkt w) q) \<noteq> None"
  by (simp add: enqueue_def)

lemma sendAll_frame [simp]:
  "mbRouteTable (sendAll E msg ps w) = mbRouteTable w"
  "myAnnouncements (sendAll E msg ps w) = myAnnouncements w"
  "mySubscriptions (sendAll E msg ps w) = mySubscriptions w"
  "mtxSubscribers (sendAll E msg ps w) = mtxSubscribers w"
  "subscribers (sendAll E msg ps w) = subscribers w"
  "peers (sendAll E msg ps w) = peers w"
  "client (sendAll E msg ps w) = client w"
  "state (heap (sendAll E msg ps w) q) = state (heap w q)"
  "receivedRoutes (heap (sendAll E msg ps w) q) = receivedRoutes (heap w q)"
  by (simp_all add: sendAll_def split: sum.split)

lemma sendAll_Cons:
  "sendAll E msg (p # ps) w = sendAll E msg ps (case encodeMessage (cdc E) msg of
     Inl _ \<Rightarrow> w | Inr pkt \<Rightarrow> enqueue p pkt w)"
  by (simp add: sendAll_def split: sum.split)

lemma sendAll_Nil [simp]: "sendAll E msg [] w = w"
  by (simp add: sendAll_def split: sum.split)

section \<open>Distributing a route that a peer announced\<close>

lemma forEach_SendUpdate:
  assumes "\<forall>p \<in> set ps. txChan (heap w p) \<noteq> None"
  shows "forEach ps (\<lambda>p. if p = from then ret None else
       bind (gets (\<lambda>w. peerIsServer (heap w from) \<and> peerIsServer (heap w p))) (\<lambda>b.
       if b then ret None else SendUpdate E p u)) w
     = (Returns (), sendAll E (MsgUpdate u)
         (filter (\<lambda>p. p \<noteq> from \<and> \<not> (peerIsServer (heap w from) \<and> peerIsServer (heap w p)) \<and>
           state (heap w p) = ESTABLISHED) ps) w)"
  using assms
proof (induction ps arbitrary: w)
  case Nil
  then show ?case by simp
next
  case (Cons p ps)
  have send: "SendUpdate E p u w = (if state (heap w p) \<noteq> ESTABLISHED
      then (Returns (Some (Errorf ''connection not ESTABLISHED'')), w)
      else case encodeMessage (cdc E) (MsgUpdate u) of
        Inl e \<Rightarrow> (Returns (Some e), w) | Inr pkt \<Rightarrow> (Returns None, enqueue p pkt w))"
    using Cons.prems by (intro SendUpdate_run) simp
  show ?case
  proof (cases "encodeMessage (cdc E) (MsgUpdate u)")
    case (Inl e)
    have "\<exists>r. (if p = from then ret None else
       bind (gets (\<lambda>w. peerIsServer (heap w from) \<and> peerIsServer (heap w p))) (\<lambda>b.
       if b then ret None else SendUpdate E p u)) w = (Returns r, w)"
      using send Inl by simp
    then show ?thesis using Cons.prems Inl by (auto simp: Cons.IH sendAll_def)
  next
    case (Inr pkt)
    define good where "good \<longleftrightarrow> p \<noteq> from \<and> \<not> (peerIsServer (heap w from) \<and> peerIsServer (heap w p)) \<and>
      state (heap w p) = ESTABLISHED"
    define w1 where "w1 = (if good then enqueue p pkt w else w)"
    have "\<exists>r. (if p = from then ret None else
       bind (gets (\<lambda>w. peerIsServer (heap w from) \<and> peerIsServer (heap w p))) (\<lambda>b.
       if b then ret None else SendUpdate E p u)) w = (Returns r, w1)"
      using send Inr by (auto simp: w1_def good_def)
    moreover have "\<forall>q \<in> set ps. txChan (heap w1 q) \<noteq> None"
      using Cons.prems by (auto simp: w1_def enqueue_def)
    ultimately show ?thesis
      using Inr by (auto simp: Cons.IH sendAll_def w1_def good_def)
  qed
qed

lemma distribute_run:
  assumes "live w"
  shows "distributeRouteToPeers E a v d h (Some from) w =
     (Returns None, sendAll E (updateMsg a v d h) (recipients w v from) w)"
proof -
  have "\<forall>p \<in> set (gkeys (gsub (subscribers w) v)). txChan (heap w p) \<noteq> None"
    using assms by (auto simp: live_def node_ok_def refs_ok_def gget_in_gkeys)
  note loop = forEach_SendUpdate [OF this]
  show ?thesis
  proof (cases "gget (subscribers w) v")
    case None
    then show ?thesis
      using assms by (simp add: distributeRouteToPeers_def Let_def rlockSubscribers_def live_def
          recipients_def)
  next
    case (Some m)
    then show ?thesis
      using assms loop by (simp add: distributeRouteToPeers_def Let_def rlockSubscribers_def
          live_def recipients_def updateMsg_def)
  qed
qed

lemma live_sendAll:
  assumes "live w"
  shows "live (sendAll E (updateMsg a v d h) (recipients w v' from) w)"
proof -
  have "ok_at {} (enqueueAll ps pkt w)" if "ok_at {} w" "set ps \<subseteq> {p. txChan (heap w p) \<noteq> None}"
    for ps pkt and w :: "'a world"
    using that
  proof (induction ps arbitrary: w)
    case (Cons p ps)
    have "ok_at {} (enqueue p pkt w)"
      unfolding enqueue_def using Cons.prems by (intro ok_at_updPeer) auto
    moreover have "set ps \<subseteq> {q. txChan (heap (enqueue p pkt w) q) \<noteq> None}"
      using Cons.prems txChan_enqueue by fastforce
    ultimately show ?case using Cons.IH by (simp only: enqueueAll_simps)
  qed simp
  moreover have "set (recipients w v' from) \<subseteq> {p. txChan (heap w p) \<noteq> None}"
    using assms by (fastforce simp: recipients_def live_def node_ok_def refs_ok_def gget_in_gkeys)
  ultimately have "node_ok (enqueueAll (recipients w v' from) pkt w)" for pkt
    using assms by (simp add: live_def)
  then show ?thesis
    using assms by (simp add: live_def sendAll_def split: sum.split)
qed

section \<open>Distributing the node's own routes\<close>

text \<open>
  An own route goes to the peers in turn, and the loop stops at the first peer that is not
  \<open>ESTABLISHED\<close>: the peers after it get nothing.
\<close>

definition ownRecipients :: "'c world \<Rightarrow> nat list" where
  "ownRecipients w = takeWhile (\<lambda>p. state (heap w p) = ESTABLISHED) (map snd (peers w))"

lemma forReturn_SendUpdate:
  assumes "\<forall>p \<in> set ps. txChan (heap w p) \<noteq> None"
    and "encodeMessage (cdc E) (MsgUpdate u) = Inr pkt"
  shows "forReturn ps (\<lambda>p. SendUpdate E p u) w =
     (Returns (if \<forall>p \<in> set ps. state (heap w p) = ESTABLISHED then None
        else Some (Errorf ''connection not ESTABLISHED'')),
      enqueueAll (takeWhile (\<lambda>p. state (heap w p) = ESTABLISHED) ps) pkt w)"
  using assms(1)
proof (induction ps arbitrary: w)
  case (Cons p ps)
  have tx: "\<forall>q \<in> set ps. txChan (heap (enqueue p pkt w) q) \<noteq> None"
    using Cons.prems by (auto simp: enqueue_def)
  show ?case
    using SendUpdate_run [of w p E u] Cons.prems Cons.IH [OF tx] assms(2)
    by (cases "state (heap w p) = ESTABLISHED") simp_all
qed simp

lemma distribute_own_run:
  assumes "\<not> mtxSubscribers w" "\<forall>p \<in> set (map snd (peers w)). txChan (heap w p) \<noteq> None"
    and "encodeMessage (cdc E) (updateMsg a v d h) = Inr pkt"
  shows "distributeRouteToPeers E a v d h None w =
     (Returns (if \<forall>p \<in> set (map snd (peers w)). state (heap w p) = ESTABLISHED then None
        else Some (Errorf ''connection not ESTABLISHED'')),
      enqueueAll (ownRecipients w) pkt w)"
  using assms forReturn_SendUpdate [OF assms(2), of E _ pkt]
  by (simp add: distributeRouteToPeers_def Let_def rlockSubscribers_def updateMsg_def
      ownRecipients_def)

section \<open>Routes that a peer announced or withdrew\<close>

text \<open>The node announces the destination itself, so that a \<open>STANDARD\<close> route for it is skipped.\<close>

definition ownsDestination :: "'c world \<Rightarrow> VNI \<Rightarrow> Destination \<Rightarrow> bool" where
  "ownsDestination w v d \<longleftrightarrow> GetNextHopsByDestination (myAnnouncements w) v d \<noteq> []"

definition withTable :: "(routeTable \<Rightarrow> routeTable) \<Rightarrow> 'c world \<Rightarrow> 'c world" where
  "withTable f w = w\<lparr>mbRouteTable := f (mbRouteTable w)\<rparr>"

definition withClient :: "('c \<Rightarrow> 'c) \<Rightarrow> 'c world \<Rightarrow> 'c world" where
  "withClient f w = w\<lparr>client := f (client w)\<rparr>"

lemma recipients_withTable [simp]: "recipients (withTable f w) v from = recipients w v from"
  by (simp add: recipients_def withTable_def)

lemma mtxSubscribers_with [simp]:
  "mtxSubscribers (withTable f w) = mtxSubscribers w"
  "mtxSubscribers (withClient g w) = mtxSubscribers w"
  by (simp_all add: withTable_def withClient_def)

lemma with_fields [simp]:
  "mbRouteTable (withTable f w) = f (mbRouteTable w)" "mbRouteTable (withClient g w) = mbRouteTable w"
  "client (withTable f w) = client w" "client (withClient g w) = g (client w)"
  by (simp_all add: withTable_def withClient_def)

lemma onClient_run: "onClient f w = (Returns (fst (f (client w))), withClient (\<lambda>c. snd (f c)) w)"
  by (simp add: onClient_def withClient_def)

lemma onRouteTable_run:
  "onRouteTable f w = (Returns (fst (f (mbRouteTable w))), withTable (\<lambda>t. snd (f t)) w)"
  by (simp add: onRouteTable_def withTable_def)

lemma withTable_same: "f (mbRouteTable w) = mbRouteTable w \<Longrightarrow> withTable f w = w"
  by (simp add: withTable_def)

lemma addReceivedRoute_run:
  assumes ok: "live w" and own: "rt_has (receivedRoutes (heap w p)) v d h (Some p)"
  shows "addReceivedRoute E p v d h w =
     (if nhType h = NextHopType_STANDARD \<and> ownsDestination w v d then (Returns None, w)
      else if rt_has (mbRouteTable w) v d h (Some p)
      then (Returns (Some (Wrapf ''cannot add route to route table: %v'' (Errorf ''nexthop already exists''))), w)
      else (Returns None,
        withClient (\<lambda>c. snd (AddRoute (ops E) v d h c))
          (sendAll E (updateMsg ADD v d h) (recipients w v p)
            (withTable (\<lambda>t. snd (AddNextHop v d h (Some p) t)) w))))"
proof -
  let ?w = "withTable (\<lambda>t. snd (AddNextHop v d h (Some p) t)) w"
  have "live ?w"
    using ok ok_at_add_table [where Q = "{}", OF _ own] by (simp add: live_def withTable_def)
  note send = distribute_run [OF this, of E ADD v d h p]
  have same: "?w = w" if "rt_has (mbRouteTable w) v d h (Some p)"
    using that by (intro withTable_same) (simp add: AddNextHop_eq makePath_present)
  have "fst (AddNextHop v d h (Some p) (mbRouteTable w)) =
      (if rt_has (mbRouteTable w) v d h (Some p) then Some (Errorf ''nexthop already exists'') else None)"
    by (simp add: AddNextHop_eq)
  with send same show ?thesis
    by (auto simp: addReceivedRoute_def ownsDestination_def onClient_run onRouteTable_run)
qed

lemma removeReceivedRoute_after:
  assumes ok: "live (withTable (\<lambda>t. snd (RemoveNextHop v d h (Some p) t)) w)"
  shows "removeReceivedRoute E p v d h w =
     (case fst (RemoveNextHop v d h (Some p) (mbRouteTable w)) of
        Inl e \<Rightarrow> (Returns (Some (Wrapf ''cannot remove route from route table: %v'' e)), w)
      | Inr n \<Rightarrow> (Returns None,
          withClient (\<lambda>c. snd (RemoveRoute (ops E) v d h c))
            ((if n = 0 then sendAll E (updateMsg REMOVE v d h) (recipients w v p) else id)
              (withTable (\<lambda>t. snd (RemoveNextHop v d h (Some p) t)) w))))"
proof -
  let ?w = "withTable (\<lambda>t. snd (RemoveNextHop v d h (Some p) t)) w"
  note send = distribute_run [OF ok, of E REMOVE v d h p]
  show ?thesis
  proof (cases "rt_has (mbRouteTable w) v d h (Some p)")
    case True
    then obtain n where "fst (RemoveNextHop v d h (Some p) (mbRouteTable w)) = Inr n"
      by (simp add: RemoveNextHop_present)
    with send show ?thesis
      by (cases n) (simp_all add: removeReceivedRoute_def onClient_run onRouteTable_run)
  next
    case False
    then obtain e where e: "RemoveNextHop v d h (Some p) (mbRouteTable w) = (Inl e, mbRouteTable w)"
      using RemoveNextHop_absent by blast
    then have "?w = w" by (intro withTable_same) simp
    with e show ?thesis by (simp add: removeReceivedRoute_def onRouteTable_run)
  qed
qed

lemma live_remove_table: "live w \<Longrightarrow> live (withTable (\<lambda>t. snd (RemoveNextHop v d h p t)) w)"
  using ok_at_remove_table [of "{}" w v d h p] by (simp add: live_def withTable_def)

lemmas removeReceivedRoute_run = removeReceivedRoute_after [OF live_remove_table]

section \<open>Who has been sent what\<close>

text \<open>From \<open>w\<close> to \<open>w'\<close> the peers \<open>ps\<close> have been sent \<open>pkt\<close>, once, and the others nothing.\<close>

definition sentTo :: "nat set \<Rightarrow> byte list \<Rightarrow> 'c world \<Rightarrow> 'c world \<Rightarrow> bool" where
  "sentTo ps pkt w w' \<longleftrightarrow> (\<forall>q. txQueue w' q = txQueue w q @ (if q \<in> ps then [pkt] else []))"

lemma txQueue_with [simp]:
  "txQueue (withTable f w) q = txQueue w q" "txQueue (withClient g w) q = txQueue w q"
  by (simp_all add: txQueue_def withTable_def withClient_def)

lemma sentTo_with [simp]:
  "sentTo ps pkt (withTable f w) w' = sentTo ps pkt w w'"
  "sentTo ps pkt w (withTable f w') = sentTo ps pkt w w'"
  "sentTo ps pkt w (withClient g w') = sentTo ps pkt w w'"
  by (simp_all add: sentTo_def)

lemma sentTo_empty [simp]: "sentTo {} pkt w w"
  by (simp add: sentTo_def)

lemma sentTo_enqueueAll: "distinct ps \<Longrightarrow> sentTo (set ps) pkt w (enqueueAll ps pkt w)"
  by (simp add: sentTo_def txQueue_enqueueAll)

text \<open>The peers that a route of peer \<open>from\<close> is to be sent to.\<close>

definition audience :: "'c world \<Rightarrow> VNI \<Rightarrow> nat \<Rightarrow> nat set" where
  "audience w v from = {q. gget (gsub (subscribers w) v) q \<noteq> None \<and> q \<noteq> from \<and>
     \<not> (peerIsServer (heap w from) \<and> peerIsServer (heap w q)) \<and> state (heap w q) = ESTABLISHED}"

lemma set_recipients: "set (recipients w v from) = audience w v from"
  by (auto simp: recipients_def audience_def gget_in_gkeys)

lemma distinct_recipients:
  assumes "node_ok w"
  shows "distinct (recipients w v from)"
proof -
  have "gok (gsub (subscribers w) v)"
    using assms by (intro gall_gsub [where P = gok]) (simp_all add: node_ok_def maps_ok_def)
  then show ?thesis by (simp add: recipients_def gok_def gkeys_def)
qed

lemma sentTo_sendAll:
  assumes "node_ok w" "encodeMessage (cdc E) msg = Inr pkt"
  shows "sentTo (audience w v from) pkt w' (sendAll E msg (recipients w v from) w')"
  using sentTo_enqueueAll [OF distinct_recipients [OF assms(1)], of v "from" pkt w'] assms(2)
  by (simp add: sendAll_def set_recipients)

end
