(* ===== verification/Progress.thy ===== *)
theory Progress
  imports Distribution
begin

text \<open>
  Progress: in a calm node, one whose subscriber mutex is free and whose registered and
  subscribed peers have their channels, the operations of the node and of its peers
  return. They neither panic nor wait for ever, and the node is calm again.
\<close>

section \<open>Calm nodes\<close>

definition chansMade :: "metalBondPeer \<Rightarrow> bool" where
  "chansMade x \<longleftrightarrow> txChan x \<noteq> None \<and> shutdown x \<noteq> None \<and> keepaliveStop x \<noteq> None \<and>
     txChanClose x \<noteq> None \<and> rxHello x \<noteq> None \<and> rxKeepalive x \<noteq> None \<and> rxSubscribe x \<noteq> None \<and>
     rxUnsubscribe x \<noteq> None \<and> rxUpdate x \<noteq> None"

text \<open>\<open>P\<close> is a set of peers that have run the head of \<open>handle\<close>; it has all that the node knows.\<close>

definition calm :: "nat set \<Rightarrow> 'c world \<Rightarrow> bool" where
  "calm P w \<longleftrightarrow> \<not> mtxSubscribers w \<and> snd ` set (peers w) \<subseteq> P \<and>
     (\<forall>v q. gget (gsub (subscribers w) v) q \<noteq> None \<longrightarrow> q \<in> P) \<and>
     (\<forall>q \<in> P. chansMade (heap w q))"

lemma calm_updPeer:
  "calm P w \<Longrightarrow> (chansMade (heap w p) \<Longrightarrow> chansMade (f (heap w p))) \<Longrightarrow> calm P (updPeer p f w)"
  by (auto simp: calm_def)

lemma calm_frame [simp]:
  "calm P (w\<lparr>mbRouteTable := t\<rparr>) = calm P w"
  "calm P (w\<lparr>myAnnouncements := t\<rparr>) = calm P w"
  "calm P (w\<lparr>mySubscriptions := s\<rparr>) = calm P w"
  "calm P (w\<lparr>client := c\<rparr>) = calm P w"
  "calm P (w\<lparr>spawned := g\<rparr>) = calm P w"
  "calm P (w\<lparr>shuttingDown := b\<rparr>) = calm P w"
  "calm P (w\<lparr>mbIsServer := b\<rparr>) = calm P w"
  "calm P (w\<lparr>lis := l\<rparr>) = calm P w"
  by (simp_all add: calm_def)

section \<open>Elementary steps\<close>

lemma finishes_setPeer:
  "(\<And>x. chansMade x \<Longrightarrow> chansMade (f x)) \<Longrightarrow> finishes (calm P) (setPeer p f)"
  unfolding setPeer_def by (intro finishes_modify calm_updPeer)

lemma finishes_tables [finishes_rules]:
  "finishes (calm P) (onRouteTable f)"
  "finishes (calm P) (onAnnouncements f)"
  "finishes (calm P) (onClient g)"
  "finishes (calm P) (onReceived p f)"
  "finishes (calm P) (goStart r)"
  by (auto simp: finishes_def state_defs intro!: calm_updPeer) (simp add: chansMade_def)+

lemma finishes_frame [finishes_rules]:
  "finishes (calm P) (modify (\<lambda>w. w\<lparr>mySubscriptions := m w\<rparr>))"
  "finishes (calm P) (modify (\<lambda>w. w\<lparr>shuttingDown := b\<rparr>))"
  "finishes (calm P) (modify (\<lambda>w. w\<lparr>mbIsServer := b\<rparr>))"
  "finishes (calm P) (modify (\<lambda>w. w\<lparr>lis := l\<rparr>))"
  by (simp_all add: finishes_def)

lemma finishes_rlock [finishes_rules]: "finishes (calm P) rlockSubscribers"
  by (simp add: finishes_def rlockSubscribers_def calm_def)

lemma finishes_sendTx [finishes_rules]:
  assumes "p \<in> P"
  shows "finishes (calm P) (sendTx p pkt)"
  unfolding finishes_def
proof (intro allI impI)
  fix w :: "'c world"
  assume c: "calm P w"
  then have "txChan (heap w p) \<noteq> None" using assms by (simp add: calm_def chansMade_def)
  moreover have "calm P (enqueue p pkt w)"
    unfolding enqueue_def using c by (rule calm_updPeer) (simp add: chansMade_def)
  ultimately show "\<exists>a w'. sendTx p pkt w = (Returns a, w') \<and> calm P w'"
    by (simp add: sendTx_made)
qed

lemma finishes_signalI:
  assumes "p \<in> P" "\<And>x. chansMade x \<Longrightarrow> get x \<noteq> None"
    and "\<And>x n. chansMade x \<Longrightarrow> chansMade (upd (\<lambda>_. Some n) x)"
  shows "finishes (calm P) (signal get upd p)"
  unfolding finishes_def
proof (intro allI impI)
  fix w :: "'c world"
  assume c: "calm P w"
  then obtain n where "get (heap w p) = Some n" using assms by (fastforce simp: calm_def)
  moreover have "calm P (updPeer p (upd (\<lambda>_. Some (Suc n))) w)"
    using c assms(3) by (rule calm_updPeer)
  ultimately show "\<exists>a w'. signal get upd p w = (Returns a, w') \<and> calm P w'"
    by (simp add: signal_def)
qed

lemma finishes_signal [finishes_rules]:
  assumes "p \<in> P"
  shows "finishes (calm P) (signal txChanClose txChanClose_update p)"
    and "finishes (calm P) (signal shutdown shutdown_update p)"
    and "finishes (calm P) (signal keepaliveStop keepaliveStop_update p)"
  by (rule finishes_signalI [OF assms]; simp add: chansMade_def)+

text \<open>The writing section of \<open>removeSubscriber\<close>.\<close>

lemma finishes_dropSubscriber [finishes_rules]:
  fixes g :: "('c, 'a) go"
  assumes "finishes (calm P) g"
  shows "finishes (calm P) (andThen lockSubscribers
      (andThen (modify (\<lambda>w. w\<lparr>subscribers := gput v (gdel p (gsub (subscribers w) v)) (subscribers w)\<rparr>))
      (andThen unlockSubscribers g)))"
  unfolding finishes_def
proof (intro allI impI)
  fix w :: "'c world"
  assume c: "calm P w"
  define w' where "w' = w\<lparr>subscribers := gput v (gdel p (gsub (subscribers w) v)) (subscribers w),
    mtxSubscribers := False\<rparr>"
  have "calm P w'" using c by (auto simp: calm_def w'_def split: if_splits)
  then show "\<exists>a s'. andThen lockSubscribers
      (andThen (modify (\<lambda>w. w\<lparr>subscribers := gput v (gdel p (gsub (subscribers w) v)) (subscribers w)\<rparr>))
      (andThen unlockSubscribers g)) w = (Returns a, s') \<and> calm P s'"
    using finishesD [OF assms] c
    by (simp add: lockSubscribers_def unlockSubscribers_def calm_def [of P w] w'_def)
qed

section \<open>Operations\<close>

lemma finishes_GetState [finishes_rules]: "finishes I (GetState p)"
  by (simp add: GetState_def finishes_rules)

lemma finishes_sendMessage [finishes_rules]:
  "p \<in> P \<Longrightarrow> finishes (calm P) (sendMessage E p msg)"
  by (simp add: sendMessage_def finishes_rules)

lemma finishes_SendUpdate [finishes_rules]: "p \<in> P \<Longrightarrow> finishes (calm P) (SendUpdate E p upd)"
  by (simp add: SendUpdate_def finishes_rules)

lemma finishes_peerSubscribe [finishes_rules]: "p \<in> P \<Longrightarrow> finishes (calm P) (peerSubscribe E p v)"
  by (simp add: peerSubscribe_def finishes_rules)

lemma finishes_peerUnsubscribe [finishes_rules]:
  "p \<in> P \<Longrightarrow> finishes (calm P) (peerUnsubscribe E p v)"
  by (simp add: peerUnsubscribe_def finishes_rules)

text \<open>Programs that first read the registered peers, or the subscribers, and then loop over them.\<close>

lemma finishes_gets_calm:
  assumes "\<And>w. calm P w \<Longrightarrow> finishes (calm P) (g (f w))"
  shows "finishes (calm P) (bind (gets f) g)"
  using assms by (auto simp: finishes_def)

lemma finishes_bind_peers:
  assumes "\<And>ps. snd ` set ps \<subseteq> P \<Longrightarrow> finishes (calm P) (g ps)"
  shows "finishes (calm P) (bind (gets peers) g)"
  using assms by (rule finishes_gets_calm) (simp add: calm_def)

lemma finishes_bind_subscribers:
  assumes "\<And>subs. (\<And>v q. q \<in> set (gkeys (gsub subs v)) \<Longrightarrow> q \<in> P) \<Longrightarrow> finishes (calm P) (g subs)"
  shows "finishes (calm P) (bind (gets subscribers) g)"
  using assms by (rule finishes_gets_calm) (auto simp: calm_def gget_in_gkeys)

lemmas finishes_binds = finishes_bind_peers finishes_bind_subscribers

lemma finishes_distribute [finishes_rules]:
  "finishes (calm P) (distributeRouteToPeers E a v d h from)"
  unfolding distributeRouteToPeers_def Let_def
  by (rule finishes_binds | rule finishes_rules | fastforce)+

lemma finishes_mbSubscribe [finishes_rules]: "finishes (calm P) (mbSubscribe E v)"
  unfolding mbSubscribe_def by (rule finishes_binds | rule finishes_rules | fastforce)+

lemma finishes_mbUnsubscribe [finishes_rules]: "finishes (calm P) (mbUnsubscribe E v)"
  unfolding mbUnsubscribe_def by (rule finishes_binds | rule finishes_rules | fastforce)+

lemma finishes_routes [finishes_rules]:
  "finishes (calm P) (AnnounceRoute E v d h)"
  "finishes (calm P) (WithdrawRoute E v d h)"
  "finishes (calm P) (IsRouteAnnounced v d h)"
  "finishes (calm P) (addReceivedRoute E p v d h)"
  "finishes (calm P) (removeReceivedRoute E p v d h)"
  "finishes (calm P) (AddRoutesForVni E v)"
  unfolding AnnounceRoute_def WithdrawRoute_def IsRouteAnnounced_def addReceivedRoute_def
    removeReceivedRoute_def AddRoutesForVni_def readdRoutes_def
  by (intro finishes_rules)+

lemma finishes_removeSubscriber [finishes_rules]: "finishes (calm P) (removeSubscriber E p v)"
  unfolding removeSubscriber_def by (intro finishes_rules)

lemma finishes_announceTo [finishes_rules]: "p \<in> P \<Longrightarrow> finishes (calm P) (announceTo E p)"
  unfolding announceTo_def by (intro finishes_rules)

lemma finishes_setState [finishes_rules]: "p \<in> P \<Longrightarrow> finishes (calm P) (setState E p st)"
  unfolding setState_def
  by (intro finishes_rules finishes_setPeer) (simp_all add: chansMade_def)

lemma finishes_Close [finishes_rules]: "p \<in> P \<Longrightarrow> finishes (calm P) (Close E p)"
  unfolding Close_def by (intro finishes_rules)

lemma finishes_gdel_peers [finishes_rules]:
  "finishes (calm P) (modify (\<lambda>w. w\<lparr>peers := gdel a (peers w)\<rparr>))"
  by (rule finishes_modify) (auto simp: calm_def gdel_def AList.delete_eq)

lemma gget_range: "gget m k = Some v \<Longrightarrow> v \<in> snd ` set m"
  by (induction m) (auto split: if_splits)

lemma finishes_unsafeRemovePeer [finishes_rules]: "finishes (calm P) (unsafeRemovePeer E a)"
  unfolding unsafeRemovePeer_def
  by (rule finishes_gets_calm) (auto intro!: finishes_rules simp: calm_def dest: gget_range split: option.split)

lemma finishes_RemovePeer [finishes_rules]: "finishes (calm P) (RemovePeer E a)"
  unfolding RemovePeer_def by (intro finishes_rules)

lemma finishes_cleanup [finishes_rules]: "finishes (calm P) (cleanup E p)"
  unfolding cleanup_def by (intro finishes_rules)

lemma finishes_processRxUpdate [finishes_rules]: "finishes (calm P) (processRxUpdate E p m)"
  unfolding processRxUpdate_def Let_def by (intro finishes_rules)

lemma finishes_processRxUnsubscribe [finishes_rules]:
  "finishes (calm P) (processRxUnsubscribe E p m)"
  unfolding processRxUnsubscribe_def
  by (intro finishes_rules finishes_setPeer) (simp add: chansMade_def)

lemma finishes_resetKeepaliveTimeout [finishes_rules]:
  "finishes (calm P) (resetKeepaliveTimeout p)"
  unfolding resetKeepaliveTimeout_def
  by (intro finishes_rules finishes_setPeer) (simp add: chansMade_def)

lemma finishes_processRxKeepalive [finishes_rules]:
  "p \<in> P \<Longrightarrow> finishes (calm P) (processRxKeepalive E p)"
  unfolding processRxKeepalive_def Let_def by (intro finishes_rules)

text \<open>A reset of an incoming connection closes it and never waits.\<close>

lemma Reset_incoming:
  assumes "calm P w" "p \<in> P" "direction (heap w p) = INCOMING"
  shows "\<exists>w'. Reset E p w = (Returns (), w') \<and> calm P w'"
  using finishesD [OF finishes_Close [OF assms(2)] assms(1), of E]
    finishesD [OF finishes_RemovePeer, of P _ E "remoteAddr (heap w p)"] assms
  by (auto simp: Reset_def GetState_def) fastforce

lemma finishes_processRxHello:
  assumes "p \<in> P" "\<not> helloKeepaliveInterval m < 1"
  shows "finishes (calm P) (processRxHello E p m)"
  unfolding processRxHello_def using assms
  by (simp del: bind_Returns) (intro finishes_rules finishes_setPeer; simp add: chansMade_def)

end
