(* ===== verification/Departure.thy ===== *)
theory Departure
  imports Progress
begin

text \<open>
  What is left of a peer when it goes: \<open>cleanup\<close> (run by \<open>handle\<close> on shutdown) takes every
  route of the peer out of the node's table, and a peer that leaves \<open>ESTABLISHED\<close> or any other
  state for one that is not \<open>ESTABLISHED\<close> is no longer a subscriber of any VNI.
\<close>

section \<open>Tidy nodes\<close>

definition tidy :: "nat set \<Rightarrow> 'c world \<Rightarrow> bool" where
  "tidy P w \<longleftrightarrow> node_ok w \<and> calm P w"

lemma tidyI_finishes:
  assumes "tidy P w" "finishes (calm P) f" "keeps (ok_at {}) f"
  obtains a w' where "f w = (Returns a, w')" "tidy P w'"
proof -
  from assms obtain a w' where run: "f w = (Returns a, w')" "calm P w'"
    by (auto simp: tidy_def elim: finishesE)
  moreover have "node_ok w'"
    using keepsD [OF assms(3), of w] assms(1) run by (simp add: tidy_def)
  ultimately show ?thesis using that by (simp add: tidy_def)
qed

section \<open>Received tables change only by the operations on them\<close>

text \<open>Programs that touch no peer's received table.\<close>

definition received_fixed :: "('c, 'a) go \<Rightarrow> bool" where
  "received_fixed f \<longleftrightarrow> (\<forall>q t. keeps (\<lambda>w. receivedRoutes (heap w q) = t) f)"

lemma received_fixedD: "received_fixed f \<Longrightarrow> receivedRoutes (heap (snd (f w)) q) = receivedRoutes (heap w q)"
  by (simp add: received_fixed_def keeps_def)

lemma received_fixed_rules [keeps_rules]:
  "keeps (\<lambda>w. receivedRoutes (heap w q) = t) (onRouteTable f)"
  "keeps (\<lambda>w. receivedRoutes (heap w q) = t) (onClient g)"
  "keeps (\<lambda>w. receivedRoutes (heap w q) = t) rlockSubscribers"
  "keeps (\<lambda>w. receivedRoutes (heap w q) = t) (sendTx p pkt)"
  by (auto simp: keeps_def state_defs sendTx_def split: option.splits)

lemma received_fixed_removeReceivedRoute: "received_fixed (removeReceivedRoute E p v d h)"
  unfolding received_fixed_def removeReceivedRoute_def distributeRouteToPeers_def Let_def
    SendUpdate_def sendMessage_def
  by (intro allI keeps_rules)

section \<open>The deletion loops\<close>

text \<open>A loop that takes one disjoint part after the other out of a set.\<close>

lemma forReturn_takes:
  assumes body: "\<And>x R s. x \<in> set xs \<Longrightarrow> I R s \<Longrightarrow> X x \<subseteq> R \<Longrightarrow>
      \<exists>s'. f x s = (Returns None, s') \<and> I (R - X x) s'"
    and "distinct xs" "\<And>x y. x \<in> set xs \<Longrightarrow> y \<in> set xs \<Longrightarrow> x \<noteq> y \<Longrightarrow> X x \<inter> X y = {}"
    and "I R s" "\<And>x. x \<in> set xs \<Longrightarrow> X x \<subseteq> R"
  shows "\<exists>s'. forReturn xs f s = (Returns None, s') \<and> I (R - \<Union> (X ` set xs)) s'"
  using assms
proof (induction xs arbitrary: R s)
  case (Cons x xs)
  obtain s1 where s1: "f x s = (Returns None, s1)" "I (R - X x) s1"
    using Cons.prems(1) [of x R s] Cons.prems(4,5) by auto
  have "X y \<subseteq> R - X x" if "y \<in> set xs" for y
    using that Cons.prems(2,3,5) by fastforce
  then have "\<exists>s'. forReturn xs f s1 = (Returns None, s') \<and> I (R - X x - \<Union> (X ` set xs)) s'"
    using Cons.prems s1 by (intro Cons.IH) auto
  with s1 show ?case by (simp add: Diff_Diff_Int Un_commute set_diff_eq)
qed simp

text \<open>The routes of peer \<open>p\<close> that are still to go are \<open>R\<close>.\<close>

definition remaining :: "nat set \<Rightarrow> nat \<Rightarrow> (VNI \<times> Destination \<times> NextHop \<times> peerptr) set \<Rightarrow> 'c world \<Rightarrow> bool"
  where "remaining P p R w \<longleftrightarrow> tidy P w \<and> rt_rel (receivedRoutes (heap w p)) = R"

text \<open>The loop of \<open>cleanup\<close>, its levels named.\<close>

definition dropRoute :: "'c env \<Rightarrow> nat \<Rightarrow> VNI \<Rightarrow> Destination \<Rightarrow> NextHop \<Rightarrow> ('c, unit option) go" where
  "dropRoute E p v d h =
     bind (onReceived p (RemoveNextHop v d h (Some p))) (\<lambda>r. case r of
       Inl e \<Rightarrow> ret (Some ())
     | Inr _ \<Rightarrow> andThen (removeReceivedRoute E p v d h) (ret None))"

definition dropHops :: "'c env \<Rightarrow> nat \<Rightarrow> VNI \<Rightarrow> Destination \<times> NextHop list \<Rightarrow> ('c, unit option) go" where
  "dropHops E p v x = forReturn (snd x) (dropRoute E p v (fst x))"

definition dropVni :: "'c env \<Rightarrow> nat \<Rightarrow> VNI \<Rightarrow> ('c, unit option) go" where
  "dropVni E p v =
     bind (gets (\<lambda>w. GetDestinationsByVNI (receivedRoutes (heap w p)) v)) (\<lambda>ds.
     forReturn ds (dropHops E p v))"

lemma cleanup_levels:
  "cleanup E p =
     bind (gets (\<lambda>w. gkeys (subscribedVNIs (heap w p)))) (\<lambda>subs.
     andThen (forEach subs (\<lambda>vni. mbUnsubscribe E vni))
     (bind (gets (\<lambda>w. GetVNIs (receivedRoutes (heap w p)))) (\<lambda>vnis.
      andThen (forReturn vnis (dropVni E p)) (ret ()))))"
  by (simp add: cleanup_def dropVni_def [abs_def] dropHops_def [abs_def] dropRoute_def [abs_def]
      case_prod_beta')

lemma cleanup_step:
  assumes w: "remaining P p R w" and has: "{(v, d, h, Some p)} \<subseteq> R"
  shows "\<exists>w'. dropRoute E p v d h w = (Returns None, w') \<and>
     remaining P p (R - {(v, d, h, Some p)}) w'" (is "\<exists>w'. ?f w = _ \<and> _")
proof -
  let ?w = "updPeer p (receivedRoutes_update (\<lambda>t. snd (RemoveNextHop v d h (Some p) t))) w"
  have present: "rt_has (receivedRoutes (heap w p)) v d h (Some p)"
    using assms by (auto simp: remaining_def)
  then obtain n where "fst (RemoveNextHop v d h (Some p) (receivedRoutes (heap w p))) = Inr n"
    by (simp add: RemoveNextHop_present)
  then have run: "?f w = andThen (removeReceivedRoute E p v d h) (ret None) ?w"
    by (simp add: dropRoute_def onReceived_def)
  have "finishes (calm P) (andThen (removeReceivedRoute E p v d h) (ret (None :: unit option)))"
    by (intro finishes_rules)
  moreover have "calm P ?w"
    using w by (intro calm_updPeer) (simp_all add: remaining_def tidy_def chansMade_def)
  ultimately obtain r w' where w': "removeReceivedRoute E p v d h ?w = (Returns r, w')" "calm P w'"
    using finishesE [OF finishes_routes(5)] by metis
  have "ok_at {} w'"
    using ok_at_dropBoth [of "{}" w E p v d h] w w' by (simp add: remaining_def tidy_def)
  moreover have "receivedRoutes (heap w' p) = receivedRoutes (heap ?w p)"
    using received_fixedD [OF received_fixed_removeReceivedRoute, of E p v d h ?w p] w' by simp
  ultimately show ?thesis
    using w w' run by (simp add: remaining_def tidy_def rt_rel_RemoveNextHop)
qed

text \<open>The routes that a listing of the VNI has, one part for each destination.\<close>

definition destPart :: "VNI \<Rightarrow> nat \<Rightarrow> Destination \<times> NextHop list \<Rightarrow> (VNI \<times> Destination \<times> NextHop \<times> peerptr) set"
  where "destPart v p x = (\<lambda>h. (v, fst x, h, Some p)) ` set (snd x)"

lemma cleanup_hops:
  fixes E :: "'c env"
  assumes "remaining P p R w" "distinct (snd x)" "destPart v p x \<subseteq> R"
  shows "\<exists>w'. dropHops E p v x w = (Returns None, w') \<and> remaining P p (R - destPart v p x) w'"
proof -
  have "\<exists>w'. forReturn (snd x) (dropRoute E p v (fst x)) w = (Returns None, w') \<and>
      remaining P p (R - \<Union> ((\<lambda>h. {(v, fst x, h, Some p)}) ` set (snd x))) w'"
    by (rule forReturn_takes) (use assms cleanup_step in \<open>auto simp: destPart_def\<close>)
  moreover have "\<Union> ((\<lambda>h. {(v, fst x, h, Some p)}) ` set (snd x)) = destPart v p x"
    by (auto simp: destPart_def)
  ultimately show ?thesis by (simp add: dropHops_def)
qed

lemma listing_parts:
  fixes p :: nat and w :: "'c world"
  assumes "node_ok w"
  defines "t \<equiv> receivedRoutes (heap w p)"
  shows "distinct (GetDestinationsByVNI t v)"
    and "x \<in> set (GetDestinationsByVNI t v) \<Longrightarrow> distinct (snd x)"
    and "x \<in> set (GetDestinationsByVNI t v) \<Longrightarrow> y \<in> set (GetDestinationsByVNI t v) \<Longrightarrow> x \<noteq> y \<Longrightarrow>
      destPart v p x \<inter> destPart v p y = {}"
    and "\<Union> (destPart v p ` set (GetDestinationsByVNI t v)) = {x \<in> rt_rel t. fst x = v}"
proof -
  let ?ds = "GetDestinationsByVNI t v"
  have ok: "rt_ok t" "rt_pruned t" and own: "\<And>v d h q. rt_has t v d h q \<Longrightarrow> q = Some p"
    using assms by (auto simp: node_ok_def peer_ok_def)
  have keys: "distinct (map fst ?ds)"
    using gok_GetDestinationsByVNI [OF ok(1), of v] by (simp add: gok_def gkeys_def)
  then show "distinct ?ds" by (simp add: distinct_map)
  have val: "hs = GetNextHopsByDestination t v d" if "(d, hs) \<in> set ?ds" for d hs
    using that keys GetDestinationsByVNI_hops [of t v d hs] by (simp add: gget_def)
  show "distinct (snd x)" if "x \<in> set ?ds"
  proof -
    have "snd x = GetNextHopsByDestination t v (fst x)" using val that by simp
    then show ?thesis
      using rt_ok_paths(3) [OF ok(1), of v "fst x"]
      by (simp add: GetNextHopsByDestination_def gsub_def gok_def gkeys_def split: option.splits)
  qed
  show "destPart v p x \<inter> destPart v p y = {}" if "x \<in> set ?ds" "y \<in> set ?ds" "x \<noteq> y"
    using that val [of "fst x" "snd x"] val [of "fst y" "snd y"]
    by (auto simp: destPart_def prod_eq_iff)
  show "\<Union> (destPart v p ` set ?ds) = {x \<in> rt_rel t. fst x = v}"
  proof (intro set_eqI iffI)
    fix x assume "x \<in> \<Union> (destPart v p ` set ?ds)"
    then obtain d hs h where "(d, hs) \<in> set ?ds" "h \<in> set hs" "x = (v, d, h, Some p)"
      by (auto simp: destPart_def)
    then have "h \<in> set (GetNextHopsByDestination t v d)" using val by simp
    then obtain q where "rt_has t v d h q"
      using GetNextHopsByDestination_set [OF ok(2)] by auto
    moreover from this have "q = Some p" by (rule own)
    ultimately show "x \<in> {x \<in> rt_rel t. fst x = v}" using \<open>x = _\<close> by simp
  next
    fix x assume "x \<in> {x \<in> rt_rel t. fst x = v}"
    then obtain d h q where "x = (v, d, h, q)" "rt_has t v d h q" by (cases x) auto
    moreover from this have "q = Some p" by (intro own)
    ultimately have x: "x = (v, d, h, Some p)" "rt_has t v d h (Some p)" by simp_all
    then obtain hs where "(d, hs) \<in> set ?ds" "h \<in> set hs"
      by (blast elim: GetDestinationsByVNI_super)
    with x show "x \<in> \<Union> (destPart v p ` set ?ds)" by (force simp: destPart_def)
  qed
qed

lemma cleanup_vni:
  fixes E :: "'c env"
  assumes w: "remaining P p R w"
  shows "\<exists>w'. dropVni E p v w = (Returns None, w') \<and> remaining P p (R - {x \<in> R. fst x = v}) w'"
proof -
  let ?ds = "GetDestinationsByVNI (receivedRoutes (heap w p)) v"
  have ok: "node_ok w" and R: "rt_rel (receivedRoutes (heap w p)) = R"
    using w by (simp_all add: remaining_def tidy_def)
  note parts = listing_parts [OF ok, where p = p and v = v]
  have "\<exists>w'. forReturn ?ds (dropHops E p v) w = (Returns None, w') \<and>
      remaining P p (R - \<Union> (destPart v p ` set ?ds)) w'"
  proof (rule forReturn_takes [where I = "remaining P p"])
    show "destPart v p x \<subseteq> R" if "x \<in> set ?ds" for x
      using that parts(4) R by blast
    show "\<exists>s'. dropHops E p v x w1 = (Returns None, s') \<and> remaining P p (S - destPart v p x) s'"
      if "x \<in> set ?ds" "remaining P p S w1" "destPart v p x \<subseteq> S" for x S w1
      using that parts(2) by (intro cleanup_hops) simp_all
  qed (use parts(1,3) w in auto)
  then show ?thesis using parts(4) R by (simp add: dropVni_def)
qed

lemma cleanup_vnis:
  fixes E :: "'c env"
  assumes w: "remaining P p R w"
  shows "\<exists>w'. forReturn (GetVNIs (receivedRoutes (heap w p))) (dropVni E p) w = (Returns None, w') \<and>
     remaining P p {} w'"
proof -
  let ?vs = "GetVNIs (receivedRoutes (heap w p))"
  let ?X = "\<lambda>v. {x \<in> R. fst x = v}"
  have R: "rt_rel (receivedRoutes (heap w p)) = R" and ok: "peer_ok p (heap w p)"
    using w by (auto simp: remaining_def tidy_def node_ok_def)
  have all: "R - \<Union> (?X ` set ?vs) = {}"
    using R GetVNIs_set [of "receivedRoutes (heap w p)"] ok by (fastforce simp: peer_ok_def)
  have "\<exists>w'. forReturn ?vs (dropVni E p) w = (Returns None, w') \<and>
      (remaining P p (R - \<Union> (?X ` set ?vs)) w' \<and> R - \<Union> (?X ` set ?vs) \<subseteq> R)"
  proof (rule forReturn_takes [where I = "\<lambda>S w. remaining P p S w \<and> S \<subseteq> R"])
    fix v S and w1 :: "'c world"
    assume *: "remaining P p S w1 \<and> S \<subseteq> R" "?X v \<subseteq> S"
    then have "{x \<in> S. fst x = v} = ?X v" by auto
    with * cleanup_vni [of P p S w1 E v]
    show "\<exists>s'. dropVni E p v w1 = (Returns None, s') \<and> remaining P p (S - ?X v) s' \<and> S - ?X v \<subseteq> R"
      by auto
  next
    show "distinct ?vs" using ok by (simp add: peer_ok_def rt_ok_def GetVNIs_def gok_def gkeys_def)
  qed (use w in auto)
  then show ?thesis by (simp add: all)
qed

text \<open>After \<open>cleanup\<close> neither the peer's own table nor the node's has a route of the peer.\<close>

lemma cleanup_run:
  fixes E :: "'c env"
  assumes "tidy P w"
  obtains w' where "cleanup E p w = (Returns (), w')" "tidy P w'"
    "rt_rel (receivedRoutes (heap w' p)) = {}" "\<And>v d h. \<not> rt_has (mbRouteTable w') v d h (Some p)"
proof -
  let ?subs = "gkeys (subscribedVNIs (heap w p))"
  have "finishes (calm P) (forEach ?subs (mbUnsubscribe E))" by (intro finishes_rules)
  moreover have "keeps (ok_at {}) (forEach ?subs (mbUnsubscribe E))" by (intro keeps_rules)
  ultimately obtain a w1 where w1: "forEach ?subs (mbUnsubscribe E) w = (Returns a, w1)" "tidy P w1"
    by (rule tidyI_finishes [OF assms])
  then obtain w' where w': "forReturn (GetVNIs (receivedRoutes (heap w1 p))) (dropVni E p) w1 = (Returns None, w')"
    "remaining P p {} w'"
    using cleanup_vnis [of P p "rt_rel (receivedRoutes (heap w1 p))" w1 E]
    by (auto simp: remaining_def)
  then have "node_ok w'" "rt_rel (receivedRoutes (heap w' p)) = {}" "tidy P w'"
    by (simp_all add: remaining_def tidy_def)
  moreover from this have "\<not> rt_has (mbRouteTable w') v d h (Some p)" for v d h
    by (fastforce simp: node_ok_def table_ok_def rt_rel_def)
  ultimately show ?thesis
    using that w1 w' by (simp add: cleanup_levels)
qed

section \<open>Leaving the subscribers\<close>

definition notSubscribed :: "nat \<Rightarrow> VNI \<Rightarrow> 'c world \<Rightarrow> bool" where
  "notSubscribed p v w \<longleftrightarrow> gget (gsub (subscribers w) v) p = None"

lemma keeps_notSubscribed [keeps_rules]:
  "keeps (notSubscribed p v) (onRouteTable f)"
  "keeps (notSubscribed p v) (onClient g)"
  "keeps (notSubscribed p v) (onReceived q f)"
  "keeps (notSubscribed p v) (sendTx q pkt)"
  "keeps (notSubscribed p v) rlockSubscribers"
  "keeps (notSubscribed p v) lockSubscribers"
  "keeps (notSubscribed p v) unlockSubscribers"
  "keeps (notSubscribed p v) (setPeer q u)"
  "keeps (notSubscribed p v) (modify (\<lambda>w. w\<lparr>subscribers :=
     gput v' (gdel q (gsub (subscribers w) v')) (subscribers w)\<rparr>))"
  by (auto simp: keeps_def notSubscribed_def state_defs sendTx_def split: option.splits)

lemma keeps_notSubscribed_removeReceivedRoute [keeps_rules]:
  "keeps (notSubscribed p v) (removeReceivedRoute E q v' d h)"
  unfolding removeReceivedRoute_def distributeRouteToPeers_def Let_def SendUpdate_def sendMessage_def
  by (intro keeps_rules)

lemma keeps_notSubscribed_removeSubscriber [keeps_rules]:
  "keeps (notSubscribed p v) (removeSubscriber E q v')"
  unfolding removeSubscriber_def by (intro keeps_rules)

lemma removeSubscriber_out:
  fixes E :: "'c env"
  assumes "calm P w"
  obtains r w' where "removeSubscriber E p v w = (Returns r, w')" "calm P w'" "notSubscribed p v w'"
proof (cases "notSubscribed p v w")
  case True
  moreover obtain r w' where "removeSubscriber E p v w = (Returns r, w')" "calm P w'"
    using assms by (rule finishesE [OF finishes_removeSubscriber])
  ultimately show ?thesis
    using that keepsD [OF keeps_notSubscribed_removeSubscriber, of p v w E p v] by simp
next
  case False
  let ?ds = "GetDestinationsByVNI (receivedRoutes (heap w p)) v"
  let ?loop = "forEach ?ds (\<lambda>(dest, nhs). forEach nhs (\<lambda>nh.
      andThen (onReceived p (RemoveNextHop v dest nh (Some p))) (removeReceivedRoute E p v dest nh)))"
  have "finishes (calm P) ?loop" by (intro finishes_rules)
  from finishesD [OF this assms] obtain w1 where w1: "?loop w = (Returns (), w1)" "calm P w1"
    by auto
  from False obtain x y where "gget (subscribers w) v = Some x" "gget x p = Some y"
    by (auto simp: notSubscribed_def gsub_def split: option.splits)
  then have "removeSubscriber E p v w = (Returns None, w1\<lparr>subscribers :=
      gput v (gdel p (gsub (subscribers w1) v)) (subscribers w1), mtxSubscribers := False\<rparr>)" (is "_ = (_, ?w)")
    using assms w1 by (simp add: removeSubscriber_def rlockSubscribers_def lockSubscribers_def
        unlockSubscribers_def calm_def)
  moreover have "calm P ?w" using w1(2) by (auto simp: calm_def split: if_splits)
  ultimately show ?thesis using that by (simp add: notSubscribed_def)
qed

lemma removeSubscribers_out:
  fixes E :: "'c env"
  assumes "calm P w" "\<And>v. v \<notin> set vs \<Longrightarrow> notSubscribed p v w"
  shows "\<exists>w'. forEach vs (removeSubscriber E p) w = (Returns (), w') \<and> calm P w' \<and>
     (\<forall>v. notSubscribed p v w')"
  using assms
proof (induction vs arbitrary: w)
  case (Cons u vs)
  obtain r w1 where w1: "removeSubscriber E p u w = (Returns r, w1)" "calm P w1" "notSubscribed p u w1"
    using Cons.prems(1) by (rule removeSubscriber_out)
  have "notSubscribed p v w1" if "v \<notin> set vs" for v
    using that Cons.prems(2) [of v] w1 keepsD [OF keeps_notSubscribed_removeSubscriber, of p v w E p u]
    by (cases "v = u") auto
  with Cons.IH [of w1] w1 show ?case by simp
qed simp

text \<open>A change to a state other than \<open>ESTABLISHED\<close> takes the peer out of all subscriptions.\<close>

lemma setState_lost:
  fixes E :: "'c env"
  assumes "calm P w" "p \<in> P" "state (heap w p) \<noteq> st" "st \<noteq> ESTABLISHED"
  shows "\<exists>w'. setState E p st w = (Returns (), w') \<and> calm P w' \<and> (\<forall>v. notSubscribed p v w')"
proof -
  let ?w = "updPeer p (\<lambda>x. x\<lparr>state := st\<rparr>) w"
  let ?vs = "filter (\<lambda>v. p \<in> set (gkeys (gsub (subscribers w) v))) (gkeys (subscribers w))"
  have "calm P ?w" using assms(1) by (rule calm_updPeer) (simp add: chansMade_def)
  moreover have "notSubscribed p v ?w" if "v \<notin> set ?vs" for v
    using that by (auto simp: notSubscribed_def gget_in_gkeys gsub_def split: option.splits)
  ultimately obtain w' where "forEach ?vs (removeSubscriber E p) ?w = (Returns (), w')"
    "calm P w'" "\<forall>v. notSubscribed p v w'"
    using removeSubscribers_out [of P ?w ?vs p E] by blast
  with assms \<open>calm P ?w\<close> show ?thesis
    by (simp add: setState_def setPeer_def rlockSubscribers_def calm_def [of P ?w])
qed

end
