(* ===== verification/Machine.thy ===== *)
theory Machine
  imports Departure
begin

text \<open>
  The node as a machine: calls of the exported functions and rounds of the goroutines, in
  any order. A step runs one call, or one round of one goroutine's loop, to its end; the
  code holds the mutexes of the data it touches while it does so. \<open>node\<close> is the state of
  the package, \<open>threads\<close> are the goroutines that are inside their loops. A panic ends the
  program (\<open>crashed\<close>); a goroutine that waits for ever is no longer among the threads.
\<close>

section \<open>Goroutines only for allocated N peers\<close>

primrec peerOf :: "goroutine \<Rightarrow> nat" where
  "peerOf (GoHandle p) = p"
| "peerOf (GoRxLoop p) = p"
| "peerOf (GoTxLoop p) = p"
| "peerOf (GoKeepaliveLoop p) = p"
| "peerOf (GoReset p) = p"

text \<open>\<open>N\<close> peers are allocated, \<open>p\<close> is one of them, and so is the peer of every goroutine that is to start.\<close>

definition allocated :: "nat \<Rightarrow> nat \<Rightarrow> 'c world \<Rightarrow> bool" where
  "allocated N p w \<longleftrightarrow> nextRef w = N \<and> p < N \<and> (\<forall>g \<in> set (spawned w). peerOf g < nextRef w)"

definition spawn_ok :: "'c world \<Rightarrow> bool" where
  "spawn_ok w \<longleftrightarrow> (\<forall>g \<in> set (spawned w). peerOf g < nextRef w)"

text \<open>Programs that start nothing: they keep every predicate on these two fields.\<close>

definition spawn_free :: "('c, 'a) go \<Rightarrow> bool" where
  "spawn_free f \<longleftrightarrow> (\<forall>w. spawned (snd (f w)) = spawned w \<and> nextRef (snd (f w)) = nextRef w)"

named_theorems spawn_rules \<open>programs that start no goroutine\<close>

lemma spawn_freeI: "(\<And>w. spawned (snd (f w)) = spawned w \<and> nextRef (snd (f w)) = nextRef w) \<Longrightarrow> spawn_free f"
  by (simp add: spawn_free_def)

lemma spawn_free_keeps: "spawn_free f \<longleftrightarrow> (\<forall>x. keeps (\<lambda>w. (spawned w, nextRef w) = x) f)"
  by (auto simp: spawn_free_def keeps_def)

lemma spawn_free_basic [spawn_rules]:
  "spawn_free (ret a)" "spawn_free (gets h)" "spawn_free panic" "spawn_free block"
  unfolding spawn_free_keeps by (auto intro: keeps_rules)

lemma spawn_free_bind [spawn_rules]:
  "spawn_free f \<Longrightarrow> (\<And>a. spawn_free (g a)) \<Longrightarrow> spawn_free (bind f g)"
  unfolding spawn_free_keeps by (blast intro: keeps_rules)

lemma spawn_free_andThen [spawn_rules]: "spawn_free f \<Longrightarrow> spawn_free g \<Longrightarrow> spawn_free (andThen f g)"
  by (simp add: andThen_def spawn_free_bind)

lemma spawn_free_loops [spawn_rules]:
  "(\<And>x. spawn_free (f x)) \<Longrightarrow> spawn_free (forEach xs f)"
  "(\<And>x. spawn_free (g x)) \<Longrightarrow> spawn_free (forReturn xs g)"
  unfolding spawn_free_keeps by (blast intro: keeps_rules)+

lemma spawn_free_if [spawn_rules]: "spawn_free f \<Longrightarrow> spawn_free g \<Longrightarrow> spawn_free (if b then f else g)"
  by simp

lemma spawn_free_option [spawn_rules]:
  "spawn_free f \<Longrightarrow> (\<And>a. spawn_free (g a)) \<Longrightarrow> spawn_free (case x of None \<Rightarrow> f | Some a \<Rightarrow> g a)"
  by (simp split: option.split)

lemma spawn_free_sum [spawn_rules]:
  "(\<And>a. spawn_free (f a)) \<Longrightarrow> (\<And>b. spawn_free (g b)) \<Longrightarrow> spawn_free (case x of Inl a \<Rightarrow> f a | Inr b \<Rightarrow> g b)"
  by (simp split: sum.split)

lemma spawn_free_prod [spawn_rules]:
  "(\<And>a b. spawn_free (f a b)) \<Longrightarrow> spawn_free (case x of (a, b) \<Rightarrow> f a b)"
  by (simp split: prod.split)

lemma spawn_free_elementary [spawn_rules]:
  "spawn_free (onRouteTable f)"
  "spawn_free (onAnnouncements f)"
  "spawn_free (onReceived p f)"
  "spawn_free (onClient g)"
  "spawn_free (setPeer p h)"
  "spawn_free lockSubscribers" "spawn_free unlockSubscribers" "spawn_free rlockSubscribers"
  "spawn_free (sendTx p pkt)"
  "spawn_free (signal get upd p)"
  "spawn_free (wgWait p)"
  "spawn_free (GetState p)"
  by (rule spawn_freeI, simp add: state_defs sendTx_def signal_def wgWait_def GetState_def split: option.split)+

lemma spawn_free_modify [spawn_rules]:
  "spawn_free (modify (\<lambda>w. w\<lparr>mySubscriptions := m w\<rparr>))"
  "spawn_free (modify (\<lambda>w. w\<lparr>subscribers := s w\<rparr>))"
  "spawn_free (modify (\<lambda>w. w\<lparr>peers := p w\<rparr>))"
  "spawn_free (modify (\<lambda>w. w\<lparr>shuttingDown := b\<rparr>))"
  "spawn_free (modify (\<lambda>w. w\<lparr>mbIsServer := b\<rparr>))"
  "spawn_free (modify (\<lambda>w. w\<lparr>lis := l\<rparr>))"
  by (simp_all add: spawn_free_def)

lemma spawn_free_peer [spawn_rules]:
  "spawn_free (sendMessage E p msg)" "spawn_free (SendUpdate E p u)"
  "spawn_free (peerSubscribe E p v)" "spawn_free (peerUnsubscribe E p v)"
  unfolding SendUpdate_def peerSubscribe_def peerUnsubscribe_def sendMessage_def
  by (intro spawn_rules)+

lemma spawn_free_distribute [spawn_rules]: "spawn_free (distributeRouteToPeers E a v d h from)"
  unfolding distributeRouteToPeers_def Let_def by (intro spawn_rules)

lemma spawn_free_node [spawn_rules]:
  "spawn_free (mbSubscribe E v)" "spawn_free (mbUnsubscribe E v)"
  "spawn_free (IsRouteAnnounced v d h)" "spawn_free (AnnounceRoute E v d h)"
  "spawn_free (WithdrawRoute E v d h)" "spawn_free (AddRoutesForVni E v)"
  "spawn_free (addReceivedRoute E p v d h)" "spawn_free (removeReceivedRoute E p v d h)"
  unfolding mbSubscribe_def mbUnsubscribe_def IsRouteAnnounced_def AnnounceRoute_def
    WithdrawRoute_def AddRoutesForVni_def readdRoutes_def addReceivedRoute_def removeReceivedRoute_def
  by (intro spawn_rules)+

lemma spawn_free_removeSubscriber [spawn_rules]: "spawn_free (removeSubscriber E p v)"
  unfolding removeSubscriber_def by (intro spawn_rules)

lemma spawn_free_setState [spawn_rules]: "spawn_free (setState E p st)"
  unfolding setState_def announceTo_def by (intro spawn_rules)

lemma spawn_free_Close [spawn_rules]: "spawn_free (Close E p)"
  unfolding Close_def by (intro spawn_rules)

lemma spawn_free_session [spawn_rules]:
  "spawn_free (unsafeRemovePeer E a)" "spawn_free (RemovePeer E a)" "spawn_free (resetBegin E p)"
  "spawn_free (processRxUpdate E p u)" "spawn_free (processRxUnsubscribe E p n)"
  "spawn_free (cleanup E p)" "spawn_free (StartServer b)" "spawn_free (Shutdown E)"
  "spawn_free (resetKeepaliveTimeout p)" "spawn_free (wgAdd p)" "spawn_free (wgDone p)"
  "spawn_free (handleInit p)"
  unfolding unsafeRemovePeer_def RemovePeer_def resetBegin_def processRxUpdate_def
    processRxUnsubscribe_def cleanup_def StartServer_def Shutdown_def resetKeepaliveTimeout_def
    wgAdd_def wgDone_def handleInit_def Let_def
  by (intro spawn_rules)+

text \<open>The others start goroutines of the peer they work for.\<close>

lemma keeps_allocated_free: "spawn_free f \<Longrightarrow> keeps (allocated N p) f"
  by (auto simp: spawn_free_def keeps_def allocated_def)

lemma keeps_allocated_start [keeps_rules]: "peerOf g = p \<Longrightarrow> keeps (allocated N p) (goStart g)"
  by (auto simp: keeps_def allocated_def goStart_def)

text \<open>The parts that start nothing, as rules for this predicate.\<close>

lemma keeps_allocated_parts [keeps_rules]:
  "keeps (allocated N p) (setPeer q u)" "keeps (allocated N p) (setState E q st)"
  "keeps (allocated N p) (sendMessage E q m)" "keeps (allocated N p) (SendUpdate E q upd)"
  "keeps (allocated N p) (Close E q)" "keeps (allocated N p) (RemovePeer E addr)"
  "keeps (allocated N p) (resetBegin E q)" "keeps (allocated N p) (wgDone q)"
  "keeps (allocated N p) (wgAdd q)" "keeps (allocated N p) (resetKeepaliveTimeout q)"
  "keeps (allocated N p) (processRxUpdate E q m')" "keeps (allocated N p) (processRxUnsubscribe E q n)"
  "keeps (allocated N p) (cleanup E q)" "keeps (allocated N p) lockSubscribers"
  "keeps (allocated N p) unlockSubscribers"
  "keeps (allocated N p) (modify (\<lambda>w. w\<lparr>subscribers := s w\<rparr>))"
  by (rule keeps_allocated_free, rule spawn_rules)+

lemma keeps_allocated_Reset [keeps_rules]: "keeps (allocated N p) (Reset E p)"
  unfolding Reset_def resetFinish_def by (intro keeps_rules) simp

lemma keeps_allocated_addSubscriber [keeps_rules]: "keeps (allocated N p) (addSubscriber E p v)"
  unfolding addSubscriber_def by (intro keeps_rules)

lemma keeps_allocated_resetFinish [keeps_rules]: "keeps (allocated N p) (resetFinish E p)"
  unfolding resetFinish_def by (intro keeps_rules) simp

lemma keeps_allocated_handlers [keeps_rules]:
  "keeps (allocated N p) (processRxHello E p m)"
  "keeps (allocated N p) (processRxKeepalive E p)"
  "keeps (allocated N p) (processRxSubscribe E p b)"
  unfolding processRxHello_def processRxKeepalive_def processRxSubscribe_def Let_def
  by (intro keeps_rules; simp)+

lemma keeps_allocated_handleDial [keeps_rules]: "keeps (allocated N p) (handleDial E p r)"
  unfolding handleDial_def by (intro keeps_rules)

lemma keeps_allocated_handleConnected [keeps_rules]: "keeps (allocated N p) (handleConnected E p)"
  unfolding handleConnected_def by (intro keeps_rules; simp)

lemma keeps_allocated_handleSelect [keeps_rules]: "keeps (allocated N p) (handleSelect E p c)"
  unfolding handleSelect_def
  by (cases c; simp; intro keeps_rules)

lemma keeps_allocated_deliver [keeps_rules]: "keeps (allocated N p) (deliver q msg)"
  unfolding deliver_def
  by (cases msg) (auto intro!: keeps_rules split: option.split)

lemma keeps_allocated_rxLoopOnce [keeps_rules]: "keeps (allocated N p) (rxLoopOnce E p buf r)"
  unfolding rxLoopOnce_def by (auto intro!: keeps_rules split: prod.split rxEnd.split)

lemma keeps_allocated_txLoopOnce [keeps_rules]: "keeps (allocated N p) (txLoopOnce p c)"
  unfolding txLoopOnce_def by (auto intro!: keeps_rules split: option.split list.split nat.split)

lemma keeps_allocated_keepalive [keeps_rules]:
  "keeps (allocated N p) (keepaliveInit E p)" "keeps (allocated N p) (keepaliveSelect E p c)"
  unfolding keepaliveInit_def keepaliveSelect_def
  by (auto intro!: keeps_rules split: option.split nat.split keepaliveCase.split)

section \<open>The machine\<close>

text \<open>Where a goroutine is: between two rounds of one of its loops.\<close>

datatype thread =
    Dialling nat                  \<comment> \<open>\<open>handle\<close>, the loop that connects\<close>
  | Connected nat                 \<comment> \<open>\<open>handle\<close>, after that loop\<close>
  | Selecting nat                 \<comment> \<open>\<open>handle\<close>, the \<open>select\<close> loop\<close>
  | Reading nat "byte list"       \<comment> \<open>\<open>rxLoop\<close> with its buffer\<close>
  | Writing nat                   \<comment> \<open>\<open>txLoop\<close>\<close>
  | Ticking nat                   \<comment> \<open>\<open>keepaliveLoop\<close>\<close>
  | ResetWaiting nat              \<comment> \<open>\<open>Reset\<close> of an outgoing connection, at \<open>wg.Wait()\<close>\<close>

primrec peerOfThread :: "thread \<Rightarrow> nat" where
  "peerOfThread (Dialling p) = p"
| "peerOfThread (Connected p) = p"
| "peerOfThread (Selecting p) = p"
| "peerOfThread (Reading p buf) = p"
| "peerOfThread (Writing p) = p"
| "peerOfThread (Ticking p) = p"
| "peerOfThread (ResetWaiting p) = p"

record 'c sys =
  node :: "'c world"
  threads :: "thread list"
  crashed :: bool

text \<open>The exported functions that change the state.\<close>

datatype apiCall =
    CallAddPeer string string string int int int
  | CallRemovePeer string
  | CallSubscribe VNI
  | CallUnsubscribe VNI
  | CallIsRouteAnnounced VNI Destination NextHop
  | CallAnnounceRoute VNI Destination NextHop
  | CallWithdrawRoute VNI Destination NextHop
  | CallAddRoutesForVni VNI
  | CallStartServer bool
  | CallShutdown
  | Accepted "(nat \<times> string) option" string int int int

definition callApi :: "'c env \<Rightarrow> apiCall \<Rightarrow> ('c, unit) go" where
  "callApi E c = (case c of
     CallAddPeer u a ip n1 n2 n3 \<Rightarrow> andThen (AddPeer u a ip n1 n2 n3) (ret ())
   | CallRemovePeer a \<Rightarrow> andThen (RemovePeer E a) (ret ())
   | CallSubscribe v \<Rightarrow> andThen (mbSubscribe E v) (ret ())
   | CallUnsubscribe v \<Rightarrow> andThen (mbUnsubscribe E v) (ret ())
   | CallIsRouteAnnounced v d h \<Rightarrow> andThen (IsRouteAnnounced v d h) (ret ())
   | CallAnnounceRoute v d h \<Rightarrow> andThen (AnnounceRoute E v d h) (ret ())
   | CallWithdrawRoute v d h \<Rightarrow> andThen (WithdrawRoute E v d h) (ret ())
   | CallAddRoutesForVni v \<Rightarrow> andThen (AddRoutesForVni E v) (ret ())
   | CallStartServer b \<Rightarrow> andThen (StartServer b) (ret ())
   | CallShutdown \<Rightarrow> Shutdown E
   | Accepted r u n1 n2 n3 \<Rightarrow> andThen (acceptOnce r u n1 n2 n3) (ret ()))"

text \<open>
  \<open>Reset\<close> as a goroutine of its own: the part up to \<open>wg.Wait()\<close>. \<open>True\<close>: it goes on to wait.
\<close>

definition resetStart :: "'c env \<Rightarrow> nat \<Rightarrow> ('c, bool) go" where
  "resetStart E p =
     bind (GetState p) (\<lambda>st.
     if st = CLOSED then ret False else
     bind (gets (\<lambda>w. heap w p)) (\<lambda>x. case direction x of
       INCOMING \<Rightarrow> andThen (Close E p) (andThen (RemovePeer E (remoteAddr x)) (ret False))
     | OUTGOING \<Rightarrow> andThen (resetBegin E p) (ret True)))"

text \<open>The start of a goroutine, up to its loop: where it is then, if it has not returned.\<close>

definition startThread :: "'c env \<Rightarrow> goroutine \<Rightarrow> ('c, thread list) go" where
  "startThread E g = (case g of
     GoHandle p \<Rightarrow> andThen (handleInit p) (ret [Dialling p])
   | GoRxLoop p \<Rightarrow> andThen (wgAdd p) (ret [Reading p (replicate 65535 0)])
   | GoTxLoop p \<Rightarrow> andThen (wgAdd p) (ret [Writing p])
   | GoKeepaliveLoop p \<Rightarrow> andThen (keepaliveInit E p) (ret [Ticking p])
   | GoReset p \<Rightarrow> bind (resetStart E p) (\<lambda>b. ret (if b then [ResetWaiting p] else [])))"

text \<open>What the environment gives a round: a dial or read result, the case a \<open>select\<close> takes.\<close>

datatype input = InDial dialResult | InCase handleCase | InRead readResult
  | InWrite "bool option" | InKeepalive keepaliveCase | InNone

text \<open>One round of a goroutine: where it is afterwards. An input that does not fit is no round.\<close>

definition runThread :: "'c env \<Rightarrow> thread \<Rightarrow> input \<Rightarrow> ('c, thread list) go" where
  "runThread E t i = (case (t, i) of
     (Dialling p, InDial r) \<Rightarrow> bind (handleDial E p r) (\<lambda>n. ret (case n of
         HandleReturned \<Rightarrow> [] | DialAgain \<Rightarrow> [Dialling p] | DialDone \<Rightarrow> [Connected p]))
   | (Connected p, InNone) \<Rightarrow> andThen (handleConnected E p) (ret [Selecting p])
   | (Selecting p, InCase c) \<Rightarrow> bind (handleSelect E p c) (\<lambda>r.
         ret (if r = Some False then [] else [Selecting p]))
   | (Reading p buf, InRead r) \<Rightarrow> bind (rxLoopOnce E p buf r) (\<lambda>b. ret (case b of
         None \<Rightarrow> [] | Some buf' \<Rightarrow> [Reading p buf']))
   | (Writing p, InWrite c) \<Rightarrow> bind (txLoopOnce p c) (\<lambda>r. ret (case r of
         Some (_, False) \<Rightarrow> [] | _ \<Rightarrow> [Writing p]))
   | (Ticking p, InKeepalive c) \<Rightarrow> bind (keepaliveSelect E p c) (\<lambda>r.
         ret (if r = Some False then [] else [Ticking p]))
   | (ResetWaiting p, InNone) \<Rightarrow> bind (gets (\<lambda>w. wg (heap w p))) (\<lambda>n.
         if n = 0 then andThen (resetFinish E p) (ret []) else ret [ResetWaiting p])
   | _ \<Rightarrow> ret [t])"

datatype event = Api apiCall | Start goroutine | Round thread input

text \<open>Running a program as a step of the machine, with \<open>rest\<close> the other goroutines.\<close>

definition runAs :: "('c, thread list) go \<Rightarrow> 'c world \<Rightarrow> thread list \<Rightarrow> 'c sys" where
  "runAs f w rest = (case f w of
     (Returns ts, w') \<Rightarrow> \<lparr>node = w', threads = ts @ rest, crashed = False\<rparr>
   | (Panics, w') \<Rightarrow> \<lparr>node = w', threads = [], crashed = True\<rparr>
   | (Blocks, w') \<Rightarrow> \<lparr>node = w', threads = rest, crashed = False\<rparr>)"

definition exec :: "'c env \<Rightarrow> event \<Rightarrow> 'c sys \<Rightarrow> 'c sys" where
  "exec E e s =
     (if crashed s then s else case e of
        Api c \<Rightarrow> runAs (andThen (callApi E c) (ret [])) (node s) (threads s)
      | Start g \<Rightarrow>
          if g \<in> set (spawned (node s))
          then runAs (startThread E g) ((node s)\<lparr>spawned := remove1 g (spawned (node s))\<rparr>) (threads s)
          else s
      | Round t i \<Rightarrow>
          if t \<in> set (threads s) then runAs (runThread E t i) (node s) (remove1 t (threads s)) else s)"

text \<open>Memory that no peer has been allocated in: all fields have their zero values.\<close>

definition noPeer :: metalBondPeer where
  "noPeer = \<lparr>conn = None, peerId = [], remoteAddr = [], localIP = [], localAddr = [],
     direction = INCOMING, peerIsServer = False, state = CONNECTING,
     receivedRoutes = newRouteTable, subscribedVNIs = [],
     peerKeepalive = 0, keepaliveTimer = None,
     shutdown = None, keepaliveStop = None, txChanClose = None, txChan = None,
     rxHello = None, rxKeepalive = None, rxSubscribe = None, rxUnsubscribe = None,
     rxUpdate = None, wg = 0,
     txChanCapacity = 0, rxChanEventCapacity = 0, rxChanDataUpdateCapacity = 0\<rparr>"

definition initWorld :: "Config \<Rightarrow> 'c \<Rightarrow> 'c world" where
  "initWorld cfg cl =
     World.MetalBond.extend (NewMetalBond cfg cl) \<lparr>heap = \<lambda>_. noPeer, nextRef = 0, spawned = []\<rparr>"

definition initSys :: "Config \<Rightarrow> 'c \<Rightarrow> 'c sys" where
  "initSys cfg cl = \<lparr>node = initWorld cfg cl, threads = [], crashed = False\<rparr>"

text \<open>The states the program can be in after \<open>NewMetalBond\<close>.\<close>

inductive reachable :: "'c env \<Rightarrow> Config \<Rightarrow> 'c \<Rightarrow> 'c sys \<Rightarrow> bool" for E cfg cl where
  reachable_init: "reachable E cfg cl (initSys cfg cl)"
| reachable_exec: "reachable E cfg cl s \<Longrightarrow> reachable E cfg cl (exec E e s)"

section \<open>The invariant of the machine\<close>

text \<open>A machine and an invariant of its steps; what holds at the start holds after every run.\<close>

locale machine =
  fixes run1 :: "'e \<Rightarrow> 's \<Rightarrow> 's" and inv :: "'s \<Rightarrow> bool"
  assumes inv_run1: "inv s \<Longrightarrow> inv (run1 e s)"
begin

lemma inv_runs: "inv s \<Longrightarrow> inv (fold run1 es s)"
  by (induction es arbitrary: s) (auto simp: inv_run1)

end

definition sys_ok :: "'c sys \<Rightarrow> bool" where
  "sys_ok s \<longleftrightarrow> node_ok (node s) \<and> spawn_ok (node s) \<and>
     (\<forall>t \<in> set (threads s). peerOfThread t < nextRef (node s))"

lemma allocated_spawn_ok: "allocated N p w \<longleftrightarrow> nextRef w = N \<and> p < N \<and> spawn_ok w"
  by (auto simp: allocated_def spawn_ok_def)

text \<open>A program for peer \<open>p\<close> whose results are threads of \<open>p\<close>.\<close>

definition for_peer :: "nat \<Rightarrow> ('c, thread list) go \<Rightarrow> bool" where
  "for_peer p f \<longleftrightarrow> (\<forall>N. keeps (allocated N p) f) \<and>
     (\<forall>w ts w'. f w = (Returns ts, w') \<longrightarrow> (\<forall>t \<in> set ts. peerOfThread t = p))"

lemma runAs_ok:
  assumes f: "for_peer p f" and p: "p < nextRef w" "spawn_ok w" and ok: "node_ok (snd (f w))"
    and rest: "\<forall>t \<in> set rest. peerOfThread t < nextRef w"
  shows "sys_ok (runAs f w rest)"
proof -
  have "keeps (allocated (nextRef w) p) f" using f by (simp add: for_peer_def)
  moreover have "allocated (nextRef w) p w" using p by (simp add: allocated_spawn_ok)
  ultimately have "allocated (nextRef w) p (snd (f w))" by (rule keepsD)
  moreover have "peerOfThread t < nextRef w" if "f w = (Returns ts, w')" "t \<in> set ts" for ts w' t
  proof -
    have "\<forall>t \<in> set ts. peerOfThread t = p" using f that(1) unfolding for_peer_def by blast
    with that(2) p(1) show ?thesis by simp
  qed
  ultimately show ?thesis
    using ok rest by (auto simp: runAs_def sys_ok_def allocated_spawn_ok split: prod.splits outcome.splits)
qed

text \<open>Results of the programs that start or continue a goroutine.\<close>

lemma returns_bind_ret:
  "bind f (\<lambda>a. ret (g a)) w = (Returns b, w') \<Longrightarrow> \<exists>a. b = g a"
  by (auto simp: bind_def split: prod.splits outcome.splits)

lemma returns_andThen_ret: "andThen f (ret b) w = (Returns b', w') \<Longrightarrow> b' = b"
  by (auto simp: andThen_def bind_def split: prod.splits outcome.splits)

lemma keeps_allocated_resetStart [keeps_rules]: "keeps (allocated N p) (resetStart E p)"
  unfolding resetStart_def by (intro keeps_rules)

lemma for_peer_bind:
  assumes "\<And>N. keeps (allocated N p) f" "\<And>a t. t \<in> set (g a) \<Longrightarrow> peerOfThread t = p"
  shows "for_peer p (bind f (\<lambda>a. ret (g a)))"
  using assms unfolding for_peer_def by (auto intro!: keeps_rules dest!: returns_bind_ret)

lemma for_peer_andThen:
  assumes "\<And>N. keeps (allocated N p) f" "\<And>t. t \<in> set ts \<Longrightarrow> peerOfThread t = p"
  shows "for_peer p (andThen f (ret ts))"
  using assms unfolding for_peer_def by (auto intro!: keeps_rules dest!: returns_andThen_ret)

lemma for_peer_startThread: "for_peer (peerOf g) (startThread E g)"
  unfolding startThread_def
  by (cases g)
    (auto intro!: for_peer_bind for_peer_andThen keeps_rules keeps_allocated_free [OF spawn_free_session(12)])

lemma for_peer_resetWaiting:
  "for_peer p (bind (gets (\<lambda>w. wg (heap w p))) (\<lambda>n.
     if n = 0 then andThen (resetFinish E p) (ret []) else ret [ResetWaiting p]))"
  unfolding for_peer_def
  by (auto intro!: keeps_rules dest!: returns_andThen_ret split: if_splits)

lemma for_peer_ret: "(\<And>t. t \<in> set ts \<Longrightarrow> peerOfThread t = p) \<Longrightarrow> for_peer p (ret ts)"
  by (auto simp: for_peer_def intro: keeps_rules)

lemma for_peer_runThread: "for_peer (peerOfThread t) (runThread E t i)"
  unfolding runThread_def
  by (cases t; cases i)
    (auto intro!: for_peer_bind for_peer_andThen for_peer_ret for_peer_resetWaiting keeps_rules
      split: dialNext.splits option.splits bool.splits if_splits)

subsection \<open>Every step keeps the invariant\<close>

lemma keeps_node_startThread:
  assumes ok: "node_ok w" and p: "peerOf g < nextRef w"
  shows "node_ok (snd (startThread E g w))"
proof (cases g)
  case (GoHandle p)
  have "ok_at {} (snd (handleInit p w))" using ok p GoHandle by (intro ok_at_handleInit) simp_all
  then have "node_ok (snd (handleInit p w))" by simp
  then show ?thesis
    by (auto simp: startThread_def GoHandle andThen_def bind_def split: prod.split outcome.split)
next
  case (GoReset p)
  have "keeps (ok_at {}) (startThread E g)"
    unfolding startThread_def resetStart_def GoReset by (auto intro!: keeps_rules)
  then show ?thesis using keepsD [of "ok_at {}" "startThread E g" w] ok by simp
qed (use keepsD [of "ok_at {}" "startThread E g" w] ok in
    \<open>auto simp: startThread_def intro!: keeps_rules\<close>)

lemma keeps_node_runThread: "keeps (ok_at {}) (runThread E t i)"
  unfolding runThread_def by (cases t; cases i) (auto intro!: keeps_rules)

lemma keeps_node_callApi: "keeps (ok_at {}) (callApi E c)"
  unfolding callApi_def by (cases c) (auto intro!: keeps_rules)

text \<open>A call only adds peers, and goroutines for them.\<close>

definition grows :: "('c, 'a) go \<Rightarrow> bool" where
  "grows f \<longleftrightarrow> (\<forall>w. nextRef w \<le> nextRef (snd (f w)) \<and> (spawn_ok w \<longrightarrow> spawn_ok (snd (f w))))"

lemma grows_free: "spawn_free f \<Longrightarrow> grows f"
  by (simp add: spawn_free_def grows_def spawn_ok_def)

lemma grows_andThen_ret: "grows f \<Longrightarrow> grows (andThen f (ret a))"
proof -
  assume f: "grows f"
  have "nextRef w \<le> nextRef (snd (andThen f (ret a) w)) \<and>
      (spawn_ok w \<longrightarrow> spawn_ok (snd (andThen f (ret a) w)))" for w
  proof -
    have "nextRef w \<le> nextRef (snd (f w)) \<and> (spawn_ok w \<longrightarrow> spawn_ok (snd (f w)))"
      using f by (simp add: grows_def)
    moreover have "snd (andThen f (ret a) w) = snd (f w)"
      by (simp add: andThen_def bind_def split: prod.split outcome.split)
    ultimately show ?thesis by simp
  qed
  then show ?thesis by (simp add: grows_def)
qed

lemma grows_newPeer: "grows (bind (gets mbKeepalive) (\<lambda>ka.
     bind (newMetalBondPeer c u a ip n1 n2 n3 ka dir) (\<lambda>p.
     andThen (modify (\<lambda>w. w\<lparr>peers := gput a p (peers w)\<rparr>)) (ret b))))"
  by (auto simp: grows_def newMetalBondPeer_def Let_def spawn_ok_def)

lemma grows_if_gets:
  "(\<And>a. grows (g a)) \<Longrightarrow> grows (bind (gets h) g)"
  by (simp add: grows_def)

lemma grows_AddPeer: "grows (AddPeer u a ip n1 n2 n3)"
  unfolding AddPeer_def
  by (rule grows_if_gets) (auto intro: grows_newPeer grows_free spawn_rules)

lemma grows_acceptOnce: "grows (acceptOnce r u n1 n2 n3)"
  unfolding acceptOnce_def
  by (rule grows_if_gets) (auto intro: grows_newPeer grows_free spawn_rules split: option.split)

lemma grows_callApi: "grows (callApi E c)"
  unfolding callApi_def
  by (cases c)
    (simp_all add: grows_andThen_ret grows_AddPeer grows_acceptOnce grows_free spawn_rules)

lemma sys_ok_api:
  assumes "sys_ok s"
  shows "sys_ok (runAs (andThen (callApi E c) (ret [])) (node s) (threads s))"
proof -
  let ?f = "andThen (callApi E c) (ret ([] :: thread list))"
  have "grows ?f" by (rule grows_andThen_ret [OF grows_callApi])
  then have "nextRef (node s) \<le> nextRef (snd (?f (node s)))" "spawn_ok (snd (?f (node s)))"
    using assms by (auto simp: grows_def sys_ok_def)
  moreover have "node_ok (snd (?f (node s)))"
    using assms keepsD [of "ok_at {}" ?f "node s"]
    by (auto simp: sys_ok_def intro!: keeps_rules keeps_node_callApi)
  moreover have "ts = []" if "?f (node s) = (Returns ts, w')" for ts w'
    using returns_andThen_ret [OF that] .
  ultimately show ?thesis
    using assms by (fastforce simp: runAs_def sys_ok_def split: prod.split outcome.split)
qed

lemma sys_ok_start:
  assumes "sys_ok s" "g \<in> set (spawned (node s))"
  shows "sys_ok (runAs (startThread E g) ((node s)\<lparr>spawned := remove1 g (spawned (node s))\<rparr>) (threads s))"
proof (rule runAs_ok [OF for_peer_startThread])
  let ?w = "(node s)\<lparr>spawned := remove1 g (spawned (node s))\<rparr>"
  have "ok_at {} ?w" using assms by (simp add: sys_ok_def ok_defs)
  then show "node_ok (snd (startThread E g ?w))"
    using assms by (intro keeps_node_startThread) (auto simp: sys_ok_def spawn_ok_def)
  show "peerOf g < nextRef ?w" "spawn_ok ?w" "\<forall>t \<in> set (threads s). peerOfThread t < nextRef ?w"
    using assms by (auto simp: sys_ok_def spawn_ok_def dest: notin_set_remove1)
qed

lemma sys_ok_round:
  assumes "sys_ok s" "t \<in> set (threads s)"
  shows "sys_ok (runAs (runThread E t i) (node s) (remove1 t (threads s)))"
proof (rule runAs_ok [OF for_peer_runThread])
  show "node_ok (snd (runThread E t i (node s)))"
    using keepsD [OF keeps_node_runThread, of "node s"] assms by (simp add: sys_ok_def)
  show "peerOfThread t < nextRef (node s)" "spawn_ok (node s)"
    "\<forall>t \<in> set (remove1 t (threads s)). peerOfThread t < nextRef (node s)"
    using assms by (auto simp: sys_ok_def dest: notin_set_remove1)
qed

lemma sys_ok_exec: "sys_ok s \<Longrightarrow> sys_ok (exec E e s)"
  by (cases e) (simp_all add: exec_def sys_ok_api sys_ok_start sys_ok_round)

interpretation nodeMachine: machine "exec E" sys_ok for E
  by unfold_locales (rule sys_ok_exec)

lemma sys_ok_init: "sys_ok (initSys cfg cl)"
  by (simp add: sys_ok_def initSys_def initWorld_def NewMetalBond_def Let_def node_ok_def maps_ok_def
      table_ok_def refs_ok_def peer_ok_def noPeer_def spawn_ok_def World.MetalBond.extend_def
      newRouteTable_def rt_ok_def rt_pruned_def rt_rel_def rt_has_def peersOf_def)

lemma reachable_runs: "reachable E cfg cl s \<longleftrightarrow> (\<exists>es. s = fold (exec E) es (initSys cfg cl))"
proof
  show "\<exists>es. s = fold (exec E) es (initSys cfg cl)" if "reachable E cfg cl s"
    using that
  proof induction
    case reachable_init
    then show ?case by (rule exI [of _ "[]"]) simp
  next
    case (reachable_exec s e)
    then obtain es where "s = fold (exec E) es (initSys cfg cl)" by blast
    then show ?case by (intro exI [of _ "es @ [e]"]) simp
  qed
  show "reachable E cfg cl s" if "\<exists>es. s = fold (exec E) es (initSys cfg cl)"
  proof -
    from that obtain es where "s = fold (exec E) es (initSys cfg cl)" by blast
    then show ?thesis
      by (induction es arbitrary: s rule: rev_induct) (auto intro: reachable.intros)
  qed
qed

lemma sys_ok_reachable: "reachable E cfg cl s \<Longrightarrow> sys_ok s"
  by (auto simp: reachable_runs intro!: nodeMachine.inv_runs sys_ok_init)

end
