(* ===== verification/ProtoWire.thy ===== *)
theory ProtoWire
  imports Wire "HOL-Library.Code_Target_Nat"
begin

text \<open>
  The messages of \<open>src/pb/metalbond.proto\<close> in the proto3 wire format: base-128 varints,
  length-delimited fields, scalar fields left out when they have their default, the last
  occurrence of a field winning, unknown fields skipped. It is an instance of the
  \<open>codec\<close> parameter, which shows that the laws of \<open>proto_codec\<close> can hold, and the one the
  concrete examples are computed with. The theorems about the package hold for every
  codec with these laws.
\<close>

section \<open>Varints\<close>

function varint :: "nat \<Rightarrow> byte list" where
  "varint n = (if n < 128 then [word_of_nat n] else word_of_nat (n mod 128 + 128) # varint (n div 128))"
  by pat_completeness auto
termination
  by (relation "measure id") auto

declare varint.simps [simp del]

primrec readVarint :: "byte list \<Rightarrow> (nat \<times> byte list) option" where
  "readVarint [] = None"
| "readVarint (b # bs) =
     (if unat b < 128 then Some (unat b, bs)
      else map_option (\<lambda>(n, r). (unat b - 128 + 128 * n, r)) (readVarint bs))"

lemma readVarint_varint [simp]: "readVarint (varint n @ r) = Some (n, r)"
proof (induction n rule: varint.induct)
  case (1 n)
  show ?case
  proof (cases "n < 128")
    case True
    then show ?thesis by (simp add: varint.simps [of n] unat_of_nat)
  next
    case False
    have "unat (word_of_nat (n mod 128 + 128) :: byte) = n mod 128 + 128"
      by (rule unat_byte_of_nat) (use mod_less_divisor [of 128 n] in linarith)
    moreover have "n mod 128 + 128 * (n div 128) = n" by simp
    ultimately show ?thesis using False 1 by (simp add: varint.simps [of n])
  qed
qed

lemma readVarint_shorter: "readVarint bs = Some (n, r) \<Longrightarrow> length r < length bs"
  by (induction bs arbitrary: n r) (fastforce split: if_splits)+

lemma varint_not_Nil [simp]: "varint n \<noteq> []"
  by (simp add: varint.simps [of n])

section \<open>Fields\<close>

datatype field = VarintF nat nat | BytesF nat "byte list" | FixedF nat "byte list"

definition encField :: "field \<Rightarrow> byte list" where
  "encField f = (case f of
     VarintF k v \<Rightarrow> varint (8 * k) @ varint v
   | BytesF k bs \<Rightarrow> varint (8 * k + 2) @ varint (length bs) @ bs
   | FixedF k bs \<Rightarrow> varint (8 * k + (if length bs = 8 then 1 else 5)) @ bs)"

definition encFields :: "field list \<Rightarrow> byte list" where
  "encFields fs = concat (map encField fs)"

text \<open>\<open>n\<close> bytes, and what follows them.\<close>

definition takeBytes :: "nat \<Rightarrow> byte list \<Rightarrow> (byte list \<times> byte list) option" where
  "takeBytes n bs = (if length bs < n then None else Some (take n bs, drop n bs))"

definition readField :: "byte list \<Rightarrow> (field \<times> byte list) option" where
  "readField bs = (case readVarint bs of
     None \<Rightarrow> None
   | Some (tag, r) \<Rightarrow>
       (let k = tag div 8; t = tag mod 8 in
        if t = 0 then map_option (\<lambda>(v, r). (VarintF k v, r)) (readVarint r)
        else if t = 2 then
          (case readVarint r of
             None \<Rightarrow> None
           | Some (n, r) \<Rightarrow> map_option (\<lambda>(x, r). (BytesF k x, r)) (takeBytes n r))
        else if t = 1 then map_option (\<lambda>(x, r). (FixedF k x, r)) (takeBytes 8 r)
        else if t = 5 then map_option (\<lambda>(x, r). (FixedF k x, r)) (takeBytes 4 r)
        else None))"

lemma takeBytes_shorter: "takeBytes n bs = Some (x, r) \<Longrightarrow> length r \<le> length bs"
  by (auto simp: takeBytes_def split: if_splits)

lemma readField_shorter: "readField bs = Some (f, r) \<Longrightarrow> length r < length bs"
  by (auto simp: readField_def Let_def dest!: readVarint_shorter takeBytes_shorter
      split: option.splits if_splits)

function readFields :: "byte list \<Rightarrow> field list option" where
  "readFields bs = (if bs = [] then Some [] else case readField bs of
     None \<Rightarrow> None
   | Some (f, r) \<Rightarrow> map_option (Cons f) (readFields r))"
  by pat_completeness auto
termination
  by (relation "measure length") (auto dest: readField_shorter)

declare readFields.simps [simp del]

text \<open>The messages use varint and length-delimited fields only.\<close>

definition plainField :: "field \<Rightarrow> bool" where
  "plainField f = (case f of FixedF _ _ \<Rightarrow> False | _ \<Rightarrow> True)"

lemma readField_encField:
  assumes "plainField f"
  shows "readField (encField f @ r) = Some (f, r)"
proof (cases f)
  case (VarintF k v)
  then show ?thesis by (simp add: readField_def encField_def)
next
  case (BytesF k bs)
  have "(8 * k + 2) div 8 = k" "(8 * k + 2) mod 8 = 2" by presburger+
  then show ?thesis by (simp add: BytesF readField_def encField_def Let_def takeBytes_def)
next
  case (FixedF k bs)
  then show ?thesis using assms by (simp add: plainField_def)
qed

lemma encField_not_Nil [simp]: "encField f \<noteq> []"
  by (simp add: encField_def split: field.split)

lemma readFields_encFields: "list_all plainField fs \<Longrightarrow> readFields (encFields fs) = Some fs"
proof (induction fs)
  case Nil
  then show ?case by (simp add: encFields_def readFields.simps)
next
  case (Cons f fs)
  then show ?case
    by (subst readFields.simps) (simp add: encFields_def readField_encField)
qed

section \<open>Messages\<close>

definition varintField :: "nat \<Rightarrow> nat \<Rightarrow> field list" where
  "varintField k v = (if v = 0 then [] else [VarintF k v])"

definition bytesField :: "nat \<Rightarrow> byte list \<Rightarrow> field list" where
  "bytesField k bs = (if bs = [] then [] else [BytesF k bs])"

text \<open>An \<open>int32\<close> enumeration is written sign-extended to 64 bits.\<close>

definition enumField :: "nat \<Rightarrow> 32 word \<Rightarrow> field list" where
  "enumField k x = varintField k (unat (scast x :: 64 word))"

definition messageField :: "nat \<Rightarrow> byte list option \<Rightarrow> field list" where
  "messageField k m = (case m of None \<Rightarrow> [] | Some bs \<Rightarrow> [BytesF k bs])"

definition getVarint :: "nat \<Rightarrow> field list \<Rightarrow> nat" where
  "getVarint k fs = foldl (\<lambda>a f. case f of VarintF i v \<Rightarrow> if i = k then v else a | _ \<Rightarrow> a) 0 fs"

definition getMessage :: "nat \<Rightarrow> field list \<Rightarrow> byte list option" where
  "getMessage k fs = foldl (\<lambda>a f. case f of BytesF i x \<Rightarrow> if i = k then Some x else a | _ \<Rightarrow> a) None fs"

definition getBytes :: "nat \<Rightarrow> field list \<Rightarrow> byte list" where
  "getBytes k fs = (case getMessage k fs of None \<Rightarrow> [] | Some x \<Rightarrow> x)"

definition helloFields :: "pbHello \<Rightarrow> field list" where
  "helloFields x = varintField 1 (unat (pbKeepaliveInterval x)) @
     varintField 2 (if pbIsServer x then 1 else 0)"

definition helloOf :: "field list \<Rightarrow> pbHello" where
  "helloOf fs = \<lparr>pbKeepaliveInterval = word_of_nat (getVarint 1 fs), pbIsServer = (getVarint 2 fs \<noteq> 0)\<rparr>"

definition subscriptionFields :: "pbSubscription \<Rightarrow> field list" where
  "subscriptionFields x = varintField 1 (unat (pbVni x))"

definition subscriptionOf :: "field list \<Rightarrow> pbSubscription" where
  "subscriptionOf fs = \<lparr>pbVni = word_of_nat (getVarint 1 fs)\<rparr>"

definition destinationFields :: "pbDestination \<Rightarrow> field list" where
  "destinationFields x = enumField 1 (pbIpVersion x) @ bytesField 2 (pbPrefix x) @
     varintField 3 (unat (pbPrefixLength x))"

definition destinationOf :: "field list \<Rightarrow> pbDestination" where
  "destinationOf fs = \<lparr>pbIpVersion = word_of_nat (getVarint 1 fs), pbPrefix = getBytes 2 fs,
     pbPrefixLength = word_of_nat (getVarint 3 fs)\<rparr>"

definition nextHopFields :: "pbNextHop \<Rightarrow> field list" where
  "nextHopFields x = bytesField 1 (pbTargetAddress x) @ varintField 2 (unat (pbTargetVNI x)) @
     enumField 3 (pbType x) @ varintField 4 (unat (pbNatPortRangeFrom x)) @
     varintField 5 (unat (pbNatPortRangeTo x))"

definition nextHopOf :: "field list \<Rightarrow> pbNextHop" where
  "nextHopOf fs = \<lparr>pbTargetAddress = getBytes 1 fs, pbTargetVNI = word_of_nat (getVarint 2 fs),
     pbType = word_of_nat (getVarint 3 fs), pbNatPortRangeFrom = word_of_nat (getVarint 4 fs),
     pbNatPortRangeTo = word_of_nat (getVarint 5 fs)\<rparr>"

definition updateFields :: "pbUpdate \<Rightarrow> field list" where
  "updateFields x = enumField 1 (pbAction x) @ varintField 2 (unat (pbUpdateVni x)) @
     messageField 3 (map_option (encFields \<circ> destinationFields) (pbDest x)) @
     messageField 4 (map_option (encFields \<circ> nextHopFields) (pbHop x))"

text \<open>A nested message that cannot be read makes the whole message unreadable.\<close>

definition nested :: "(field list \<Rightarrow> 'm) \<Rightarrow> byte list option \<Rightarrow> 'm option option" where
  "nested f m = (case m of
     None \<Rightarrow> Some None
   | Some bs \<Rightarrow> map_option (\<lambda>fs. Some (f fs)) (readFields bs))"

definition updateOf :: "field list \<Rightarrow> pbUpdate option" where
  "updateOf fs = (case (nested destinationOf (getMessage 3 fs), nested nextHopOf (getMessage 4 fs)) of
     (Some d, Some h) \<Rightarrow> Some \<lparr>pbAction = word_of_nat (getVarint 1 fs),
       pbUpdateVni = word_of_nat (getVarint 2 fs), pbDest = d, pbHop = h\<rparr>
   | _ \<Rightarrow> None)"

definition protoCodec :: codec where
  "protoCodec =
     \<lparr>marshalHello = \<lambda>x. Some (encFields (helloFields x)),
      unmarshalHello = \<lambda>bs. map_option helloOf (readFields bs),
      marshalSubscription = \<lambda>x. Some (encFields (subscriptionFields x)),
      unmarshalSubscription = \<lambda>bs. map_option subscriptionOf (readFields bs),
      marshalUpdate = \<lambda>x. Some (encFields (updateFields x)),
      unmarshalUpdate = \<lambda>bs. Option.bind (readFields bs) updateOf\<rparr>"

section \<open>What was written is read\<close>

lemma plain_fields [simp]:
  "list_all plainField (varintField k v)"
  "list_all plainField (bytesField k bs)"
  "list_all plainField (enumField k x)"
  "list_all plainField (messageField k m)"
  by (simp_all add: varintField_def bytesField_def enumField_def messageField_def plainField_def
      split: option.split)

lemma plain_messages [simp]:
  "list_all plainField (helloFields h)"
  "list_all plainField (subscriptionFields s)"
  "list_all plainField (destinationFields d)"
  "list_all plainField (nextHopFields n)"
  "list_all plainField (updateFields u)"
  by (simp_all add: helloFields_def subscriptionFields_def destinationFields_def nextHopFields_def
      updateFields_def)

lemma enum_low: "(ucast (scast x :: 64 word) :: 32 word) = x"
  by (rule bit_word_eqI) (auto simp: bit_simps)

lemma enum_zero: "(scast (x :: 32 word) :: 64 word) = 0 \<longleftrightarrow> x = 0"
proof
  assume "(scast x :: 64 word) = 0"
  then show "x = 0" using enum_low [of x] by simp
qed simp

lemmas field_defs = varintField_def bytesField_def enumField_def messageField_def
  getVarint_def getMessage_def getBytes_def

lemma helloOf_fields: "helloOf (helloFields x) = x"
  by (cases x) (simp add: helloOf_def helloFields_def field_defs unat_eq_zero)

lemma subscriptionOf_fields: "subscriptionOf (subscriptionFields x) = x"
  by (cases x) (simp add: subscriptionOf_def subscriptionFields_def field_defs unat_eq_zero)

lemma destinationOf_fields: "destinationOf (destinationFields x) = x"
  by (cases x) (simp add: destinationOf_def destinationFields_def field_defs enum_low enum_zero
      unat_eq_zero)

lemma nextHopOf_fields: "nextHopOf (nextHopFields x) = x"
  by (cases x) (simp add: nextHopOf_def nextHopFields_def field_defs enum_low enum_zero
      unat_eq_zero)

lemma updateOf_fields: "updateOf (updateFields x) = Some x"
proof -
  have "getVarint 1 (updateFields x) = unat (scast (pbAction x) :: 64 word)"
    "getVarint 2 (updateFields x) = unat (pbUpdateVni x)"
    "getMessage 3 (updateFields x) = map_option (encFields \<circ> destinationFields) (pbDest x)"
    "getMessage 4 (updateFields x) = map_option (encFields \<circ> nextHopFields) (pbHop x)"
    by (simp_all add: updateFields_def field_defs split: option.split)
  then show ?thesis
    by (cases x; cases "pbDest x"; cases "pbHop x")
      (simp_all add: updateOf_def nested_def readFields_encFields destinationOf_fields
        nextHopOf_fields enum_low)
qed

interpretation pw: proto_codec protoCodec
  by unfold_locales
    (auto simp: protoCodec_def readFields_encFields helloOf_fields subscriptionOf_fields
      updateOf_fields)

section \<open>Properties of messages and packets\<close>

definition exUpdate :: msgUpdate where
  "exUpdate = \<lparr>updAction = ADD, updVNI = 7,
     updDestination = \<lparr>destIPVersion = IPV4, destPrefix = PrefixFrom (Addr4 0x0A000000) 24\<rparr>,
     updNextHop = \<lparr>TargetAddress = Addr6 0xFD000000000000000000000000000001 [], TargetVNI = 7,
       nhType = NextHopType_NAT, NATPortRangeFrom = 1024, NATPortRangeTo = 2048\<rparr>\<rparr>"

lemma protoCodec_laws: "proto_codec protoCodec"
  by (rule pw.proto_codec_axioms)

text \<open>
  C8. With a protobuf library that reads back what it wrote, every update the
  protocol can carry (known action and IP version, addresses without zone, NAT ports on
  NAT hops only) that serializes is deserialized by the receiver to the same update.
\<close>

theorem update_roundtrip:
  assumes "proto_codec C" "update_ok m" "serializeUpdate C m = Inr bs"
  shows "deserializeUpdateMsg C bs = Returns (Inr m)"
  using proto_codec.update_trip [OF assms(1,3,2)] .

theorem update_roundtrip_witness:
  "proto_codec protoCodec \<and> update_ok exUpdate \<and>
     (\<exists>bs. serializeUpdate protoCodec exUpdate = Inr bs \<and>
        deserializeUpdateMsg protoCodec bs = Returns (Inr exUpdate))"
proof -
  have ok: "update_ok exUpdate" by code_simp
  have "\<not> isl (serializeUpdate protoCodec exUpdate)" by code_simp
  then obtain bs where "serializeUpdate protoCodec exUpdate = Inr bs"
    by (cases "serializeUpdate protoCodec exUpdate") auto
  with update_roundtrip [OF protoCodec_laws ok] protoCodec_laws ok show ?thesis by blast
qed

text \<open>
  C7. A read that returns exactly the bytes of a non-empty list of messages, fewer
  than the buffer holds, is parsed into these messages in order (a HELLO without its
  \<open>IsServer\<close>), whatever earlier reads left in the buffer, and the loop reads on.
\<close>

theorem stream_roundtrip:
  assumes "proto_codec C" "encodeAll C (m # ms) = Inr bytes" "list_all message_ok (m # ms)"
    and "length bytes < length buf" "st \<noteq> CLOSED" "st \<noteq> RETRY"
  shows "rxIteration C st buf (ReadData bytes) =
     ((map received (m # ms), RxContinue), bytes @ drop (length bytes) buf)"
  using assms(4-6) proto_codec.parse_encodeAll [OF assms(1-3), of "[]"]
  by (simp add: rxIteration_def Let_def)

theorem stream_roundtrip_witness:
  "\<exists>bytes. encodeAll protoCodec [MsgKeepalive, MsgUpdate exUpdate] = Inr bytes \<and>
     rxIteration protoCodec ESTABLISHED (replicate 200 0) (ReadData bytes) =
       (([MsgKeepalive, MsgUpdate exUpdate], RxContinue), bytes @ drop (length bytes) (replicate 200 0))"
proof -
  have "\<not> isl (encodeAll protoCodec [MsgKeepalive, MsgUpdate exUpdate]) \<and>
      length (projr (encodeAll protoCodec [MsgKeepalive, MsgUpdate exUpdate])) < 200"
    by code_simp
  then obtain bytes where "encodeAll protoCodec [MsgKeepalive, MsgUpdate exUpdate] = Inr bytes"
    "length bytes < 200"
    by (cases "encodeAll protoCodec [MsgKeepalive, MsgUpdate exUpdate]") auto
  moreover have "list_all message_ok [MsgKeepalive, MsgUpdate exUpdate]" by code_simp
  ultimately show ?thesis
    using stream_roundtrip [OF protoCodec_laws, of MsgKeepalive "[MsgUpdate exUpdate]" bytes
        "replicate 200 0" ESTABLISHED]
    by (simp add: received_def)
qed

text \<open>
  C34. A packet that \<open>sendMessage\<close> makes has version 1, the type of its message, at most
  1192 bytes, and a length field that says exactly how many bytes follow the header.
\<close>

theorem packet_header:
  assumes "encodeMessage C msg = Inr pkt"
  shows "length pkt \<le> 1192 \<and> pkt ! 0 = 1 \<and> pkt ! 3 = msgTypeOf msg \<and>
     unat (pktLenAt pkt 0) + 4 = length pkt"
proof -
  from assms obtain bs where "Serialize C msg = Inr bs" and pkt: "pkt = packet (msgTypeOf msg) bs"
    by (auto simp: encodeMessage_def split: sum.splits)
  then have "length bs \<le> 1188" using Serialize_short [of C msg] by (simp add: maxMsgLen_def)
  with pkt pktLenAt_packet [of bs "[]" "msgTypeOf msg" "[]"] show ?thesis by simp
qed

theorem packet_header_witness:
  "encodeMessage protoCodec MsgKeepalive = Inr [1, 0, 0, 2] \<and>
     unat (pktLenAt [1, 0, 0, 2] 0) + 4 = length [1 :: byte, 0, 0, 2]"
proof -
  have "encodeMessage protoCodec MsgKeepalive = Inr [1, 0, 0, 2]" by code_simp
  with packet_header [OF this] show ?thesis by simp
qed

text \<open>
  A HELLO that says it comes from a server arrives as one that does not:
  \<open>deserializeHelloMsg\<close> keeps the keepalive interval and drops \<open>IsServer\<close>.
\<close>

lemma hello_drops_IsServer:
  assumes "proto_codec C" "serializeHello C m = Inr bs"
  shows "deserializeHelloMsg C bs =
     Inr \<lparr>helloKeepaliveInterval = helloKeepaliveInterval m, helloIsServer = False\<rparr>"
  using proto_codec.hello_trip [OF assms] by (cases m) simp

lemma hello_drops_IsServer_witness:
  "serializeHello protoCodec \<lparr>helloKeepaliveInterval = 5, helloIsServer = True\<rparr> = Inr [8, 5, 16, 1] \<and>
     deserializeHelloMsg protoCodec [8, 5, 16, 1] = Inr \<lparr>helloKeepaliveInterval = 5, helloIsServer = False\<rparr>"
proof -
  have "serializeHello protoCodec \<lparr>helloKeepaliveInterval = 5, helloIsServer = True\<rparr> = Inr [8, 5, 16, 1]"
    by code_simp
  with hello_drops_IsServer [OF protoCodec_laws this] show ?thesis by simp
qed

text \<open>
  An UPDATE packet whose protobuf message has a valid destination and no next hop
  makes the reading goroutine panic: the next hop is dereferenced without a nil check.
\<close>

lemma update_without_nexthop_panics:
  assumes "unmarshalUpdate C bs = Some u" "pbDest u = Some d" "AddrFromSlice (pbPrefix d) = Some a"
    and "pbHop u = None" "length bs < 65536"
  shows "parsePackets C (packet UPDATE bs @ ys) n 0 = ([], RxPanic)"
proof -
  have "deserializeUpdateMsg C bs = Panics"
    using assms(1-4) by (simp add: deserializeUpdateMsg_def Let_def)
  then have "decodePkt C UPDATE bs = PktPanic" by (simp add: decodePkt_def)
  then show ?thesis
    using pktLenAt_packet [OF assms(5), of "[]" UPDATE ys] packet_body [of bs "[]" UPDATE ys]
    by (subst parsePackets.simps) (simp add: nth_append Let_def)
qed

text \<open>
  A packet of an unknown type ends the reading goroutine and nothing else: no
  reset is started, so the connection is not closed although the log message says so.
\<close>

lemma unknown_type_ends_reader:
  assumes "t = 0 \<or> 5 < t" "length bs < 65536"
  shows "parsePackets C (packet t bs @ ys) n 0 = ([], RxReturn)"
proof -
  have "t \<noteq> HELLO" "t \<noteq> KEEPALIVE" "t \<noteq> SUBSCRIBE" "t \<noteq> UNSUBSCRIBE" "t \<noteq> UPDATE"
    using assms(1) by auto
  then have "decodePkt C t bs = PktUnknown" by (simp add: decodePkt_def)
  then show ?thesis
    using pktLenAt_packet [OF assms(2), of "[]" t ys]
    by (subst parsePackets.simps) (simp add: nth_append Let_def packet_body [of bs "[]" t ys, simplified])
qed

text \<open>
  One read delivers a bounded number of messages: each takes at least the four bytes
  of its header, so \<open>n\<close> bytes give at most \<open>n div 4 + 1\<close> of them.
\<close>

lemma messages_per_read:
  "4 * length (fst (fst (rxIteration C st buf (ReadData bs)))) \<le> length bs + 4"
proof -
  have "4 * length (fst (parsePackets C b n s)) \<le> (n - s) + 4" for b n s
  proof (induction C b n s rule: parsePackets.induct)
    case (1 C b n s)
    show ?case
      by (subst parsePackets.simps)
        (use 1 in \<open>fastforce simp: Let_def split: pktResult.split prod.split\<close>)
  qed
  from this [of _ "length bs" 0] show ?thesis
    by (auto simp: rxIteration_def Let_def)
qed

text \<open>
  A read that returns only the first one to three bytes of a packet, into the fresh
  buffer, ends the reading goroutine without a message and without a reset: the loop does
  not wait for the rest of the header.
\<close>

lemma short_header_ends_reader:
  assumes "length bs \<le> maxMsgLen" "0 < k" "k < 4" "st \<noteq> CLOSED" "st \<noteq> RETRY"
  shows "fst (rxIteration C st (replicate 65535 0) (ReadData (take k (packet t bs)))) = ([], RxReturn)"
proof -
  define buf where "buf = take k (packet t bs) @ replicate (65535 - k) (0 :: byte)"
  have len: "length buf = 65535" using assms by (simp add: buf_def)
  have b: "buf ! 0 = 1" "buf ! 3 = 0"
    using assms by (simp_all add: buf_def nth_append)
  have hdr: "buf ! 1 = (if k = 1 then 0 else word_of_nat (length bs div 256))"
    "buf ! 2 = (if k = 3 then word_of_nat (length bs mod 256) else 0)"
    using assms(2,3) by (auto simp: buf_def nth_append packet_def numeral_2_eq_2)
  have hi: "length bs div 256 \<le> 4" using assms(1) by (simp add: maxMsgLen_def)
  have byte: "(ucast (word_of_nat n :: byte) :: 16 word) = word_of_nat (n mod 256)" for n
    by (simp add: unsigned_of_nat take_bit_eq_mod)
  have "pktLenAt buf 0 = word_of_nat ((if k = 1 then 0 else length bs div 256) * 256 +
      (if k = 3 then length bs mod 256 else 0))" (is "_ = word_of_nat ?n")
    using hi by (simp add: pktLenAt_def hdr [unfolded One_nat_def numeral_2_eq_2] byte push_bit_eq_mult)
  moreover have "?n \<le> 2000" using assms(1) by (simp add: maxMsgLen_def) linarith
  ultimately obtain n where "pktLenAt buf 0 = word_of_nat n" "n \<le> 2000" by blast
  then have "unat (pktLenAt buf 0) \<le> 65535 - 4" by (simp add: unat_of_nat)
  then have "parsePackets C buf k 0 = ([], RxReturn)"
    using b len by (subst parsePackets.simps) (simp add: Let_def decodePkt_def)
  then show ?thesis
    using assms by (simp add: rxIteration_def Let_def buf_def)
qed



end
