(* ===== verification/NodeRoutes.thy ===== *)
theory NodeRoutes
  imports Machine ProtoWire
begin

text \<open>
  Properties of the propagation of routes through a node: who is sent an update, what the
  node's table and its client are told, and what is left of a peer that has gone.
\<close>

section \<open>An example node\<close>

text \<open>
  Three outgoing peers: 0 and 1 are \<open>ESTABLISHED\<close> and subscribed to VNI 7, 2 is connecting.
  Routes go to the dummy client; messages are in the proto3 wire format.
\<close>

definition exEnv :: "unit env" where
  "exEnv = \<lparr>cdc = protoCodec, ops = DummyClient\<rparr>"

definition exPeer :: "ConnectionState \<Rightarrow> metalBondPeer" where
  "exPeer st = noPeer\<lparr>direction := OUTGOING, state := st, peerKeepalive := 5,
     shutdown := Some 0, keepaliveStop := Some 0, txChanClose := Some 0, txChan := Some [],
     rxHello := Some [], rxKeepalive := Some 0, rxSubscribe := Some [], rxUnsubscribe := Some [],
     rxUpdate := Some []\<rparr>"

definition exHeap :: "nat \<Rightarrow> metalBondPeer" where
  "exHeap p = (if p < 2 then exPeer ESTABLISHED else if p = 2 then exPeer CONNECTING else noPeer)"

definition exWorldOf :: "'c \<Rightarrow> 'c world" where
  "exWorldOf cl = (initWorld \<lparr>cfgKeepaliveInterval = 5\<rparr> cl)\<lparr>
     subscribers := [(7, [(0, True), (1, True)])],
     peers := [(''a'', 0), (''b'', 1), (''c'', 2)],
     heap := exHeap, nextRef := 3\<rparr>"

abbreviation exWorld :: "unit world" where
  "exWorld \<equiv> exWorldOf ()"

lemma noPeer_ok: "peer_ok p (noPeer\<lparr>direction := d, state := st, peerKeepalive := k,
     shutdown := a, keepaliveStop := b, txChanClose := c, txChan := Some q,
     rxHello := e, rxKeepalive := f, rxSubscribe := g, rxUnsubscribe := h, rxUpdate := i\<rparr>)"
    "peer_ok p noPeer"
  by (simp_all add: peer_ok_def noPeer_def newRouteTable_def rt_ok_def rt_pruned_def rt_rel_def
      rt_has_def peersOf_def)

lemma exWorld_fields [simp]:
  "mbRouteTable (exWorldOf cl) = newRouteTable" "myAnnouncements (exWorldOf cl) = newRouteTable"
  "mySubscriptions (exWorldOf cl) = []" "mtxSubscribers (exWorldOf cl) = False"
  "subscribers (exWorldOf cl) = [(7, [(0, True), (1, True)])]"
  "peers (exWorldOf cl) = [(''a'', 0), (''b'', 1), (''c'', 2)]" "heap (exWorldOf cl) = exHeap"
  "nextRef (exWorldOf cl) = 3" "client (exWorldOf cl) = cl"
  by (simp_all add: exWorldOf_def initWorld_def NewMetalBond_def Let_def World.MetalBond.extend_def)

lemma rt_has_new [simp]: "\<not> rt_has newRouteTable v d h p"
  by (simp add: rt_has_def newRouteTable_def peersOf_def)

lemma rt_ok_new [simp]: "rt_ok newRouteTable"
  by (simp add: newRouteTable_def rt_ok_def)

lemma exHeap_tx: "txChan (exHeap p) = (if p < 3 then Some [] else None)"
  by (simp add: exHeap_def exPeer_def noPeer_def)

lemma exWorldOf_ok: "node_ok (exWorldOf cl)"
proof -
  have "peer_ok p (exHeap p)" for p
    by (simp add: exHeap_def exPeer_def noPeer_ok)
  moreover have "refs_ok (exWorldOf cl)"
    by (auto simp: refs_ok_def exHeap_tx gsub_def split: if_splits)
  ultimately show ?thesis
    by (simp add: node_ok_def maps_ok_def table_ok_def)
qed

lemmas exWorld_ok = exWorldOf_ok [of "()"]

lemma exWorld_live: "live exWorld"
  by (simp add: live_def exWorld_ok)

lemma exWorldOf_calm: "calm {0, 1, 2} (exWorldOf cl)"
  by (auto simp: calm_def gsub_def exHeap_def exPeer_def chansMade_def split: if_splits)

lemmas exWorld_calm = exWorldOf_calm [of "()"]

definition exPkt :: "8 word \<Rightarrow> byte list" where
  "exPkt a = projr (encodeMessage protoCodec (updateMsg a 7 exDest exHop))"

lemma exPkt: "encodeMessage (cdc exEnv) (updateMsg ADD 7 exDest exHop) = Inr (exPkt ADD)"
    "encodeMessage (cdc exEnv) (updateMsg REMOVE 7 exDest exHop) = Inr (exPkt REMOVE)"
proof -
  have "\<not> isl (encodeMessage protoCodec (updateMsg ADD 7 exDest exHop))"
    "\<not> isl (encodeMessage protoCodec (updateMsg REMOVE 7 exDest exHop))"
    by code_simp+
  then show "encodeMessage (cdc exEnv) (updateMsg ADD 7 exDest exHop) = Inr (exPkt ADD)"
    "encodeMessage (cdc exEnv) (updateMsg REMOVE 7 exDest exHop) = Inr (exPkt REMOVE)"
    by (simp_all add: exEnv_def exPkt_def)
qed

section \<open>Routes of peers\<close>

text \<open>
  C4. When the invariant holds and the subscriber mutex is free,
  \<open>distributeRouteToPeers\<close> for a route of peer \<open>from\<close> returns nil and sends the update,
  once, to exactly the \<open>ESTABLISHED\<close> subscribers of the VNI other than \<open>from\<close> (and, between
  servers, to none); it changes neither tables nor subscriptions.
\<close>

theorem distribute_exact:
  assumes "node_ok w" "\<not> mtxSubscribers w" "encodeMessage (cdc E) (updateMsg a v d h) = Inr pkt"
  shows "\<exists>w'. distributeRouteToPeers E a v d h (Some from) w = (Returns None, w') \<and>
     sentTo (audience w v from) pkt w w' \<and> mbRouteTable w' = mbRouteTable w \<and>
     myAnnouncements w' = myAnnouncements w \<and> subscribers w' = subscribers w"
  using distribute_run [of w E a v d h "from"] sentTo_sendAll [OF assms(1,3), of v "from" w] assms(1,2)
  by (simp add: live_def)

theorem distribute_exact_witness:
  "node_ok exWorld \<and> audience exWorld 7 0 = {1} \<and>
     (\<exists>w'. distributeRouteToPeers exEnv ADD 7 exDest exHop (Some 0) exWorld = (Returns None, w') \<and>
        txQueue w' 1 = [exPkt ADD] \<and> txQueue w' 0 = [])"
proof -
  have aud: "audience exWorld 7 0 = {1}"
    by (auto simp: audience_def gsub_def exHeap_def exPeer_def noPeer_def split: if_splits)
  have "txQueue exWorld 1 = []" "txQueue exWorld 0 = []" by (simp_all add: txQueue_def exHeap_tx)
  with distribute_exact [OF exWorld_ok _ exPkt(1), of 0] aud exWorld_ok show ?thesis
    by (auto simp: sentTo_def)
qed

text \<open>
  C12. A route that a peer announced, that is not blocked by an own route and not
  yet in the table, is added to the table, sent to the audience of the peer and handed to
  the client.
\<close>

theorem received_route_added:
  assumes "node_ok w" "\<not> mtxSubscribers w" "encodeMessage (cdc E) (updateMsg ADD v d h) = Inr pkt"
    and "rt_has (receivedRoutes (heap w p)) v d h (Some p)"
    and "nhType h \<noteq> NextHopType_STANDARD \<or> GetNextHopsByDestination (myAnnouncements w) v d = []"
    and "\<not> rt_has (mbRouteTable w) v d h (Some p)"
  shows "\<exists>w'. addReceivedRoute E p v d h w = (Returns None, w') \<and>
     rt_rel (mbRouteTable w') = insert (v, d, h, Some p) (rt_rel (mbRouteTable w)) \<and>
     sentTo (audience w v p) pkt w w' \<and> client w' = snd (AddRoute (ops E) v d h (client w))"
  using addReceivedRoute_run [of w p v d h E] assms
    sentTo_sendAll [OF assms(1,3), of v p "withTable (\<lambda>t. snd (AddNextHop v d h (Some p) t)) w"]
  by (auto simp: live_def ownsDestination_def rt_rel_AddNextHop)

text \<open>
  A \<open>STANDARD\<close> route for a destination that the node announces itself is skipped:
  the call returns nil and changes nothing. By the effect of \<open>NextHopExists\<close> one question
  about an unannounced own route is enough to have it skipped.
\<close>

lemma standard_route_blocked:
  assumes "nhType h = NextHopType_STANDARD"
  shows "(GetNextHopsByDestination (myAnnouncements w) v d \<noteq> [] \<longrightarrow>
       addReceivedRoute E p v d h w = (Returns None, w)) \<and>
     addReceivedRoute E p v d h (snd (IsRouteAnnounced v d h' w)) =
       (Returns None, snd (IsRouteAnnounced v d h' w))"
proof -
  have skip: "addReceivedRoute E p v d h w' = (Returns None, w')"
    if "GetNextHopsByDestination (myAnnouncements w') v d \<noteq> []" for w'
    using that assms by (simp add: addReceivedRoute_def)
  have "h' \<in> set (GetNextHopsByDestination (makePath v d h' (myAnnouncements w)) v d)"
    by (simp add: makePath_setPath setPath_def GetNextHopsByDestination_def gget_in_gkeys)
  then have "GetNextHopsByDestination (myAnnouncements (snd (IsRouteAnnounced v d h' w))) v d \<noteq> []"
    by (auto simp: IsRouteAnnounced_def onAnnouncements_def NextHopExists_eq)
  with skip show ?thesis by blast
qed

lemma standard_route_blocked_witness:
  "addReceivedRoute exEnv 0 7 exDest exHop (snd (IsRouteAnnounced 7 exDest exHop exWorld)) =
     (Returns None, snd (IsRouteAnnounced 7 exDest exHop exWorld))"
  using standard_route_blocked [of exHop exWorld 7 exDest exEnv 0 exHop] by (simp add: exHop_def)

text \<open>The example node after peer 0 has put the example route into its own table.\<close>

definition exReceived :: "unit world" where
  "exReceived = updPeer 0 (receivedRoutes_update (\<lambda>t. snd (AddNextHop 7 exDest exHop (Some 0) t))) exWorld"

lemma exReceived_ok: "node_ok exReceived" "\<not> mtxSubscribers exReceived"
proof -
  have "ok_at {} exReceived"
    unfolding exReceived_def by (rule ok_at_add_received) (simp_all add: exWorld_ok exHeap_tx)
  then show "node_ok exReceived" by simp
qed (simp add: exReceived_def)

lemma exReceived_fields [simp]:
  "mbRouteTable exReceived = newRouteTable" "myAnnouncements exReceived = newRouteTable"
  "rt_has (receivedRoutes (heap exReceived 0)) 7 exDest exHop (Some 0)"
  by (simp_all add: exReceived_def rt_has_AddNextHop)

theorem received_route_added_witness:
  "node_ok exReceived \<and> rt_has (receivedRoutes (heap exReceived 0)) 7 exDest exHop (Some 0) \<and>
     (\<exists>w'. addReceivedRoute exEnv 0 7 exDest exHop exReceived = (Returns None, w') \<and>
        rt_rel (mbRouteTable w') = {(7, exDest, exHop, Some 0)})"
proof -
  have "GetNextHopsByDestination (myAnnouncements exReceived) 7 exDest = []"
    by (simp add: GetNextHopsByDestination_def newRouteTable_def)
  then show ?thesis
    using received_route_added [OF exReceived_ok exPkt(1), of 0] exReceived_ok
    by (auto simp: rt_rel_def)
qed

text \<open>
  C11. A withdrawn route that the table has is removed. The REMOVE update goes
  to the audience of the peer exactly when no other peer still has the route, but the
  client is told to remove the route in any case, also while another peer still provides it.
\<close>

theorem received_route_removed:
  assumes "node_ok w" "\<not> mtxSubscribers w" "encodeMessage (cdc E) (updateMsg REMOVE v d h) = Inr pkt"
    and "rt_has (mbRouteTable w) v d h (Some p)"
  shows "\<exists>w'. removeReceivedRoute E p v d h w = (Returns None, w') \<and>
     rt_rel (mbRouteTable w') = rt_rel (mbRouteTable w) - {(v, d, h, Some p)} \<and>
     sentTo (if \<exists>q. q \<noteq> Some p \<and> rt_has (mbRouteTable w) v d h q then {} else audience w v p) pkt w w' \<and>
     client w' = snd (RemoveRoute (ops E) v d h (client w))"
proof -
  let ?others = "{q. rt_has (mbRouteTable w) v d h q \<and> q \<noteq> Some p}"
  have tab: "rt_ok (mbRouteTable w)" using assms(1) by (simp add: node_ok_def maps_ok_def)
  have left: "fst (RemoveNextHop v d h (Some p) (mbRouteTable w)) = Inr (card ?others)"
    using RemoveNextHop_left [OF tab assms(4)] .
  have "finite ?others"
    by (rule finite_subset [of _ "set (gkeys (peersOf (mbRouteTable w) v d h))"])
      (auto simp: rt_has_def gget_in_gkeys)
  then have last: "card ?others = 0 \<longleftrightarrow> \<not> (\<exists>q. q \<noteq> Some p \<and> rt_has (mbRouteTable w) v d h q)"
    by auto
  have "live w" using assms(1,2) by (simp add: live_def)
  from removeReceivedRoute_run [OF this, of E p v d h] left last show ?thesis
    using sentTo_sendAll [OF assms(1,3), of v p "withTable (\<lambda>t. snd (RemoveNextHop v d h (Some p) t)) w"]
      sentTo_with(2) [of "{}" pkt w _ w]
    by (auto simp: rt_rel_RemoveNextHop split: if_splits)
qed

text \<open>The example node with the example route in its table.\<close>

definition exRouted :: "unit world" where
  "exRouted = withTable (\<lambda>t. snd (AddNextHop 7 exDest exHop (Some 0) t)) exReceived"

lemma exRouted_ok: "node_ok exRouted" "\<not> mtxSubscribers exRouted"
proof -
  have "ok_at {} exRouted"
    unfolding exRouted_def withTable_def by (rule ok_at_add_table) (simp_all add: exReceived_ok)
  then show "node_ok exRouted" by simp
qed (simp add: exRouted_def exReceived_ok)

lemma exRouted_has: "rt_has (mbRouteTable exRouted) v d h p \<longleftrightarrow> (v, d, h, p) = (7, exDest, exHop, Some 0)"
  by (auto simp: exRouted_def rt_has_AddNextHop)

theorem received_route_removed_witness:
  "node_ok exRouted \<and> rt_has (mbRouteTable exRouted) 7 exDest exHop (Some 0) \<and>
     (\<exists>w'. removeReceivedRoute exEnv 0 7 exDest exHop exRouted = (Returns None, w') \<and>
        rt_rel (mbRouteTable w') = {} \<and> sentTo (audience exRouted 7 0) (exPkt REMOVE) exRouted w')"
proof -
  have "rt_rel (mbRouteTable exRouted) = {(7, exDest, exHop, Some 0)}"
    by (auto simp: rt_rel_def exRouted_has)
  then show ?thesis
    using received_route_removed [OF exRouted_ok exPkt(2), of 0] exRouted_ok
    by (auto simp: exRouted_has)
qed

section \<open>Routes of the node itself\<close>

lemma enqueueAll_onAnnouncements:
  "enqueueAll ps pkt (w\<lparr>myAnnouncements := t\<rparr>) = (enqueueAll ps pkt w)\<lparr>myAnnouncements := t\<rparr>"
proof (induction ps arbitrary: w)
  case (Cons p ps)
  have "enqueue p pkt (w\<lparr>myAnnouncements := t\<rparr>) = (enqueue p pkt w)\<lparr>myAnnouncements := t\<rparr>"
    by (cases w) (simp add: enqueue_def updPeer_def txQueue_def)
  then show ?case by (simp add: Cons.IH)
qed simp

text \<open>Distribution after a change of the announcements.\<close>

lemma distribute_own_after:
  assumes "\<not> mtxSubscribers w" "\<forall>p \<in> set (map snd (peers w)). txChan (heap w p) \<noteq> None"
    and "distinct (map snd (peers w))" "encodeMessage (cdc E) (updateMsg a v d h) = Inr pkt"
  obtains w' where "distributeRouteToPeers E a v d h None (w\<lparr>myAnnouncements := t\<rparr>) =
      (Returns (if \<forall>p \<in> set (map snd (peers w)). state (heap w p) = ESTABLISHED then None
         else Some (Errorf ''connection not ESTABLISHED'')), w')"
    "sentTo (set (ownRecipients w)) pkt w w'" "myAnnouncements w' = t"
proof
  have "distinct (ownRecipients w)"
    using assms(3) by (simp add: ownRecipients_def distinct_takeWhile)
  then show "sentTo (set (ownRecipients w)) pkt w (enqueueAll (ownRecipients w) pkt (w\<lparr>myAnnouncements := t\<rparr>))"
    using txQueue_enqueueAll [of "ownRecipients w" pkt w]
    by (simp add: sentTo_def enqueueAll_onAnnouncements) (simp add: txQueue_def)
  show "distributeRouteToPeers E a v d h None (w\<lparr>myAnnouncements := t\<rparr>) =
      (Returns (if \<forall>p \<in> set (map snd (peers w)). state (heap w p) = ESTABLISHED then None
         else Some (Errorf ''connection not ESTABLISHED'')),
       enqueueAll (ownRecipients w) pkt (w\<lparr>myAnnouncements := t\<rparr>))"
    using distribute_own_run [of "w\<lparr>myAnnouncements := t\<rparr>" E a v d h pkt] assms
    by (simp add: ownRecipients_def)
qed simp

text \<open>
  \<open>AnnounceRoute\<close> of a new route records it, and sends it to the registered peers
  up to the first one that is not \<open>ESTABLISHED\<close>. It returns nil exactly when all of them
  are; otherwise it returns an error although the route stays recorded, and the peers
  after that one are not told, established or not.
\<close>

lemma announce_own_route:
  assumes "\<not> mtxSubscribers w" "\<forall>p \<in> set (map snd (peers w)). txChan (heap w p) \<noteq> None"
    and "distinct (map snd (peers w))" "encodeMessage (cdc E) (updateMsg ADD v d h) = Inr pkt"
    and "(v, d, h, None) \<notin> rt_rel (myAnnouncements w)"
  shows "\<exists>r w'. AnnounceRoute E v d h w = (Returns r, w') \<and>
     rt_rel (myAnnouncements w') = insert (v, d, h, None) (rt_rel (myAnnouncements w)) \<and>
     sentTo (set (takeWhile (\<lambda>p. state (heap w p) = ESTABLISHED) (map snd (peers w)))) pkt w w' \<and>
     (r = None \<longleftrightarrow> (\<forall>p \<in> set (map snd (peers w)). state (heap w p) = ESTABLISHED))"
proof -
  have new: "fst (AddNextHop v d h None (myAnnouncements w)) = None"
    using assms(5) by (simp add: AddNextHop_None)
  obtain w' where "distributeRouteToPeers E ADD v d h None
      (w\<lparr>myAnnouncements := snd (AddNextHop v d h None (myAnnouncements w))\<rparr>) =
      (Returns (if \<forall>p \<in> set (map snd (peers w)). state (heap w p) = ESTABLISHED then None
         else Some (Errorf ''connection not ESTABLISHED'')), w')"
    "sentTo (set (ownRecipients w)) pkt w w'"
    "myAnnouncements w' = snd (AddNextHop v d h None (myAnnouncements w))"
    by (rule distribute_own_after [OF assms(1-4)])
  with new show ?thesis
    by (auto simp: AnnounceRoute_def onAnnouncements_def rt_rel_AddNextHop ownRecipients_def)
qed

text \<open>The node is the only origin of its announcements.\<close>

lemma announcement_single:
  assumes "node_ok w" "rt_has (myAnnouncements w) v d h None"
  shows "fst (RemoveNextHop v d h None (myAnnouncements w)) = Inr 0"
proof -
  have ann: "rt_ok (myAnnouncements w)" "\<And>q. rt_has (myAnnouncements w) v d h q \<Longrightarrow> q = None"
    using assms(1) by (auto simp: node_ok_def maps_ok_def)
  then have empty: "{q. rt_has (myAnnouncements w) v d h q \<and> q \<noteq> None} = {}" by auto
  have "fst (RemoveNextHop v d h None (myAnnouncements w)) =
      Inr (card {q. rt_has (myAnnouncements w) v d h q \<and> q \<noteq> None})"
    by (rule RemoveNextHop_left) (use ann assms(2) in simp_all)
  then show ?thesis unfolding empty by simp
qed

text \<open>
  \<open>WithdrawRoute\<close> of an announced route removes it and, since the node is the
  only origin of its announcements, always sends the REMOVE update, to the peers up to the
  first one that is not \<open>ESTABLISHED\<close>.
\<close>

lemma withdraw_own_route:
  assumes "node_ok w" "\<not> mtxSubscribers w"
    and "\<forall>p \<in> set (map snd (peers w)). txChan (heap w p) \<noteq> None"
    and "distinct (map snd (peers w))" "encodeMessage (cdc E) (updateMsg REMOVE v d h) = Inr pkt"
    and "(v, d, h, None) \<in> rt_rel (myAnnouncements w)"
  shows "\<exists>r w'. WithdrawRoute E v d h w = (Returns r, w') \<and>
     rt_rel (myAnnouncements w') = rt_rel (myAnnouncements w) - {(v, d, h, None)} \<and>
     sentTo (set (takeWhile (\<lambda>p. state (heap w p) = ESTABLISHED) (map snd (peers w)))) pkt w w' \<and>
     (r = None \<longleftrightarrow> (\<forall>p \<in> set (map snd (peers w)). state (heap w p) = ESTABLISHED))"
proof -
  have none_left: "fst (RemoveNextHop v d h None (myAnnouncements w)) = Inr 0"
    using announcement_single [OF assms(1)] assms(6) by simp
  obtain w' where "distributeRouteToPeers E REMOVE v d h None
      (w\<lparr>myAnnouncements := snd (RemoveNextHop v d h None (myAnnouncements w))\<rparr>) =
      (Returns (if \<forall>p \<in> set (map snd (peers w)). state (heap w p) = ESTABLISHED then None
         else Some (Errorf ''connection not ESTABLISHED'')), w')"
    "sentTo (set (ownRecipients w)) pkt w w'"
    "myAnnouncements w' = snd (RemoveNextHop v d h None (myAnnouncements w))"
    by (rule distribute_own_after [OF assms(2-5)])
  with none_left show ?thesis
    by (auto simp: WithdrawRoute_def onAnnouncements_def rt_rel_RemoveNextHop ownRecipients_def)
qed

definition exAnnounced :: "unit world" where
  "exAnnounced = exWorld\<lparr>myAnnouncements := snd (AddNextHop 7 exDest exHop None newRouteTable)\<rparr>"

lemma exAnnounced_ok: "node_ok exAnnounced"
proof -
  have "ok_at {} (snd (onAnnouncements (AddNextHop 7 exDest exHop None) exWorld))"
    by (rule keepsD [OF keeps_announce(1)]) (simp add: exWorld_ok)
  then show ?thesis by (simp add: onAnnouncements_def exAnnounced_def)
qed

text \<open>
  C21. The node's own routes. \<open>AnnounceRoute\<close> of a new route records it, \<open>WithdrawRoute\<close> of an
  announced one removes it. Both send the update to the registered peers up to the first one
  that is not \<open>ESTABLISHED\<close>, and return nil exactly when all are; otherwise they return an error
  although the change stays, and the peers after that one are not told, established or not.
\<close>

theorem own_routes_distributed:
  assumes "node_ok w" "\<not> mtxSubscribers w"
    and "\<forall>p \<in> set (map snd (peers w)). txChan (heap w p) \<noteq> None" "distinct (map snd (peers w))"
    and "encodeMessage (cdc E) (updateMsg ADD v d h) = Inr add"
    and "encodeMessage (cdc E) (updateMsg REMOVE v d h) = Inr rem"
  shows "((v, d, h, None) \<notin> rt_rel (myAnnouncements w) \<longrightarrow> (\<exists>r w'. AnnounceRoute E v d h w = (Returns r, w') \<and>
       rt_rel (myAnnouncements w') = insert (v, d, h, None) (rt_rel (myAnnouncements w)) \<and>
       sentTo (set (takeWhile (\<lambda>p. state (heap w p) = ESTABLISHED) (map snd (peers w)))) add w w' \<and>
       (r = None \<longleftrightarrow> (\<forall>p \<in> set (map snd (peers w)). state (heap w p) = ESTABLISHED)))) \<and>
     ((v, d, h, None) \<in> rt_rel (myAnnouncements w) \<longrightarrow> (\<exists>r w'. WithdrawRoute E v d h w = (Returns r, w') \<and>
       rt_rel (myAnnouncements w') = rt_rel (myAnnouncements w) - {(v, d, h, None)} \<and>
       sentTo (set (takeWhile (\<lambda>p. state (heap w p) = ESTABLISHED) (map snd (peers w)))) rem w w' \<and>
       (r = None \<longleftrightarrow> (\<forall>p \<in> set (map snd (peers w)). state (heap w p) = ESTABLISHED))))"
  using announce_own_route [OF assms(2-5)] withdraw_own_route [OF assms(1-4,6)] by blast

theorem own_routes_distributed_witness:
  "(\<exists>r w'. AnnounceRoute exEnv 7 exDest exHop exWorld = (Returns r, w') \<and> r \<noteq> None \<and>
        rt_rel (myAnnouncements w') = {(7, exDest, exHop, None)} \<and> sentTo {0, 1} (exPkt ADD) exWorld w') \<and>
     (\<exists>r w'. WithdrawRoute exEnv 7 exDest exHop exAnnounced = (Returns r, w') \<and>
        rt_rel (myAnnouncements w') = {} \<and> sentTo {0, 1} (exPkt REMOVE) exAnnounced w')"
proof -
  have f: "peers exAnnounced = peers exWorld" "heap exAnnounced = exHeap" "\<not> mtxSubscribers exAnnounced"
    by (simp_all add: exAnnounced_def)
  have new: "rt_rel newRouteTable = {}" by (auto simp: rt_rel_def)
  then have rel: "rt_rel (myAnnouncements exAnnounced) = {(7, exDest, exHop, None)}"
    by (simp add: exAnnounced_def rt_rel_AddNextHop)
  have tw: "takeWhile (\<lambda>p. state (heap exWorld p) = ESTABLISHED) (map snd (peers exWorld)) = [0, 1]"
    "takeWhile (\<lambda>p. state (heap exAnnounced p) = ESTABLISHED) (map snd (peers exAnnounced)) = [0, 1]"
    "state (exHeap 2) \<noteq> ESTABLISHED"
    by (simp_all add: f exHeap_def exPeer_def noPeer_def)
  have "(7, exDest, exHop, None) \<notin> rt_rel (myAnnouncements exWorld)" "distinct (map snd (peers exWorld))"
    "\<forall>p \<in> set (map snd (peers exWorld)). txChan (heap exWorld p) \<noteq> None"
    by (simp_all add: exHeap_tx)
  note ann = own_routes_distributed [OF exWorld_ok _ this(3,2) exPkt, unfolded tw, THEN conjunct1, rule_format, OF _ this(1)]
  have "(7, exDest, exHop, None) \<in> rt_rel (myAnnouncements exAnnounced)" "distinct (map snd (peers exAnnounced))"
    "\<forall>p \<in> set (map snd (peers exAnnounced)). txChan (heap exAnnounced p) \<noteq> None"
    by (simp_all add: rel f exHeap_tx del: rt_rel_iff)
  note wd = own_routes_distributed [OF exAnnounced_ok f(3) this(3,2) exPkt, unfolded tw, THEN conjunct2, rule_format, OF this(1)]
  from ann wd tw(3) new rel show ?thesis by auto
qed

section \<open>Subscriptions of the node\<close>

lemma table_after_round:
  fixes E :: "'c env"
  assumes "txChan (heap w p) \<noteq> None"
  shows "\<exists>w'. andThen (peerUnsubscribe E p v) (onRouteTable (\<lambda>t. ((), dropFromTable v (Some p) t))) w =
       (Returns (), w') \<and> mbRouteTable w' = dropFromTable v (Some p) (mbRouteTable w) \<and>
     client w' = client w"
proof -
  let ?w = "updPeer p (receivedRoutes_update (dropReceived v (Some p))) w"
  have "\<exists>r w1. peerUnsubscribe E p v w = (Returns r, w1) \<and> mbRouteTable w1 = mbRouteTable w \<and>
      client w1 = client w"
  proof (cases "direction (heap w p)")
    case OUTGOING
    obtain r w1 where "sendMessage E p (MsgUnsubscribe \<lparr>unsubscribeVNI = v\<rparr>) ?w = (Returns r, w1)"
      "w1 = ?w \<or> (\<exists>pkt. w1 = enqueue p pkt ?w)"
      by (rule sendMessage_made [of ?w p E "MsgUnsubscribe \<lparr>unsubscribeVNI = v\<rparr>"]) (use assms in auto)
    then show ?thesis using OUTGOING by (auto simp: peerUnsubscribe_def onReceived_def)
  qed (simp add: peerUnsubscribe_def)
  then show ?thesis by (auto simp: onRouteTable_def)
qed

lemma keeps_received_absent [keeps_rules]:
  "keeps (\<lambda>w. \<not> rt_has (mbRouteTable w) v d h q)
     (andThen (peerUnsubscribe E p v') (onRouteTable (\<lambda>t. ((), dropFromTable v' r t))))"
proof -
  have "keeps (\<lambda>w. \<not> rt_has (mbRouteTable w) v d h q) (sendTx p' pkt)" for p' pkt
    by (auto simp: keeps_def sendTx_def split: option.split)
  moreover have "keeps (\<lambda>w. \<not> rt_has (mbRouteTable w) v d h q) (onReceived p' f)"
    for p' and f :: "routeTable \<Rightarrow> unit \<times> routeTable"
    by (simp add: keeps_def onReceived_def)
  moreover have "keeps (\<lambda>w. \<not> rt_has (mbRouteTable w) v d h q)
      (onRouteTable (\<lambda>t. ((), dropFromTable v' r t)))"
    by (auto simp: keeps_def onRouteTable_def rt_has_dropFromTable)
  ultimately show ?thesis
    unfolding peerUnsubscribe_def sendMessage_def by (intro keeps_rules)
qed

lemma unsubscribe_rounds:
  fixes E :: "'c env"
  assumes "calm P w" "set ps \<subseteq> P"
  shows "\<exists>w'. forEach ps (\<lambda>p. andThen (peerUnsubscribe E p v)
       (onRouteTable (\<lambda>t. ((), dropFromTable v (Some p) t)))) w = (Returns (), w') \<and> calm P w' \<and>
     client w' = client w \<and> (\<forall>p \<in> set ps. \<forall>d h. \<not> rt_has (mbRouteTable w') v d h (Some p))"
  using assms
proof (induction ps arbitrary: w)
  case (Cons p ps)
  let ?round = "\<lambda>p. andThen (peerUnsubscribe E p v) (onRouteTable (\<lambda>t. ((), dropFromTable v (Some p) t)))"
  have tx: "txChan (heap w p) \<noteq> None" using Cons.prems by (simp add: calm_def chansMade_def)
  obtain w1 where w1: "?round p w = (Returns (), w1)" "client w1 = client w"
    "mbRouteTable w1 = dropFromTable v (Some p) (mbRouteTable w)"
    using table_after_round [OF tx, of E v] by blast
  have "finishes (calm P) (?round p)" using Cons.prems by (intro finishes_rules) simp
  from finishesD [OF this Cons.prems(1)] have "calm P w1" using w1(1) by auto
  then obtain w' where w': "forEach ps ?round w1 = (Returns (), w')" "calm P w'"
    "client w' = client w1" "\<forall>p \<in> set ps. \<forall>d h. \<not> rt_has (mbRouteTable w') v d h (Some p)"
    using Cons.IH [of w1] Cons.prems by auto
  have "\<not> rt_has (mbRouteTable w') v d h (Some p)" for d h
  proof -
    have absent: "keeps (\<lambda>w. \<not> rt_has (mbRouteTable w) v d h (Some p)) (forEach ps ?round)"
      by (intro keeps_rules)
    have "\<not> rt_has (mbRouteTable w1) v d h (Some p)"
      using w1(3) by (simp add: rt_has_dropFromTable)
    from keepsD [OF absent this] w'(1) show ?thesis by simp
  qed
  with w1 w' show ?case by auto
qed simp

text \<open>
  C28. In a calm node \<open>Unsubscribe\<close> of a subscribed VNI returns nil, ends the
  subscription and takes every route of the VNI that came from a registered peer out of
  the node's table. The client is not told: what it installed for these routes stays.
\<close>

theorem unsubscribe_drops_routes:
  assumes "calm P w" "gget (mySubscriptions w) v \<noteq> None"
  shows "\<exists>w'. mbUnsubscribe E v w = (Returns None, w') \<and> calm P w' \<and>
     gget (mySubscriptions w') v = None \<and>
     (\<forall>p \<in> set (map snd (peers w)). \<forall>d h. \<not> rt_has (mbRouteTable w') v d h (Some p)) \<and>
     client w' = client w"
proof -
  have "set (map snd (peers w)) \<subseteq> P" using assms(1) by (auto simp: calm_def)
  from unsubscribe_rounds [OF assms(1) this, of E v] assms(2) show ?thesis
    by (fastforce simp: mbUnsubscribe_def)
qed

theorem unsubscribe_drops_routes_witness:
  "\<exists>w'. mbUnsubscribe exEnv 7 (exRouted\<lparr>mySubscriptions := [(7, True)]\<rparr>) = (Returns None, w') \<and>
     rt_has (mbRouteTable exRouted) 7 exDest exHop (Some 0) \<and>
     \<not> rt_has (mbRouteTable w') 7 exDest exHop (Some 0)"
proof -
  have "calm {0, 1, 2} exReceived"
    unfolding exReceived_def by (rule calm_updPeer [OF exWorld_calm]) (simp add: chansMade_def)
  then have "calm {0, 1, 2} (exRouted\<lparr>mySubscriptions := [(7, True)]\<rparr>)"
    by (simp add: exRouted_def withTable_def)
  from unsubscribe_drops_routes [OF this, of 7 exEnv] show ?thesis
    by (auto simp: exRouted_has) (simp add: exRouted_def withTable_def exReceived_def)
qed

section \<open>Peers that go\<close>

text \<open>
  C5. \<open>cleanup\<close>, which \<open>handle\<close> runs when it is told to stop, returns, and afterwards
  neither the peer's own table nor the node's table has a route of the peer.
\<close>

theorem cleanup_removes_all_routes:
  assumes "node_ok w" "calm P w"
  shows "\<exists>w'. cleanup E p w = (Returns (), w') \<and> node_ok w' \<and> calm P w' \<and>
     rt_rel (receivedRoutes (heap w' p)) = {} \<and>
     (\<forall>v d h. (v, d, h, Some p) \<notin> rt_rel (mbRouteTable w'))"
  using cleanup_run [of P w E p] assms unfolding tidy_def by (metis rt_rel_iff)

theorem cleanup_removes_all_routes_witness:
  "node_ok exRouted \<and> (7, exDest, exHop, Some 0) \<in> rt_rel (mbRouteTable exRouted) \<and>
     (\<exists>w'. cleanup exEnv 0 exRouted = (Returns (), w') \<and>
        (7, exDest, exHop, Some 0) \<notin> rt_rel (mbRouteTable w'))"
proof -
  have "calm {0, 1, 2} exReceived"
    unfolding exReceived_def by (rule calm_updPeer [OF exWorld_calm]) (simp add: chansMade_def)
  then have "calm {0, 1, 2} exRouted" by (simp add: exRouted_def withTable_def)
  from cleanup_removes_all_routes [OF exRouted_ok(1) this, of exEnv 0] exRouted_ok(1) show ?thesis
    by (auto simp: exRouted_has)
qed

text \<open>
  C20. When the state of a peer changes to one other than \<open>ESTABLISHED\<close>, the change
  returns and the peer is a subscriber of no VNI any more.
\<close>

theorem lost_peer_unsubscribed:
  assumes "calm P w" "p \<in> P" "state (heap w p) \<noteq> st" "st \<noteq> ESTABLISHED"
  shows "\<exists>w'. setState E p st w = (Returns (), w') \<and> calm P w' \<and>
     (\<forall>v. gget (gsub (subscribers w') v) p = None)"
  using setState_lost [OF assms, of E] by (simp add: notSubscribed_def)

theorem lost_peer_unsubscribed_witness:
  "gget (gsub (subscribers exWorld) 7) 0 = Some True \<and>
     (\<exists>w'. setState exEnv 0 RETRY exWorld = (Returns (), w') \<and> gget (gsub (subscribers w') 7) 0 = None)"
  using lost_peer_unsubscribed [OF exWorld_calm, of 0 RETRY exEnv]
  by (auto simp: gsub_def exHeap_def exPeer_def noPeer_def)

end
