(* ===== verification/NodeSessions.thy ===== *)
theory NodeSessions
  imports NodeRoutes
begin

text \<open>
  Properties of the connections of a node: the handshake, what a peer is sent when its
  connection is established, keepalive times, progress of all operations in a calm node,
  and the situations in which the code waits for ever or panics.
\<close>

section \<open>Establishing a connection\<close>

text \<open>The packets of a list of messages; a message that does not serialize gives none.\<close>

definition packets :: "'c env \<Rightarrow> message list \<Rightarrow> byte list list" where
  "packets E ms = concat (map (\<lambda>m. case encodeMessage (cdc E) m of Inl _ \<Rightarrow> [] | Inr pkt \<Rightarrow> [pkt]) ms)"

text \<open>The state after these packets have been put into the queue of peer \<open>p\<close>.\<close>

definition sendMany :: "nat \<Rightarrow> byte list list \<Rightarrow> 'c world \<Rightarrow> 'c world" where
  "sendMany p pkts w = fold (enqueue p) pkts w"

lemma packets_simps [simp]: "packets E [] = []" "packets E (ms @ ms') = packets E ms @ packets E ms'"
  by (simp_all add: packets_def)

lemma sendMany_append: "sendMany p (xs @ ys) w = sendMany p ys (sendMany p xs w)"
  by (simp add: sendMany_def)

lemma sendMany_frame [simp]:
  "state (heap (sendMany p pkts w) q) = state (heap w q)"
  "direction (heap (sendMany p pkts w) q) = direction (heap w q)"
  "myAnnouncements (sendMany p pkts w) = myAnnouncements w"
  "mySubscriptions (sendMany p pkts w) = mySubscriptions w"
  "txQueue (sendMany p pkts w) q = (if q = p then txQueue w p @ pkts else txQueue w q)"
  by (induction pkts arbitrary: w; simp add: sendMany_def)+

lemma sendMany_tx: "txChan (heap w p) \<noteq> None \<Longrightarrow> txChan (heap (sendMany p pkts w) p) \<noteq> None"
  by (induction pkts arbitrary: w) (simp_all add: sendMany_def enqueue_def)

text \<open>A peer that is \<open>ESTABLISHED\<close> and has its queue, on the side \<open>dir\<close> of a node
  whose announcements are \<open>t\<close>.\<close>

definition readyPeer :: "nat \<Rightarrow> ConnectionDirection \<Rightarrow> routeTable \<Rightarrow> 'c world \<Rightarrow> bool" where
  "readyPeer p dir t w \<longleftrightarrow> txChan (heap w p) \<noteq> None \<and> state (heap w p) = ESTABLISHED \<and> direction (heap w p) = dir \<and>
     myAnnouncements w = t"

lemma readyPeer_sendMany: "readyPeer p dir t w \<Longrightarrow> readyPeer p dir t (sendMany p pkts w)"
  using sendMany_tx [of w p pkts] by (simp add: readyPeer_def)

lemma SendUpdate_ready:
  "readyPeer p dir t w \<Longrightarrow> \<exists>r. SendUpdate E p u w = (Returns r, sendMany p (packets E [MsgUpdate u]) w)"
  using SendUpdate_run [of w p E u]
  by (simp add: readyPeer_def packets_def sendMany_def split: sum.split)

lemma peerSubscribe_ready:
  "readyPeer p dir t w \<Longrightarrow> \<exists>r. peerSubscribe E p v w =
     (Returns r, sendMany p (if dir = OUTGOING then packets E [MsgSubscribe \<lparr>subscribeVNI = v\<rparr>] else []) w)"
  using sendMessage_run [of w p E "MsgSubscribe \<lparr>subscribeVNI = v\<rparr>"]
  by (cases dir) (simp_all add: readyPeer_def peerSubscribe_def GetState_def packets_def sendMany_def
      split: sum.split)

text \<open>A loop each round of which sends some packets to one ready peer.\<close>

lemma forEach_sends:
  assumes "\<And>x w. x \<in> set xs \<Longrightarrow> readyPeer p dir t w \<Longrightarrow> \<exists>r. f x w = (Returns r, sendMany p (g x) w)"
    and "readyPeer p dir t w"
  shows "forEach xs f w = (Returns (), sendMany p (concat (map g xs)) w)"
  using assms
proof (induction xs arbitrary: w)
  case (Cons x xs)
  obtain r where "f x w = (Returns r, sendMany p (g x) w)" using Cons.prems by force
  moreover have "forEach xs f (sendMany p (g x) w) = (Returns (), sendMany p (concat (map g xs)) (sendMany p (g x) w))"
    using Cons.prems by (intro Cons.IH) (auto simp: readyPeer_sendMany)
  ultimately show ?case by (simp add: sendMany_append)
qed (simp add: sendMany_def)

text \<open>The announcements in the order the loops of \<open>setState\<close> visit them.\<close>

definition announced :: "routeTable \<Rightarrow> (VNI \<times> Destination \<times> NextHop) list" where
  "announced t = concat (map (\<lambda>v. concat (map (\<lambda>(d, hs). map (\<lambda>h. (v, d, h)) hs)
     (GetDestinationsByVNI t v))) (GetVNIs t))"

definition announcePackets :: "'c env \<Rightarrow> routeTable \<Rightarrow> byte list list" where
  "announcePackets E t = packets E (map (\<lambda>(v, d, h). updateMsg ADD v d h) (announced t))"

lemma concat_packets: "concat (map (\<lambda>x. packets E (f x)) xs) = packets E (concat (map f xs))"
  by (induction xs) simp_all

lemma packets_map: "concat (map (\<lambda>x. packets E [f x]) xs) = packets E (map f xs)"
  by (induction xs) (simp_all add: packets_def)

lemma announceTo_run:
  fixes E :: "'c env"
  assumes "readyPeer p dir t w"
  shows "announceTo E p w = (Returns (), sendMany p (announcePackets E t) w)"
proof -
  let ?upd = "\<lambda>v d h. updateMsg ADD v d h"
  let ?hops = "\<lambda>v d hs. packets E (map (?upd v d) hs)"
  let ?dests = "\<lambda>v. packets E (concat (map (\<lambda>(d, hs). map (?upd v d) hs) (GetDestinationsByVNI t v)))"
  have send: "\<exists>r. SendUpdate E p \<lparr>updAction = ADD, updVNI = v, updDestination = d, updNextHop = h\<rparr> w =
      (Returns r, sendMany p (packets E [?upd v d h]) w)" if "readyPeer p dir t w" for v d h and w :: "'c world"
    using SendUpdate_ready [OF that] by (simp add: updateMsg_def)
  have hops: "forEach hs (\<lambda>h. SendUpdate E p
      \<lparr>updAction = ADD, updVNI = v, updDestination = d, updNextHop = h\<rparr>) w = (Returns (), sendMany p (?hops v d hs) w)"
    if "readyPeer p dir t w" for v d hs and w :: "'c world"
    using forEach_sends [where g = "\<lambda>h. packets E [?upd v d h]", OF send that] by (simp add: packets_map)
  have dests: "forEach (GetDestinationsByVNI t v) (\<lambda>(d, hs). forEach hs (\<lambda>h. SendUpdate E p
      \<lparr>updAction = ADD, updVNI = v, updDestination = d, updNextHop = h\<rparr>)) w = (Returns (), sendMany p (?dests v) w)"
    if "readyPeer p dir t w" for v and w :: "'c world"
  proof -
    have "forEach (GetDestinationsByVNI t v) (\<lambda>(d, hs). forEach hs (\<lambda>h. SendUpdate E p
        \<lparr>updAction = ADD, updVNI = v, updDestination = d, updNextHop = h\<rparr>)) w =
        (Returns (), sendMany p (concat (map (\<lambda>(d, hs). ?hops v d hs) (GetDestinationsByVNI t v))) w)"
      by (rule forEach_sends [OF _ that]) (use hops in \<open>auto split: prod.split\<close>)
    moreover have "concat (map (\<lambda>(d, hs). ?hops v d hs) (GetDestinationsByVNI t v)) = ?dests v"
      by (simp add: concat_packets case_prod_beta')
    ultimately show ?thesis by simp
  qed
  have "forEach (GetVNIs t) (\<lambda>v. bind (gets (\<lambda>w. GetDestinationsByVNI (myAnnouncements w) v)) (\<lambda>ds.
      forEach ds (\<lambda>(d, hs). forEach hs (\<lambda>h. SendUpdate E p
      \<lparr>updAction = ADD, updVNI = v, updDestination = d, updNextHop = h\<rparr>)))) w =
      (Returns (), sendMany p (concat (map ?dests (GetVNIs t))) w)"
    by (rule forEach_sends [OF _ assms]) (use dests in \<open>simp add: readyPeer_def\<close>)
  moreover have "concat (map ?dests (GetVNIs t)) = announcePackets E t"
    by (simp add: concat_packets announcePackets_def announced_def map_concat comp_def case_prod_beta')
  ultimately show ?thesis using assms by (simp add: announceTo_def readyPeer_def)
qed

lemma setState_established:
  assumes "txChan (heap w p) \<noteq> None" "state (heap w p) \<noteq> ESTABLISHED"
  shows "setState E p ESTABLISHED w = (Returns (),
     sendMany p
       ((if direction (heap w p) = OUTGOING
         then packets E (map (\<lambda>v. MsgSubscribe \<lparr>subscribeVNI = v\<rparr>) (gkeys (mySubscriptions w))) else []) @
        packets E (map (\<lambda>(v, d, h). updateMsg ADD v d h) (announced (myAnnouncements w))))
       (updPeer p (\<lambda>x. x\<lparr>state := ESTABLISHED\<rparr>) w))"
proof -
  let ?w = "updPeer p (\<lambda>x. x\<lparr>state := ESTABLISHED\<rparr>) w"
  let ?dir = "direction (heap w p)"
  let ?g = "\<lambda>v. if ?dir = OUTGOING then packets E [MsgSubscribe \<lparr>subscribeVNI = v\<rparr>] else []"
  have ready: "readyPeer p ?dir (myAnnouncements w) ?w" using assms by (simp add: readyPeer_def)
  have subs: "forEach (gkeys (mySubscriptions w)) (peerSubscribe E p) ?w =
      (Returns (), sendMany p (concat (map ?g (gkeys (mySubscriptions w)))) ?w)"
    by (rule forEach_sends [OF peerSubscribe_ready ready])
  note ann = announceTo_run [OF readyPeer_sendMany [OF ready], of E]
  have "concat (map ?g xs) = (if ?dir = OUTGOING
      then packets E (map (\<lambda>v. MsgSubscribe \<lparr>subscribeVNI = v\<rparr>) xs) else [])" for xs
    by (simp add: packets_map)
  with subs ann assms(2) show ?thesis
    by (simp add: setState_def setPeer_def sendMany_append announcePackets_def)
qed

text \<open>
  C13. When a connection becomes \<open>ESTABLISHED\<close>, the peer is sent, in this order, a
  SUBSCRIBE for each of the node's subscriptions (only on an outgoing connection) and an
  ADD update for each of the node's announcements, and nothing else happens.
\<close>

theorem established_sends_everything:
  assumes "txChan (heap w p) \<noteq> None" "state (heap w p) \<noteq> ESTABLISHED"
  shows "setState E p ESTABLISHED w = (Returns (),
     sendMany p
       ((if direction (heap w p) = OUTGOING
         then packets E (map (\<lambda>v. MsgSubscribe \<lparr>subscribeVNI = v\<rparr>) (gkeys (mySubscriptions w))) else []) @
        packets E (map (\<lambda>(v, d, h). updateMsg ADD v d h) (announced (myAnnouncements w))))
       (updPeer p (\<lambda>x. x\<lparr>state := ESTABLISHED\<rparr>) w))"
  using assms by (rule setState_established)

definition exSubscribed :: "unit world" where
  "exSubscribed = exWorld\<lparr>mySubscriptions := [(9, True)]\<rparr>"

theorem established_sends_everything_witness:
  "txChan (heap exSubscribed 2) = Some [] \<and> state (heap exSubscribed 2) = CONNECTING \<and>
     txQueue (snd (setState exEnv 2 ESTABLISHED exSubscribed)) 2 = [[1, 0, 2, 3, 8, 9]]"
proof -
  have "encodeMessage protoCodec (MsgSubscribe \<lparr>subscribeVNI = 9\<rparr>) = Inr [1, 0, 2, 3, 8, 9]"
    by code_simp
  moreover have "heap exSubscribed = exHeap" "myAnnouncements exSubscribed = newRouteTable"
    "mySubscriptions exSubscribed = [(9, True)]"
    by (simp_all add: exSubscribed_def)
  moreover have "announced newRouteTable = []"
    by (simp add: announced_def newRouteTable_def GetVNIs_def)
  moreover have "txChan (exHeap 2) = Some []" "state (exHeap 2) = CONNECTING" "direction (exHeap 2) = OUTGOING"
    by (simp_all add: exHeap_def exPeer_def noPeer_def)
  ultimately show ?thesis
    using established_sends_everything [of exSubscribed 2 exEnv]
    by (simp add: packets_def exEnv_def) (simp add: txQueue_def)
qed

section \<open>The handshake\<close>

text \<open>Changing the state of a peer that subscribes to nothing changes nothing else.\<close>

lemma setState_quiet:
  assumes "\<not> mtxSubscribers w" "\<And>v. notSubscribed p v w" "st \<noteq> ESTABLISHED"
  shows "setState E p st w = (Returns (), updPeer p (\<lambda>x. x\<lparr>state := st\<rparr>) w)"
proof -
  have "filter (\<lambda>v. p \<in> set (gkeys (gsub (subscribers w) v))) (gkeys (subscribers w)) = []"
    using assms(2) by (auto simp: filter_empty_conv notSubscribed_def gget_in_gkeys)
  then show ?thesis
    using assms by (simp add: setState_def setPeer_def rlockSubscribers_def)
qed

lemma notSubscribed_updPeer [simp]: "notSubscribed p v (updPeer q f w) = notSubscribed p v w"
  by (simp add: notSubscribed_def)

lemma updPeer_updPeer: "updPeer p g (updPeer p f w) = updPeer p (g \<circ> f) w"
  by (simp add: updPeer_def)

text \<open>The peer after its HELLO has been read, and the goroutine that is started then.\<close>

definition helloDone :: "nat \<Rightarrow> 32 word \<Rightarrow> bool \<Rightarrow> 'c world \<Rightarrow> 'c world" where
  "helloDone p ka srv w = (updPeer p (\<lambda>x. x\<lparr>peerIsServer := srv, peerKeepalive := ka, state := HELLO_RECEIVED\<rparr>) w)
     \<lparr>spawned := spawned w @ [GoKeepaliveLoop p]\<rparr>"

lemma processRxHello_run:
  assumes "\<not> mtxSubscribers w" "\<forall>v. notSubscribed p v w" "txChan (heap w p) \<noteq> None"
    and "1 \<le> helloKeepaliveInterval m"
    and "ka = min (helloKeepaliveInterval m) (peerKeepalive (heap w p))"
    and "encodeMessage (cdc E) (MsgHello \<lparr>helloKeepaliveInterval = ka, helloIsServer = mbIsServer w\<rparr>) = Inr pkt"
  shows "processRxHello E p m w = (Returns (), if direction (heap w p) = INCOMING
     then updPeer p (\<lambda>x. x\<lparr>state := HELLO_SENT\<rparr>) (enqueue p pkt (helloDone p ka (helloIsServer m) w))
     else helloDone p ka (helloIsServer m) w)"
proof -
  define w1 where "w1 = updPeer p (\<lambda>x. x\<lparr>peerKeepalive := ka\<rparr>)
    (updPeer p (\<lambda>x. x\<lparr>peerIsServer := helloIsServer m\<rparr>) w)"
  define w2 where "w2 = helloDone p ka (helloIsServer m) w"
  have w2: "w2 = (updPeer p (\<lambda>x. x\<lparr>state := HELLO_RECEIVED\<rparr>) w1)\<lparr>spawned := spawned w @ [GoKeepaliveLoop p]\<rparr>"
    by (simp add: w2_def w1_def helloDone_def updPeer_updPeer comp_def)
  have 1: "setState E p HELLO_RECEIVED w1 = (Returns (), updPeer p (\<lambda>x. x\<lparr>state := HELLO_RECEIVED\<rparr>) w1)"
    using assms(1,2) by (intro setState_quiet) (simp_all add: w1_def)
  have 2: "sendMessage E p (MsgHello \<lparr>helloKeepaliveInterval = ka, helloIsServer = mbIsServer w\<rparr>) w2 =
      (Returns None, enqueue p pkt w2)"
    using sendMessage_run [of w2 p E] assms(3,6) by (simp add: w2 w1_def)
  have 3: "setState E p HELLO_SENT (enqueue p pkt w2) =
      (Returns (), updPeer p (\<lambda>x. x\<lparr>state := HELLO_SENT\<rparr>) (enqueue p pkt w2))"
    using assms(1,2) by (intro setState_quiet) (simp_all add: w2 w1_def notSubscribed_def)
  have ka: "(if helloKeepaliveInterval m < peerKeepalive (heap w p) then helloKeepaliveInterval m
      else peerKeepalive (heap w p)) = ka" by (auto simp: assms(5) min_def)
  have upd: "updPeer p (\<lambda>x. x\<lparr>peerKeepalive := (if helloKeepaliveInterval m < peerKeepalive x
      then helloKeepaliveInterval m else peerKeepalive x)\<rparr>)
      (updPeer p (\<lambda>x. x\<lparr>peerIsServer := helloIsServer m\<rparr>) w) = w1"
    by (cases "helloKeepaliveInterval m < peerKeepalive (heap w p)") (use ka in \<open>auto simp: w1_def updPeer_def\<close>)
  have "\<not> helloKeepaliveInterval m < 1" using assms(4) by (rule leD)
  then show ?thesis
    using 1 2 3 upd unfolding w2_def [symmetric] by (simp add: processRxHello_def setPeer_def goStart_def w2 w1_def)
qed

text \<open>
  C27. A HELLO with a positive interval: the peer's keepalive interval becomes the
  smaller of the two, the keepalive goroutine is started, and the state is
  \<open>HELLO_RECEIVED\<close> on an outgoing connection; on an incoming one the answer, with that
  interval and whether this node is a server, is queued and the state is \<open>HELLO_SENT\<close>.
\<close>

theorem hello_negotiates:
  assumes "\<not> mtxSubscribers w" "\<forall>v. notSubscribed p v w" "txChan (heap w p) \<noteq> None"
    and "1 \<le> helloKeepaliveInterval m"
    and "encodeMessage (cdc E) (MsgHello \<lparr>helloKeepaliveInterval = min (helloKeepaliveInterval m)
       (peerKeepalive (heap w p)), helloIsServer = mbIsServer w\<rparr>) = Inr pkt"
  shows "\<exists>w'. processRxHello E p m w = (Returns (), w') \<and>
     peerKeepalive (heap w' p) = min (helloKeepaliveInterval m) (peerKeepalive (heap w p)) \<and>
     spawned w' = spawned w @ [GoKeepaliveLoop p] \<and>
     (if direction (heap w p) = INCOMING
      then state (heap w' p) = HELLO_SENT \<and> txQueue w' p = txQueue w p @ [pkt]
      else state (heap w' p) = HELLO_RECEIVED \<and> txQueue w' p = txQueue w p)"
  using processRxHello_run [OF assms(1-4) refl assms(5)]
  by (simp add: helloDone_def enqueue_def txQueue_def)

text \<open>The example node with peer 2 on an incoming connection.\<close>

definition exIncoming :: "unit world" where
  "exIncoming = updPeer 2 (\<lambda>x. x\<lparr>direction := INCOMING, remoteAddr := ''c''\<rparr>) exWorld"

lemma exIncoming_facts [simp]:
  "\<not> mtxSubscribers exIncoming" "notSubscribed 2 v exIncoming" "mbIsServer exIncoming = False"
  "heap exIncoming 2 = (exPeer CONNECTING)\<lparr>direction := INCOMING, remoteAddr := ''c''\<rparr>"
  "txChan (heap exIncoming 2) = Some []" "peerKeepalive (heap exIncoming 2) = 5"
  "gget (peers exIncoming) ''c'' = Some 2"
  by (simp_all add: exIncoming_def notSubscribed_def gsub_def exHeap_def exPeer_def noPeer_def
      exWorldOf_def initWorld_def NewMetalBond_def Let_def World.MetalBond.extend_def)

lemma exIncoming_calm: "calm {0, 1, 2} exIncoming"
  unfolding exIncoming_def by (rule calm_updPeer [OF exWorld_calm]) (simp add: chansMade_def)

theorem hello_negotiates_witness:
  "direction (heap exIncoming 2) = INCOMING \<and>
     (\<exists>w'. processRxHello exEnv 2 \<lparr>helloKeepaliveInterval = 10, helloIsServer = True\<rparr> exIncoming = (Returns (), w') \<and>
        peerKeepalive (heap w' 2) = 5 \<and> state (heap w' 2) = HELLO_SENT \<and>
        txQueue w' 2 = [[1, 0, 2, 1, 8, 5]])"
proof -
  have pkt: "encodeMessage (cdc exEnv) (MsgHello \<lparr>helloKeepaliveInterval =
      min (helloKeepaliveInterval \<lparr>helloKeepaliveInterval = 10, helloIsServer = True\<rparr>)
        (peerKeepalive (heap exIncoming 2)), helloIsServer = mbIsServer exIncoming\<rparr>) = Inr [1, 0, 2, 1, 8, 5]"
    unfolding exIncoming_facts exEnv_def by code_simp
  have "txQueue exIncoming 2 = []" by (simp add: txQueue_def exPeer_def)
  with hello_negotiates [OF _ _ _ _ pkt] show ?thesis by (auto simp: exPeer_def min_def)
qed

section \<open>A HELLO with keepalive interval 0\<close>

text \<open>Closing a peer that subscribes to nothing.\<close>

lemma Close_quiet:
  assumes "\<not> mtxSubscribers w" "\<And>v. notSubscribed p v w" "chansMade (heap w p)"
  shows "\<exists>f. Close E p w = (Returns (), updPeer p f w) \<and> (\<forall>x. chansMade x \<longrightarrow> chansMade (f x)) \<and>
     (\<forall>x. direction (f x) = direction x \<and> remoteAddr (f x) = remoteAddr x)"
proof (cases "state (heap w p) = CLOSED")
  case True
  have "updPeer p (\<lambda>x. x) w = w" by (simp add: updPeer_def)
  with True show ?thesis
    by (intro exI [of _ "\<lambda>x. x"]) (simp add: Close_def GetState_def)
next
  case False
  from assms(3) obtain a b c where ch: "txChanClose (heap w p) = Some a" "shutdown (heap w p) = Some b"
    "keepaliveStop (heap w p) = Some c"
    by (auto simp: chansMade_def)
  have "setState E p CLOSED w = (Returns (), updPeer p (\<lambda>x. x\<lparr>state := CLOSED\<rparr>) w)"
    using assms(1,2) by (intro setState_quiet) simp_all
  then have "Close E p w = (Returns (), updPeer p (\<lambda>x. x\<lparr>state := CLOSED, txChanClose := Some (Suc a),
      shutdown := Some (Suc b), keepaliveStop := Some (Suc c)\<rparr>) w)"
    using False ch by (simp add: Close_def GetState_def signal_def updPeer_updPeer comp_def)
  then show ?thesis by (intro exI) (auto simp: chansMade_def)
qed

lemma keepaliveTick_zero: "keepaliveTick 0 = 0"
  by (simp add: keepaliveTick_def)

lemma keepaliveInit_zero:
  "peerKeepalive (heap w p) = 0 \<Longrightarrow> fst (keepaliveInit E p w) = Panics"
  by (simp add: keepaliveInit_def wgAdd_def setPeer_def keepaliveTick_zero)

text \<open>
  A HELLO with interval 0 on an incoming connection: \<open>processRxHello\<close> resets the
  connection and then goes on. The closed peer is back in state \<open>HELLO_SENT\<close>, its keepalive
  interval is 0, and the keepalive goroutine it starts panics when it makes its ticker,
  which ends the whole program.
\<close>

lemma hello_zero_interval:
  assumes "\<not> mtxSubscribers w" "\<forall>v. notSubscribed p v w" "chansMade (heap w p)"
    and "direction (heap w p) = INCOMING" "state (heap w p) \<noteq> CLOSED"
    and "gget (peers w) (remoteAddr (heap w p)) = Some p"
    and "helloKeepaliveInterval m = 0"
  shows "\<exists>w'. processRxHello E p m w = (Returns (), w') \<and> state (heap w' p) = HELLO_SENT \<and>
     GoKeepaliveLoop p \<in> set (spawned w') \<and> fst (startThread E (GoKeepaliveLoop p) w') = Panics"
proof -
  obtain f where f: "Close E p w = (Returns (), updPeer p f w)" "\<forall>x. chansMade x \<longrightarrow> chansMade (f x)"
    "\<forall>x. direction (f x) = direction x \<and> remoteAddr (f x) = remoteAddr x"
    using Close_quiet [OF assms(1) _ assms(3)] assms(2) by blast
  obtain g where g: "Close E p (updPeer p f w) = (Returns (), updPeer p g (updPeer p f w))"
    "\<forall>x. chansMade x \<longrightarrow> chansMade (g x)" "\<forall>x. direction (g x) = direction x \<and> remoteAddr (g x) = remoteAddr x"
    using Close_quiet [of "updPeer p f w" p E] assms(1-3) f(2) by auto
  define w1 where "w1 = (updPeer p g (updPeer p f w))\<lparr>peers := gdel (remoteAddr (heap w p)) (peers w)\<rparr>"
  have reset: "Reset E p w = (Returns (), w1)"
    using f g assms(4-6) by (simp add: Reset_def GetState_def RemovePeer_def unsafeRemovePeer_def w1_def)
  have w1: "\<not> mtxSubscribers w1" "\<And>v. notSubscribed p v w1" "chansMade (heap w1 p)" "direction (heap w1 p) = INCOMING"
    using assms(1-4) f g by (simp_all add: w1_def notSubscribed_def)
  define w2 where "w2 = (updPeer p (\<lambda>x. x\<lparr>state := HELLO_RECEIVED\<rparr>)
    (updPeer p (\<lambda>x. x\<lparr>peerKeepalive := 0\<rparr>) (updPeer p (\<lambda>x. x\<lparr>peerIsServer := helloIsServer m\<rparr>) w1)))
    \<lparr>spawned := spawned w1 @ [GoKeepaliveLoop p]\<rparr>"
  have ka: "(\<lambda>x. x\<lparr>peerKeepalive := if 0 < peerKeepalive x then helloKeepaliveInterval m
      else peerKeepalive x\<rparr>) = (\<lambda>x. x\<lparr>peerKeepalive := 0\<rparr>)"
    using assms(7) by (auto simp: fun_eq_iff word_gt_0)
  have s1: "setState E p HELLO_RECEIVED (updPeer p (\<lambda>x. x\<lparr>peerKeepalive := 0\<rparr>)
      (updPeer p (\<lambda>x. x\<lparr>peerIsServer := helloIsServer m\<rparr>) w1)) = (Returns (),
      updPeer p (\<lambda>x. x\<lparr>state := HELLO_RECEIVED\<rparr>) (updPeer p (\<lambda>x. x\<lparr>peerKeepalive := 0\<rparr>)
      (updPeer p (\<lambda>x. x\<lparr>peerIsServer := helloIsServer m\<rparr>) w1)))"
    using w1 by (intro setState_quiet) simp_all
  have "txChan (heap w2 p) \<noteq> None" using w1(3) by (simp add: w2_def chansMade_def)
  then obtain r w3 where w3: "sendMessage E p (MsgHello \<lparr>helloKeepaliveInterval = 0, helloIsServer = mbIsServer w2\<rparr>) w2 = (Returns r, w3)"
    "w3 = w2 \<or> (\<exists>pkt. w3 = enqueue p pkt w2)"
    by (rule sendMessage_made)
  have s2: "setState E p HELLO_SENT w3 = (Returns (), updPeer p (\<lambda>x. x\<lparr>state := HELLO_SENT\<rparr>) w3)"
    using w3(2) w1 by (intro setState_quiet) (auto simp: w2_def notSubscribed_def)
  have "processRxHello E p m w = (Returns (), updPeer p (\<lambda>x. x\<lparr>state := HELLO_SENT\<rparr>) w3)"
    using reset s1 s2 w3(1) w1(4) assms(7)
    by (simp add: processRxHello_def setPeer_def goStart_def w2_def ka)
  moreover have "peerKeepalive (heap w3 p) = 0" "GoKeepaliveLoop p \<in> set (spawned w3)"
    using w3(2) by (auto simp: w2_def enqueue_def)
  ultimately show ?thesis
    using keepaliveInit_zero [of "updPeer p (\<lambda>x. x\<lparr>state := HELLO_SENT\<rparr>) w3" p E]
    by (auto simp: startThread_def andThen_def bind_def split: prod.splits)
qed

text \<open>
  On an outgoing connection \<open>Reset\<close> waits until the goroutines of the peer have
  ended. Called from one of them, as \<open>processRxHello\<close> does on an interval of 0 and
  \<open>addSubscriber\<close> on a failed update, it waits for itself: the goroutine is stuck in state
  \<open>RETRY\<close>.
\<close>

lemma reset_from_own_goroutine_blocks:
  assumes "\<not> mtxSubscribers w" "\<forall>v. notSubscribed p v w" "chansMade (heap w p)"
    and "direction (heap w p) = OUTGOING" "state (heap w p) \<noteq> CLOSED" "0 < wg (heap w p)"
    and "helloKeepaliveInterval m = 0"
  shows "\<exists>w'. processRxHello E p m w = (Blocks, w') \<and> state (heap w' p) = RETRY"
proof -
  from assms(3) obtain a b c where ch: "txChanClose (heap w p) = Some a" "shutdown (heap w p) = Some b"
    "keepaliveStop (heap w p) = Some c"
    by (auto simp: chansMade_def)
  have "setState E p RETRY w = (Returns (), updPeer p (\<lambda>x. x\<lparr>state := RETRY\<rparr>) w)"
    using assms(1,2) by (intro setState_quiet) simp_all
  then have "resetBegin E p w = (Returns (), updPeer p (\<lambda>x. x\<lparr>state := RETRY, txChanClose := Some (Suc a),
      shutdown := Some (Suc b), keepaliveStop := Some (Suc c)\<rparr>) w)" (is "_ = (_, ?w)")
    using ch by (simp add: resetBegin_def signal_def updPeer_updPeer comp_def)
  moreover have "wgWait p ?w = (Blocks, ?w)" using assms(6) by (simp add: wgWait_def)
  ultimately have "Reset E p w = (Blocks, ?w)"
    using assms(4,5) by (simp add: Reset_def GetState_def)
  then show ?thesis using assms(7) by (simp add: processRxHello_def)
qed

text \<open>
  C38. A HELLO with interval 0 is fatal, whatever the direction of the connection. On an incoming
  one \<open>processRxHello\<close> resets the connection and goes on: the closed peer is back in state
  \<open>HELLO_SENT\<close>, and the keepalive goroutine it starts panics when it makes its ticker, which ends
  the program. On an outgoing one \<open>Reset\<close> waits for the peer's goroutines, of which the caller is
  one: the connection is stuck in state \<open>RETRY\<close>.
\<close>

theorem hello_zero_fatal:
  assumes "\<not> mtxSubscribers w" "\<forall>v. notSubscribed p v w" "chansMade (heap w p)" "state (heap w p) \<noteq> CLOSED"
    and "gget (peers w) (remoteAddr (heap w p)) = Some p" "0 < wg (heap w p)"
    and "helloKeepaliveInterval m = 0"
  shows "if direction (heap w p) = INCOMING
     then \<exists>w'. processRxHello E p m w = (Returns (), w') \<and> state (heap w' p) = HELLO_SENT \<and>
       GoKeepaliveLoop p \<in> set (spawned w') \<and> fst (startThread E (GoKeepaliveLoop p) w') = Panics
     else \<exists>w'. processRxHello E p m w = (Blocks, w') \<and> state (heap w' p) = RETRY"
proof (cases "direction (heap w p)")
  case INCOMING
  then show ?thesis using hello_zero_interval [OF assms(1-3) _ assms(4,5,7)] by simp
next
  case OUTGOING
  then show ?thesis using reset_from_own_goroutine_blocks [OF assms(1-3) _ assms(4,6,7)] by simp
qed

theorem hello_zero_fatal_witness:
  "(\<exists>w'. processRxHello exEnv 2 \<lparr>helloKeepaliveInterval = 0, helloIsServer = False\<rparr>
       (updPeer 2 (\<lambda>x. x\<lparr>wg := 1\<rparr>) exIncoming) = (Returns (), w') \<and>
       fst (startThread exEnv (GoKeepaliveLoop 2) w') = Panics) \<and>
     (\<exists>w'. processRxHello exEnv 2 \<lparr>helloKeepaliveInterval = 0, helloIsServer = False\<rparr>
       (updPeer 2 (\<lambda>x. x\<lparr>wg := 1, remoteAddr := ''c''\<rparr>) exWorld) = (Blocks, w'))"
proof -
  have "chansMade (exHeap 2)" "direction (exHeap 2) = OUTGOING" "state (exHeap 2) = CONNECTING"
    by (simp_all add: exHeap_def exPeer_def noPeer_def chansMade_def)
  moreover have "chansMade (heap exIncoming 2)" "state (heap exIncoming 2) = CONNECTING"
    by (simp_all add: chansMade_def exPeer_def noPeer_def)
  moreover have "notSubscribed 2 v exWorld" for v by (simp add: notSubscribed_def gsub_def)
  moreover have "notSubscribed 2 v (updPeer 2 f w) = notSubscribed 2 v w" for v f and w :: "unit world"
    by (simp add: notSubscribed_def)
  ultimately show ?thesis
    using hello_zero_fatal [of "updPeer 2 (\<lambda>x. x\<lparr>wg := 1\<rparr>) exIncoming" 2
        "\<lparr>helloKeepaliveInterval = 0, helloIsServer = False\<rparr>" exEnv]
      hello_zero_fatal [of "updPeer 2 (\<lambda>x. x\<lparr>wg := 1, remoteAddr := ''c''\<rparr>) exWorld" 2
        "\<lparr>helloKeepaliveInterval = 0, helloIsServer = False\<rparr>" exEnv]
    by (auto simp: chansMade_def)
qed

section \<open>Keepalive times\<close>

lemma sint_duration:
  "- 9223372036854775808 \<le> z \<Longrightarrow> z < 9223372036854775808 \<Longrightarrow> sint (word_of_int z :: 64 word) = z"
  by (simp add: signed_of_int signed_take_bit_int_eq_self)

lemma duration_word:
  "(ucast (ka :: 32 word) * 1000000000 * 5 :: 64 word) = word_of_int (5000000000 * uint ka)"
  "(ucast (ka :: 32 word) * 1000000000 :: 64 word) = word_of_int (1000000000 * uint ka)"
  by (simp_all add: ucast_eq [symmetric] mult.commute)

lemma keepaliveTick_exact: "keepaliveTick ka = 1000000000 * uint ka"
proof -
  have "0 \<le> uint ka" "uint ka \<le> 4294967295" using uint_bounded [of ka] by simp_all
  then have "sint (word_of_int (1000000000 * uint ka) :: 64 word) = 1000000000 * uint ka"
    by (intro sint_duration; linarith)
  then show ?thesis unfolding keepaliveTick_def duration_word(2) .
qed

lemma sdiv_two: "(2 * z) sdiv (2 :: int) = z"
  by (cases "0 \<le> z") (auto simp: signed_divide_int_def sgn_if)

text \<open>
  C35. The ticker's interval is exact for every keepalive interval. The keepalive timeout is
  exactly two and a half intervals up to 1844674407 seconds; above, the 64-bit product wraps,
  and from 1844674408 to 3689348814 seconds, which a node can be configured with and a peer can
  propose, the timeout is negative, so that the timer fires at once.
\<close>

theorem keepalive_times:
  "keepaliveTick ka = 1000000000 * uint ka \<and>
     keepaliveTimeout ka = 2500000000 * uint ka - (if ka \<le> 1844674407 then 0 else 2 ^ 63) \<and>
     (keepaliveTimeout ka < 0 \<longleftrightarrow> 1844674408 \<le> ka \<and> ka \<le> 3689348814)"
proof -
  define n where "n = uint ka"
  define wrap :: int where "wrap = (if ka \<le> 1844674407 then 0 else 18446744073709551616)"
  have n: "0 \<le> n" "n \<le> 4294967295" using uint_bounded [of ka] by (simp_all add: n_def)
  have le: "ka \<le> 1844674407 \<longleftrightarrow> n \<le> 1844674407" "1844674408 \<le> ka \<longleftrightarrow> 1844674408 \<le> n"
    "ka \<le> 3689348814 \<longleftrightarrow> n \<le> 3689348814"
    by (simp_all add: word_le_def n_def)
  have "(word_of_int (5000000000 * n) :: 64 word) = word_of_int (5000000000 * n - wrap)"
    by (simp add: word_of_int_eq_iff take_bit_eq_mod wrap_def)
  moreover have "sint (word_of_int (5000000000 * n - wrap) :: 64 word) = 5000000000 * n - wrap"
    using n le by (intro sint_duration) (auto simp: wrap_def)
  ultimately have "sint (word_of_int (5000000000 * n) :: 64 word) = 2 * (2500000000 * n - wrap div 2)"
    by (simp add: wrap_def)
  then have timeout: "keepaliveTimeout ka = 2500000000 * n - wrap div 2"
    unfolding keepaliveTimeout_def duration_word(1) n_def [symmetric] by (simp only: sdiv_two)
  with le keepaliveTick_exact show ?thesis by (auto simp: wrap_def n_def)
qed

section \<open>Progress, and where it ends\<close>

text \<open>The program returns from state \<open>w\<close> and leaves a calm node.\<close>

definition returnsCalm :: "nat set \<Rightarrow> ('c, 'a) go \<Rightarrow> 'c world \<Rightarrow> bool" where
  "returnsCalm P f w \<longleftrightarrow> (\<exists>a w'. f w = (Returns a, w') \<and> calm P w')"

lemma returnsCalmI: "finishes (calm P) f \<Longrightarrow> calm P w \<Longrightarrow> returnsCalm P f w"
  by (auto simp: returnsCalm_def elim: finishesE)



lemma locked:
  assumes "mtxSubscribers w"
  shows "distributeRouteToPeers E a v d h from w = (Blocks, w)"
    and "addSubscriber E q v w = (Blocks, w)" and "removeSubscriber E q v w = (Blocks, w)"
  using assms by (simp_all add: distributeRouteToPeers_def Let_def rlockSubscribers_def
      addSubscriber_def lockSubscribers_def removeSubscriber_def)

text \<open>
  C37. A SUBSCRIBE from a peer that is already subscribed returns with the subscriber mutex
  held. From then on no route is distributed and no subscriber is added: every such call
  waits for ever.
\<close>

theorem repeated_subscribe_locks_node:
  assumes "\<not> mtxSubscribers w" "gget (gsub (subscribers w) (subscribeVNI m)) p \<noteq> None"
  shows "\<exists>w'. processRxSubscribe E p m w = (Returns (), w') \<and> mtxSubscribers w' \<and>
     (\<forall>a v d h from. distributeRouteToPeers E a v d h from w' = (Blocks, w')) \<and>
     (\<forall>q v. addSubscriber E q v w' = (Blocks, w') \<and> removeSubscriber E q v w' = (Blocks, w'))"
proof -
  have "gget (subscribers w) (subscribeVNI m) \<noteq> None"
    using assms(2) by (auto simp: gsub_def split: option.splits)
  then have ens: "gensure (subscribeVNI m) (subscribers w) = subscribers w" by (auto simp: gensure_def)
  have sub: "addSubscriber E p (subscribeVNI m) w1 =
      (Returns (Some (Errorf ''peer is already subscribed'')), w1\<lparr>mtxSubscribers := True\<rparr>)"
    if "subscribers w1 = subscribers w" "\<not> mtxSubscribers w1" for w1
    using that assms(2) ens by (simp add: addSubscriber_def lockSubscribers_def)
  define w2 where "w2 = (updPeer p (\<lambda>x. x\<lparr>subscribedVNIs := gput (subscribeVNI m) True (subscribedVNIs x)\<rparr>) w)
    \<lparr>mtxSubscribers := True\<rparr>"
  have "processRxSubscribe E p m w = (Returns (), w2)"
    using assms(1) by (simp add: processRxSubscribe_def setPeer_def sub w2_def)
  moreover have "mtxSubscribers w2" by (simp add: w2_def)
  ultimately show ?thesis using locked by blast
qed

theorem repeated_subscribe_locks_node_witness:
  "gget (gsub (subscribers exWorld) 7) 0 \<noteq> None \<and>
     (\<exists>w'. processRxSubscribe exEnv 0 \<lparr>subscribeVNI = 7\<rparr> exWorld = (Returns (), w') \<and>
        distributeRouteToPeers exEnv ADD 7 exDest exHop (Some 1) w' = (Blocks, w'))"
proof -
  have "gget (gsub (subscribers exWorld) 7) 0 \<noteq> None" by (simp add: gsub_def)
  then show ?thesis
    using repeated_subscribe_locks_node [of exWorld "\<lparr>subscribeVNI = 7\<rparr>" 0 exEnv] by auto
qed

text \<open>
  \<open>AddPeer\<close> of a new address registers a connecting peer and starts its goroutine;
  \<open>RemovePeer\<close> of it before that goroutine has run waits for ever on a channel that does not
  exist yet. An address that is registered is refused and nothing changes.
\<close>

lemma add_then_remove_peer_blocks:
  assumes "node_ok w" "\<not> mtxSubscribers w"
  shows "if gget (peers w) addr = None
     then \<exists>w'. AddPeer u addr ip n1 n2 n3 w = (Returns None, w') \<and>
       gget (peers w') addr = Some (nextRef w) \<and> state (heap w' (nextRef w)) = CONNECTING \<and>
       spawned w' = spawned w @ [GoHandle (nextRef w)] \<and>
       fst (RemovePeer E addr w') = Blocks
     else AddPeer u addr ip n1 n2 n3 w = (Returns (Some (Errorf ''peer already registered'')), w)"
proof (cases "gget (peers w) addr = None")
  case True
  obtain r w' where add: "AddPeer u addr ip n1 n2 n3 w = (r, w')" by (cases "AddPeer u addr ip n1 n2 n3 w")
  have facts: "r = Returns None" "gget (peers w') addr = Some (nextRef w)" "state (heap w' (nextRef w)) = CONNECTING"
    "spawned w' = spawned w @ [GoHandle (nextRef w)]" "\<not> mtxSubscribers w'" "subscribers w' = subscribers w"
    "txChanClose (heap w' (nextRef w)) = None"
    using True assms(2) add by (auto simp: AddPeer_def newMetalBondPeer_def Let_def)
  have "txChan (heap w (nextRef w)) = None" using assms(1) by (simp add: node_ok_def refs_ok_def)
  then have new: "notSubscribed (nextRef w) v w'" for v
    using assms(1) facts(6) by (fastforce simp: notSubscribed_def node_ok_def refs_ok_def)
  have "setState E (nextRef w) CLOSED w' = (Returns (), updPeer (nextRef w) (\<lambda>x. x\<lparr>state := CLOSED\<rparr>) w')"
    using facts(5) new by (intro setState_quiet) simp_all
  then have "fst (RemovePeer E addr w') = Blocks"
    using facts by (simp add: RemovePeer_def unsafeRemovePeer_def Close_def GetState_def signal_def)
  with True add facts show ?thesis by simp
qed (auto simp: AddPeer_def)

lemma add_then_remove_peer_blocks_witness:
  "gget (peers exWorld) ''d'' = None \<and>
     (\<exists>w'. AddPeer ''id'' ''d'' [] 1 1 1 exWorld = (Returns None, w') \<and> fst (RemovePeer exEnv ''d'' w') = Blocks)"
  using add_then_remove_peer_blocks [OF exWorld_ok, of "''d''" "''id''" "[]" 1 1 1 exEnv] by auto

section \<open>Stopping the node\<close>

text \<open>Programs that register no peer.\<close>

lemma keeps_unregistered [keeps_rules]:
  "keeps (\<lambda>w. gget (peers w) a = None) (onRouteTable f)"
  "keeps (\<lambda>w. gget (peers w) a = None) (onClient g)"
  "keeps (\<lambda>w. gget (peers w) a = None) (onReceived q f)"
  "keeps (\<lambda>w. gget (peers w) a = None) (sendTx q pkt)"
  "keeps (\<lambda>w. gget (peers w) a = None) rlockSubscribers"
  "keeps (\<lambda>w. gget (peers w) a = None) lockSubscribers"
  "keeps (\<lambda>w. gget (peers w) a = None) unlockSubscribers"
  "keeps (\<lambda>w. gget (peers w) a = None) (setPeer q u)"
  "keeps (\<lambda>w. gget (peers w) a = None) (signal get upd q)"
  "keeps (\<lambda>w. gget (peers w) a = None) (modify (\<lambda>w. w\<lparr>subscribers := s w\<rparr>))"
  "keeps (\<lambda>w. gget (peers w) a = None) (modify (\<lambda>w. w\<lparr>peers := gdel b (peers w)\<rparr>))"
  by (auto simp: keeps_def state_defs sendTx_def signal_def split: option.splits)

lemma keeps_unregistered_setState [keeps_rules]:
  "keeps (\<lambda>w. gget (peers w) a = None) (setState E p st)"
  unfolding setState_def announceTo_def removeSubscriber_def removeReceivedRoute_def
    distributeRouteToPeers_def peerSubscribe_def SendUpdate_def sendMessage_def Let_def
  by (intro keeps_rules)

lemma keeps_unregistered_remove [keeps_rules]:
  "keeps (\<lambda>w. gget (peers w) a = None) (unsafeRemovePeer E b)"
  unfolding unsafeRemovePeer_def Close_def by (intro keeps_rules)

lemma unsafeRemovePeer_out:
  fixes E :: "'c env"
  assumes "calm P w"
  shows "\<exists>w'. unsafeRemovePeer E a w = (Returns (), w') \<and> calm P w' \<and> gget (peers w') a = None"
proof (cases "gget (peers w) a")
  case None
  then show ?thesis using assms by (simp add: unsafeRemovePeer_def)
next
  case (Some p)
  then have "p \<in> P" using assms by (auto simp: calm_def dest: gget_range)
  then obtain w1 where w1: "Close E p w = (Returns (), w1)" "calm P w1"
    using finishesD [OF finishes_Close assms, of p E] by auto
  moreover have "calm P (w1\<lparr>peers := gdel a (peers w1)\<rparr>)"
    using w1(2) by (auto simp: calm_def gdel_def AList.delete_eq)
  ultimately show ?thesis using Some by (simp add: unsafeRemovePeer_def)
qed

lemma removePeers_out:
  fixes E :: "'c env"
  assumes "calm P w" "\<And>a. a \<notin> set as \<Longrightarrow> gget (peers w) a = None"
  shows "\<exists>w'. forEach as (unsafeRemovePeer E) w = (Returns (), w') \<and> calm P w' \<and>
     (\<forall>a. gget (peers w') a = None)"
  using assms
proof (induction "as" arbitrary: w)
  case (Cons b as)
  obtain w1 where w1: "unsafeRemovePeer E b w = (Returns (), w1)" "calm P w1" "gget (peers w1) b = None"
    using unsafeRemovePeer_out [OF Cons.prems(1), of E b] by blast
  have "gget (peers w1) a = None" if "a \<notin> set as" for a
    using that Cons.prems(2) [of a] w1 keepsD [OF keeps_unregistered_remove, of w a E b]
    by (cases "a = b") auto
  with Cons.IH [of w1] w1 show ?case by simp
qed simp

lemma Shutdown_out:
  assumes "calm P w" "lis w \<noteq> Some False"
  shows "\<exists>w'. Shutdown E w = (Returns (), w') \<and> calm P w' \<and> (\<forall>a. gget (peers w') a = None)"
proof -
  have "gget (peers w) a = None" if "a \<notin> set (gkeys (peers w))" for a
    using that by (simp add: gget_in_gkeys)
  then show ?thesis
    using removePeers_out [of P "w\<lparr>shuttingDown := True\<rparr>" "gkeys (peers w)" E] assms by (simp add: Shutdown_def)
qed

text \<open>
  C36. \<open>Shutdown\<close> of a calm node that listens, or never tried to, closes and
  unregisters every peer and returns. After a failed \<open>StartServer\<close> it panics: the pointer to
  the listener is set although there is none.
\<close>

theorem shutdown_removes_all_peers:
  assumes "calm P w"
  shows "(lis w \<noteq> Some False \<longrightarrow> (\<exists>w'. Shutdown E w = (Returns (), w') \<and> calm P w' \<and>
       (\<forall>a. gget (peers w') a = None))) \<and>
     fst (Shutdown E (snd (StartServer False w))) = Panics"
  using Shutdown_out [OF assms, of E] by (auto simp: Shutdown_def StartServer_def)

theorem shutdown_removes_all_peers_witness:
  "lis exWorld = None \<and> gget (peers exWorld) ''a'' = Some 0 \<and>
     (\<exists>w'. Shutdown exEnv exWorld = (Returns (), w') \<and> gget (peers w') ''a'' = None)"
proof -
  have "lis exWorld = None"
    by (simp add: exWorldOf_def initWorld_def NewMetalBond_def Let_def World.MetalBond.extend_def)
  with shutdown_removes_all_peers [OF exWorld_calm, of exEnv] show ?thesis by auto
qed

section \<open>Keepalive messages\<close>

lemma resetKeepaliveTimeout_run:
  "\<exists>f. resetKeepaliveTimeout p w = (Returns (), updPeer p f w) \<and>
     txChan (f (heap w p)) = txChan (heap w p) \<and> state (f (heap w p)) = state (heap w p)"
proof (cases "keepaliveTimer (heap w p) = None")
  case True
  have "updPeer p id w = w" by (simp add: updPeer_def)
  with True show ?thesis by (intro exI [of _ id]) (simp add: resetKeepaliveTimeout_def)
next
  case False
  then show ?thesis
    by (intro exI [of _ "\<lambda>x. x\<lparr>keepaliveTimer := Some (keepaliveTimeout (peerKeepalive x))\<rparr>"])
      (simp add: resetKeepaliveTimeout_def setPeer_def)
qed

lemma keepalive_answer:
  assumes "txChan (heap w p) \<noteq> None" "state (heap w p) = ESTABLISHED"
  shows "\<exists>w'. andThen (resetKeepaliveTimeout p)
     (if b then andThen (sendMessage E p MsgKeepalive) (ret ()) else ret ()) w = (Returns (), w') \<and>
     state (heap w' p) = ESTABLISHED \<and> spawned w' = spawned w"
proof -
  obtain f where f: "resetKeepaliveTimeout p w = (Returns (), updPeer p f w)"
    "txChan (f (heap w p)) \<noteq> None" "state (f (heap w p)) = ESTABLISHED"
    using resetKeepaliveTimeout_run [of p w] assms by auto
  show ?thesis
    using f sendMessage_run [of "updPeer p f w" p E MsgKeepalive]
    by (cases "encodeMessage (cdc E) MsgKeepalive") (auto simp: enqueue_def)
qed

lemma setState_established_facts:
  assumes "txChan (heap w p) \<noteq> None" "state (heap w p) \<noteq> ESTABLISHED"
  obtains w' where "setState E p ESTABLISHED w = (Returns (), w')" "txChan (heap w' p) \<noteq> None"
    "state (heap w' p) = ESTABLISHED" "spawned w' = spawned w"
proof -
  let ?w = "updPeer p (\<lambda>x. x\<lparr>state := ESTABLISHED\<rparr>) w"
  obtain pkts where "setState E p ESTABLISHED w = (Returns (), sendMany p pkts ?w)"
    using setState_established [OF assms, of E] by blast
  moreover have "txChan (heap (sendMany p pkts ?w) p) \<noteq> None"
    using sendMany_tx [of ?w p pkts] assms(1) by simp
  moreover have "spawned (sendMany p pkts u) = spawned u" for pkts and u :: "'a world"
    by (induction pkts arbitrary: u) (simp_all add: sendMany_def enqueue_def)
  ultimately show ?thesis using that by simp
qed

text \<open>
  A KEEPALIVE establishes an incoming connection in \<open>HELLO_SENT\<close> and an outgoing
  one in \<open>HELLO_RECEIVED\<close>, and is accepted when \<open>ESTABLISHED\<close>. In every other case it starts a
  reset of the connection and does nothing else.
\<close>

lemma keepalive_transitions:
  assumes "calm P w" "p \<in> P"
  shows "if direction (heap w p) = INCOMING \<and> state (heap w p) = HELLO_SENT \<or>
       direction (heap w p) = OUTGOING \<and> state (heap w p) = HELLO_RECEIVED \<or>
       state (heap w p) = ESTABLISHED
     then \<exists>w'. processRxKeepalive E p w = (Returns (), w') \<and> state (heap w' p) = ESTABLISHED \<and>
       spawned w' = spawned w
     else processRxKeepalive E p w = (Returns (), w\<lparr>spawned := spawned w @ [GoReset p]\<rparr>)"
proof -
  have tx: "txChan (heap w p) \<noteq> None" using assms by (simp add: calm_def chansMade_def)
  consider (up) "direction (heap w p) = INCOMING \<and> state (heap w p) = HELLO_SENT \<or>
      direction (heap w p) = OUTGOING \<and> state (heap w p) = HELLO_RECEIVED"
    | (est) "state (heap w p) = ESTABLISHED"
    | (wrong) "\<not> (direction (heap w p) = INCOMING \<and> state (heap w p) = HELLO_SENT)"
        "\<not> (direction (heap w p) = OUTGOING \<and> state (heap w p) = HELLO_RECEIVED)"
        "state (heap w p) \<noteq> ESTABLISHED"
    by blast
  then show ?thesis
  proof cases
    case up
    then have "state (heap w p) \<noteq> ESTABLISHED" by auto
    with tx obtain w1 where w1: "setState E p ESTABLISHED w = (Returns (), w1)" "txChan (heap w1 p) \<noteq> None"
      "state (heap w1 p) = ESTABLISHED" "spawned w1 = spawned w"
      by (rule setState_established_facts)
    obtain w' where "andThen (resetKeepaliveTimeout p) (if direction (heap w p) = INCOMING
        then andThen (sendMessage E p MsgKeepalive) (ret ()) else ret ()) w1 = (Returns (), w')"
      "state (heap w' p) = ESTABLISHED" "spawned w' = spawned w1"
      using keepalive_answer [OF w1(2,3)] by blast
    with up w1 show ?thesis by (auto simp: processRxKeepalive_def)
  next
    case est
    obtain w' where "andThen (resetKeepaliveTimeout p) (if direction (heap w p) = INCOMING
        then andThen (sendMessage E p MsgKeepalive) (ret ()) else ret ()) w = (Returns (), w')"
      "state (heap w' p) = ESTABLISHED" "spawned w' = spawned w"
      using keepalive_answer [OF tx est] by blast
    with est show ?thesis by (simp add: processRxKeepalive_def)
  next
    case wrong
    then show ?thesis by (auto simp: processRxKeepalive_def goStart_def)
  qed
qed

lemma keepalive_transitions_witness:
  "calm {0, 1, 2} exWorld \<and> processRxKeepalive exEnv 2 exWorld =
     (Returns (), exWorld\<lparr>spawned := spawned exWorld @ [GoReset 2]\<rparr>) \<and>
     (\<exists>w'. processRxKeepalive exEnv 1 exWorld = (Returns (), w'))"
proof -
  have "state (exHeap 2) = CONNECTING" "state (exHeap 1) = ESTABLISHED"
    by (simp_all add: exHeap_def exPeer_def noPeer_def)
  then show ?thesis
    using keepalive_transitions [OF exWorld_calm, of 2 exEnv]
      keepalive_transitions [OF exWorld_calm, of 1 exEnv] exWorld_calm by auto
qed

end
