(* ===== verification/Subscription.thy ===== *)
theory Subscription
  imports NodeSessions
begin

text \<open>
  What a SUBSCRIBE brings the peer that sends it (\<open>addSubscriber\<close> of \<open>src/metalbond.go\<close>):
  the routes of the VNI that the node has, each with the peers it came from.
\<close>

section \<open>The feed of a new subscriber\<close>

text \<open>
  The routes of a VNI in the order of the three nested loops, but for the NAT routes that
  came from the subscriber itself.
\<close>

definition feed :: "routeTable \<Rightarrow> VNI \<Rightarrow> nat \<Rightarrow> (Destination \<times> NextHop \<times> peerptr) list" where
  "feed t v p = concat (map (\<lambda>(d, hm). concat (map (\<lambda>(h, qs). map (\<lambda>q. (d, h, q))
     (filter (\<lambda>q. \<not> (q = Some p \<and> nhType h = NextHopType_NAT)) qs)) hm))
     (GetDestinationsByVNIWithPeer t v))"

lemma set_feed:
  assumes "rt_ok t"
  shows "set (feed t v p) =
     {(d, h, q). rt_has t v d h q \<and> \<not> (q = Some p \<and> nhType h = NextHopType_NAT)}"
proof -
  have "(d, h, q) \<in> set (feed t v p) \<longleftrightarrow>
      (\<exists>hm qs. (d, hm) \<in> set (GetDestinationsByVNIWithPeer t v) \<and> (h, qs) \<in> set hm \<and> q \<in> set qs) \<and>
      \<not> (q = Some p \<and> nhType h = NextHopType_NAT)" for d h q
    by (simp add: feed_def Bex_def image_iff split_paired_Ex) blast
  then show ?thesis unfolding GetDestinationsByVNIWithPeer_routes [OF assms] by auto
qed

text \<open>The feed has no route twice: the keys of the nested maps are distinct.\<close>

lemma distinct_by_key:
  assumes "gok m" "\<And>k x. (k, x) \<in> set m \<Longrightarrow> distinct (f k x)"
    "\<And>k x y. (k, x) \<in> set m \<Longrightarrow> y \<in> set (f k x) \<Longrightarrow> key y = k"
  shows "distinct (concat (map (\<lambda>(k, x). f k x) m))"
  using assms
proof (induction m)
  case (Cons a m)
  obtain k x where a: "a = (k, x)" by (cases a)
  have "distinct (concat (map (\<lambda>(k, x). f k x) m))"
    using Cons.prems(1) a by (intro Cons.IH) (auto intro: Cons.prems)
  moreover have "set (f k x) \<inter> set (concat (map (\<lambda>(k, x). f k x) m)) = {}"
  proof (rule ccontr)
    assume "\<not> ?thesis"
    then obtain y k' x' where y: "y \<in> set (f k x)" "(k', x') \<in> set m" "y \<in> set (f k' x')" by auto
    then have "k' = k" using Cons.prems(3) a by (metis list.set_intros)
    with y(2) Cons.prems(1) show False by (force simp: a gkeys_def)
  qed
  ultimately show ?case using Cons.prems(2) a by simp
qed simp

lemma distinct_feed:
  assumes "rt_ok t"
  shows "distinct (feed t v p)"
proof -
  let ?dm = "GetDestinationsByVNIWithPeer t v"
  have dm: "?dm = map (\<lambda>(d, hm). (d, map (\<lambda>(h, pm). (h, gkeys pm)) hm)) (gsub (routes t) v)"
    by (simp add: GetDestinationsByVNIWithPeer_def gsub_def split: option.split)
  note ok = rt_ok_paths(1,2) [OF assms, of v]
  have "gok ?dm"
    using ok(1) unfolding dm by (simp add: gok_def comp_def case_prod_beta')
  have inner: "gok hm \<and> gall distinct hm" if "(d, hm) \<in> set ?dm" for d hm
    using ok(2) that unfolding dm
    by (fastforce simp: gok_def gall_def list_all_iff gkeys_def comp_def case_prod_beta')
  show ?thesis
    unfolding feed_def
  proof (rule distinct_by_key [where key = fst])
    fix d hm assume "(d, hm) \<in> set ?dm"
    then have hm: "gok hm" "gall distinct hm" using inner by blast+
    show "distinct (concat (map (\<lambda>(h, qs). map (\<lambda>q. (d, h, q))
        (filter (\<lambda>q. \<not> (q = Some p \<and> nhType h = NextHopType_NAT)) qs)) hm))"
      by (rule distinct_by_key [where key = "\<lambda>x. fst (snd x)", OF hm(1)])
        (use hm(2) in \<open>auto simp: gall_def list_all_iff distinct_map inj_on_def\<close>)
  qed (use \<open>gok ?dm\<close> in auto)
qed

text \<open>A round of the innermost loop: nothing for a NAT route of the peer, else one packet.\<close>

definition feedStep :: "'c env \<Rightarrow> nat \<Rightarrow> VNI \<Rightarrow> Destination \<Rightarrow> NextHop \<Rightarrow> peerptr \<Rightarrow> ('c, unit) go" where
  "feedStep E p v d h q =
     (if q = Some p \<and> nhType h = NextHopType_NAT then ret () else
      bind (SendUpdate E p \<lparr>updAction = ADD, updVNI = v, updDestination = d, updNextHop = h\<rparr>) (\<lambda>r.
      case r of None \<Rightarrow> ret () | Some e \<Rightarrow> Reset E p))"

definition feedPackets :: "'c env \<Rightarrow> VNI \<Rightarrow> (Destination \<times> NextHop \<times> peerptr) list \<Rightarrow> byte list list" where
  "feedPackets E v rs = packets E (map (\<lambda>(d, h, q). updateMsg ADD v d h) rs)"

text \<open>That every route of the feed has an encoding.\<close>

definition feedable :: "'c env \<Rightarrow> VNI \<Rightarrow> (Destination \<times> NextHop \<times> peerptr) list \<Rightarrow> bool" where
  "feedable E v rs \<longleftrightarrow> list_all (\<lambda>(d, h, q). \<not> isl (encodeMessage (cdc E) (updateMsg ADD v d h))) rs"

lemma feedPackets_simps [simp]:
  "feedPackets E v [] = []" "feedPackets E v (xs @ ys) = feedPackets E v xs @ feedPackets E v ys"
  by (simp_all add: feedPackets_def)

lemma feedPackets_concat: "feedPackets E v (concat xs) = concat (map (feedPackets E v) xs)"
  by (induction xs) simp_all

lemma feedStep_run:
  assumes "readyPeer p dir t w" "feedable E v [(d, h, q)]"
  shows "feedStep E p v d h q w = (Returns (),
     sendMany p (if q = Some p \<and> nhType h = NextHopType_NAT then [] else feedPackets E v [(d, h, q)]) w)"
proof -
  obtain pkt where "encodeMessage (cdc E) (updateMsg ADD v d h) = Inr pkt"
    using assms(2) by (cases "encodeMessage (cdc E) (updateMsg ADD v d h)") (auto simp: feedable_def)
  then show ?thesis
    using assms(1) SendUpdate_run [of w p E "\<lparr>updAction = ADD, updVNI = v, updDestination = d, updNextHop = h\<rparr>"]
    by (simp add: feedStep_def readyPeer_def feedPackets_def packets_def sendMany_def updateMsg_def)
qed

lemma feed_loops:
  fixes E :: "'c env" and w :: "'c world"
  assumes "readyPeer p dir t w" "feedable E v (feed rt v p)"
  shows "forEach (GetDestinationsByVNIWithPeer rt v) (\<lambda>(d, hm). forEach hm (\<lambda>(h, qs).
      forEach qs (feedStep E p v d h))) w = (Returns (), sendMany p (feedPackets E v (feed rt v p)) w)"
proof -
  let ?own = "\<lambda>h q. q = Some p \<and> nhType h = NextHopType_NAT"
  let ?qs = "\<lambda>d h qs. feedPackets E v (map (\<lambda>q. (d, h, q)) (filter (\<lambda>q. \<not> ?own h q) qs))"
  let ?hm = "\<lambda>d hm. concat (map (\<lambda>(h, qs). ?qs d h qs) hm)"
  let ?ok = "\<lambda>d h q. ?own h q \<or> feedable E v [(d, h, q)]"
  have step: "\<exists>r. feedStep E p v d h q w = (Returns r, sendMany p (?qs d h [q]) w)"
    if "readyPeer p dir t w" "?ok d h q" for d h q and w :: "'c world"
    using that feedStep_run [OF that(1), of E v d h q] by (auto simp: feedStep_def sendMany_def)
  have one: "concat (map (\<lambda>q. ?qs d h [q]) qs) = ?qs d h qs" for d h qs
    by (induction qs) (auto simp flip: feedPackets_simps(2))
  have qs: "forEach qs (feedStep E p v d h) w = (Returns (), sendMany p (?qs d h qs) w)"
    if "readyPeer p dir t w" "\<forall>q \<in> set qs. ?ok d h q" for d h qs and w :: "'c world"
    using forEach_sends [of qs p dir t "feedStep E p v d h" "\<lambda>q. ?qs d h [q]", OF step that(1)] that(2)
    unfolding one by blast
  have hm: "forEach hm (\<lambda>(h, qs). forEach qs (feedStep E p v d h)) w = (Returns (), sendMany p (?hm d hm) w)"
    if "readyPeer p dir t w" "\<forall>(h, qs) \<in> set hm. \<forall>q \<in> set qs. ?ok d h q" for d hm and w :: "'c world"
    by (rule forEach_sends [OF _ that(1)]) (use that(2) qs in \<open>auto split: prod.split\<close>)
  have ok: "\<forall>(h, qs) \<in> set hm. \<forall>q \<in> set qs. ?ok d h q"
    if "(d, hm) \<in> set (GetDestinationsByVNIWithPeer rt v)" for d hm
    using assms(2) that unfolding feedable_def feed_def list_all_iff by fastforce
  have "forEach (GetDestinationsByVNIWithPeer rt v) (\<lambda>(d, hm). forEach hm (\<lambda>(h, qs).
      forEach qs (feedStep E p v d h))) w =
      (Returns (), sendMany p (concat (map (\<lambda>(d, hm). ?hm d hm) (GetDestinationsByVNIWithPeer rt v))) w)"
    by (rule forEach_sends [OF _ assms(1)]) (use hm ok in \<open>auto split: prod.split\<close>)
  then show ?thesis
    by (simp add: feed_def feedPackets_concat comp_def case_prod_beta')
qed

text \<open>The state between the registration of the subscriber and the feed.\<close>

definition subscribed :: "nat \<Rightarrow> VNI \<Rightarrow> 'c world \<Rightarrow> 'c world" where
  "subscribed p v w = (updPeer p (\<lambda>x. x\<lparr>subscribedVNIs := gput v True (subscribedVNIs x)\<rparr>) w)
     \<lparr>subscribers := gput v (gput p True (gsub (subscribers w) v)) (subscribers w)\<rparr>"

lemma processRxSubscribe_new:
  fixes E :: "'c env" and w :: "'c world"
  assumes "\<not> mtxSubscribers w" "notSubscribed p (subscribeVNI m) w" "txChan (heap w p) \<noteq> None"
    "state (heap w p) = ESTABLISHED"
    "feedable E (subscribeVNI m) (feed (mbRouteTable w) (subscribeVNI m) p)"
  shows "processRxSubscribe E p m w = (Returns (), sendMany p
     (feedPackets E (subscribeVNI m) (feed (mbRouteTable w) (subscribeVNI m) p)) (subscribed p (subscribeVNI m) w))"
proof -
  let ?v = "subscribeVNI m" and ?w = "subscribed p (subscribeVNI m) w"
  have ready: "readyPeer p (direction (heap w p)) (myAnnouncements w) ?w"
    using assms(3,4) by (simp add: readyPeer_def subscribed_def)
  have "processRxSubscribe E p m w =
      andThen (andThen (forEach (GetDestinationsByVNIWithPeer (mbRouteTable w) ?v) (\<lambda>(d, hm). forEach hm (\<lambda>(h, qs).
        forEach qs (feedStep E p ?v d h)))) (ret (None :: error option))) (ret ()) (?w\<lparr>mtxSubscribers := False\<rparr>)"
    using assms(1,2)
    by (simp add: processRxSubscribe_def addSubscriber_def setPeer_def lockSubscribers_def unlockSubscribers_def
        notSubscribed_def feedStep_def [abs_def] subscribed_def updPeer_def andThen_def bind_def)
  moreover have "?w\<lparr>mtxSubscribers := False\<rparr> = ?w" using assms(1) by (simp add: subscribed_def updPeer_def)
  ultimately show ?thesis using feed_loops [OF ready assms(5)] by simp
qed

lemma sendMany_fields [simp]:
  "mbRouteTable (sendMany p pkts w) = mbRouteTable w"
  "mtxSubscribers (sendMany p pkts w) = mtxSubscribers w"
  "subscribers (sendMany p pkts w) = subscribers w"
  by (induction pkts arbitrary: w; simp add: sendMany_def enqueue_def)+

text \<open>
  C18. A SUBSCRIBE from an established peer that was not subscribed to the VNI returns
  with the mutex free and the peer registered for this VNI and no other; the peer is sent,
  after what its queue already holds and in one ADD each, exactly the routes of the VNI in
  the node's table, with one copy per peer they came from, and without the NAT routes it
  announced itself. No other queue changes.
\<close>

theorem new_subscriber_gets_table:
  assumes "\<not> mtxSubscribers w" "gget (gsub (subscribers w) (subscribeVNI m)) p = None"
    "txChan (heap w p) \<noteq> None" "state (heap w p) = ESTABLISHED" "rt_ok (mbRouteTable w)"
    "feedable E (subscribeVNI m) (feed (mbRouteTable w) (subscribeVNI m) p)"
  shows "\<exists>w' rs. processRxSubscribe E p m w = (Returns (), w') \<and> \<not> mtxSubscribers w' \<and> distinct rs \<and>
     (\<forall>v q. gget (gsub (subscribers w') v) q =
        (if v = subscribeVNI m \<and> q = p then Some True else gget (gsub (subscribers w) v) q)) \<and>
     (\<forall>q. txQueue w' q = txQueue w q @
        (if q = p then packets E (map (\<lambda>(d, h, from). updateMsg ADD (subscribeVNI m) d h) rs) else [])) \<and>
     set rs = {(d, h, from). rt_has (mbRouteTable w) (subscribeVNI m) d h from \<and>
        \<not> (from = Some p \<and> nhType h = NextHopType_NAT)} \<and>
     mbRouteTable w' = mbRouteTable w"
proof -
  let ?v = "subscribeVNI m"
  let ?w' = "sendMany p (feedPackets E ?v (feed (mbRouteTable w) ?v p)) (subscribed p ?v w)"
  have "processRxSubscribe E p m w = (Returns (), ?w')"
    by (rule processRxSubscribe_new) (use assms in \<open>simp_all add: notSubscribed_def\<close>)
  moreover have "txQueue (subscribed p ?v w) q = txQueue w q" for q
    by (simp add: subscribed_def txQueue_def)
  ultimately show ?thesis
    using assms(1) set_feed [OF assms(5), of ?v p] distinct_feed [OF assms(5), of ?v p]
    by (intro exI [of _ ?w'] exI [of _ "feed (mbRouteTable w) ?v p"]) (simp add: feedPackets_def, simp add: subscribed_def)
qed

definition exJoining :: "unit world" where
  "exJoining = exRouted\<lparr>subscribers := [(7, [(0, True)])]\<rparr>"

theorem new_subscriber_gets_table_witness:
  "rt_rel (mbRouteTable exJoining) = {(7, exDest, exHop, Some 0)} \<and>
     (\<exists>w'. processRxSubscribe exEnv 1 \<lparr>subscribeVNI = 7\<rparr> exJoining = (Returns (), w') \<and>
        gget (gsub (subscribers w') 7) 1 = Some True \<and> txQueue w' 1 = [exPkt ADD])"
proof -
  have heap: "heap exJoining 1 = exPeer ESTABLISHED"
    by (simp add: exJoining_def exRouted_def exReceived_def exHeap_def withTable_def)
  have has: "rt_has (mbRouteTable exJoining) v d h q \<longleftrightarrow> (v, d, h, q) = (7, exDest, exHop, Some 0)" for v d h q
    using exRouted_has by (simp add: exJoining_def)
  have ok: "rt_ok (mbRouteTable exJoining)"
    using exRouted_ok(1) by (simp add: exJoining_def node_ok_def maps_ok_def)
  have free: "\<not> mtxSubscribers exJoining" "gget (gsub (subscribers exJoining) 7) 1 = None"
    using exRouted_ok(2) by (simp_all add: exJoining_def gsub_def)
  have rs: "rs = [(exDest, exHop, Some 0)]" if "distinct rs" "set rs = {(exDest, exHop, Some 0)}"
    for rs :: "(Destination \<times> NextHop \<times> peerptr) list"
    using that by (cases rs; cases "tl rs") auto
  have "set (feed (mbRouteTable exJoining) 7 1) \<subseteq> {(exDest, exHop, Some 0)}"
    using ok by (auto simp: set_feed has)
  moreover note enc = exPkt(1)
  ultimately have fd: "feedable exEnv 7 (feed (mbRouteTable exJoining) 7 1)"
    by (auto simp: feedable_def list_all_iff)
  have empty: "txQueue exJoining 1 = []" using heap by (simp add: txQueue_def exPeer_def)
  have routes: "{(d, h, from). rt_has (mbRouteTable exJoining) 7 d h from \<and>
      \<not> (from = Some 1 \<and> nhType h = NextHopType_NAT)} = {(exDest, exHop, Some 0)}"
    by (auto simp: has)
  have est: "txChan (heap exJoining 1) \<noteq> None" "state (heap exJoining 1) = ESTABLISHED"
    unfolding heap by (simp_all add: exPeer_def)
  show ?thesis
    using new_subscriber_gets_table [of exJoining "\<lparr>subscribeVNI = 7\<rparr>" 1 exEnv,
        unfolded msgSubscribe.select_convs, OF free est ok fd, unfolded routes]
  proof (elim exE conjE, goal_cases)
    case (1 w' rs)
    have "rs = [(exDest, exHop, Some 0)]" by (rule rs) fact+
    with 1(5) enc empty have "txQueue w' 1 = [exPkt ADD]" by (simp add: packets_def)
    moreover have "rt_rel (mbRouteTable exJoining) = {(7, exDest, exHop, Some 0)}"
      by (auto simp: rt_rel_def has)
    ultimately show ?case using 1(1,4) by simp
  qed
qed

end
