(* ===== verification/RouteClient.thy ===== *)
theory RouteClient
  imports World
begin

text \<open>
  The contract of the \<open>Client\<close> interface (\<open>src/client.go\<close>): a client keeps a set of installed
  routes; a call that returns nil for a route the client wants adds or removes exactly this
  route, any other call changes nothing. The locale states it, its lemma follows it through
  any sequence of calls. \<open>DummyClient\<close> keeps it by wanting nothing; the netlink client is in
  theory \<open>Netlink\<close>.
\<close>

section \<open>Sequences of calls\<close>

datatype clientCall =
    CallAdd VNI Destination NextHop
  | CallRemove VNI Destination NextHop

fun callDest :: "clientCall \<Rightarrow> Destination" where
  "callDest (CallAdd v d h) = d"
| "callDest (CallRemove v d h) = d"

fun runCall :: "'c Client \<Rightarrow> clientCall \<Rightarrow> 'c \<Rightarrow> error option \<times> 'c" where
  "runCall C (CallAdd v d h) c = AddRoute C v d h c"
| "runCall C (CallRemove v d h) c = RemoveRoute C v d h c"

fun runCalls :: "'c Client \<Rightarrow> clientCall list \<Rightarrow> 'c \<Rightarrow> error option list \<times> 'c" where
  "runCalls C [] c = ([], c)"
| "runCalls C (x # xs) c =
     (let (e, c1) = runCall C x c; (es, c2) = runCalls C xs c1 in (e # es, c2))"

text \<open>What a call means for a set of routes, given its result.\<close>

type_synonym routeSet = "(VNI \<times> Destination \<times> NextHop) set"

fun meaning :: "(VNI \<Rightarrow> Destination \<Rightarrow> bool) \<Rightarrow> clientCall \<Rightarrow> error option \<Rightarrow> routeSet \<Rightarrow> routeSet" where
  "meaning wants (CallAdd v d h) e S = (if e = None \<and> wants v d then insert (v, d, h) S else S)"
| "meaning wants (CallRemove v d h) e S = (if e = None \<and> wants v d then S - {(v, d, h)} else S)"

fun meanings :: "(VNI \<Rightarrow> Destination \<Rightarrow> bool) \<Rightarrow> clientCall list \<Rightarrow> error option list \<Rightarrow> routeSet \<Rightarrow> routeSet" where
  "meanings wants (x # xs) (e # es) S = meanings wants xs es (meaning wants x e S)"
| "meanings wants _ _ S = S"

section \<open>The contract\<close>

locale route_client =
  fixes C :: "'c Client" and inv :: "'c \<Rightarrow> bool" and installed :: "'c \<Rightarrow> routeSet"
    and wants :: "'c \<Rightarrow> VNI \<Rightarrow> Destination \<Rightarrow> bool" and good :: "Destination \<Rightarrow> bool"
  assumes call_inv: "inv c \<Longrightarrow> good (callDest x) \<Longrightarrow> inv (snd (runCall C x c))"
    and call_wants: "wants (snd (runCall C x c)) = wants c"
    and call_installed: "inv c \<Longrightarrow> good (callDest x) \<Longrightarrow>
      installed (snd (runCall C x c)) = meaning (wants c) x (fst (runCall C x c)) (installed c)"
begin

lemma calls:
  assumes "inv c" "list_all (\<lambda>x. good (callDest x)) xs" "runCalls C xs c = (es, c')"
  shows "inv c' \<and> wants c' = wants c \<and> installed c' = meanings (wants c) xs es (installed c)"
  using assms
proof (induction xs arbitrary: c es)
  case (Cons x xs)
  obtain e c1 es1 where 1: "runCall C x c = (e, c1)" "runCalls C xs c1 = (es1, c')" "es = e # es1"
    using Cons.prems(3) by (auto simp: Let_def split: prod.splits)
  have "inv c1" "wants c1 = wants c" "installed c1 = meaning (wants c) x e (installed c)"
    using call_inv [of c x] call_wants [of x c] call_installed [of c x] Cons.prems 1(1) by auto
  then show ?case using Cons.IH [of c1 es1] Cons.prems(2) 1 by simp
qed simp

text \<open>A route that was not there, added and removed, leaves no trace.\<close>

lemma add_remove:
  assumes "inv c" "good d" "(v, d, h) \<notin> installed c"
    "runCalls C [CallAdd v d h, CallRemove v d h] c = ([None, None], c')"
  shows "installed c' = installed c"
  using calls [OF assms(1) _ assms(4)] assms(2,3) by auto

end

interpretation dummyClient: route_client DummyClient "\<lambda>_. True" "\<lambda>_. {}" "\<lambda>_ _ _. False" "\<lambda>_. True"
proof
  fix x :: clientCall and c :: 'a
  show "True \<Longrightarrow> True \<Longrightarrow> {} = meaning (\<lambda>_ _. False) x (fst (runCall DummyClient x c)) {}"
    by (cases x) simp_all
qed simp_all

end
