(* ===== verification/GoSort.thy ===== *)
theory GoSort
  imports Prelude "HOL-Library.Multiset"
begin

text \<open>
  Go's \<open>slices.SortFunc\<close> and \<open>sort.Slice\<close> promise a permutation that is ordered by the
  comparison they are given, and nothing about elements that compare equal. The locale is
  that promise; the clients of the two functions are proved for every function that keeps it.
  The interpretation is the insertion sort that the standard library runs on slices of at
  most twelve elements.
\<close>

section \<open>Comparisons\<close>

text \<open>What the library asks of a comparison: a strict weak ordering.\<close>

definition weak_order :: "('a \<Rightarrow> 'a \<Rightarrow> bool) \<Rightarrow> bool" where
  "weak_order lt \<longleftrightarrow> (\<forall>a b. lt a b \<longrightarrow> \<not> lt b a) \<and>
     (\<forall>a b c. \<not> lt b a \<longrightarrow> \<not> lt c b \<longrightarrow> \<not> lt c a)"

lemma weak_order_key: "weak_order (\<lambda>a b. key a < (key b :: 'b::linorder))"
  by (auto simp: weak_order_def)

section \<open>The promise of a sort\<close>

locale go_sort =
  fixes srt :: "('a \<Rightarrow> 'a \<Rightarrow> bool) \<Rightarrow> 'a list \<Rightarrow> 'a list"
  assumes mset_srt: "mset (srt lt xs) = mset xs"
    and ordered_srt: "weak_order lt \<Longrightarrow> sorted_wrt (\<lambda>a b. \<not> lt b a) (srt lt xs)"
begin

lemma set_srt: "set (srt lt xs) = set xs"
  by (metis mset_srt set_mset_mset)

lemma length_srt: "length (srt lt xs) = length xs"
  by (metis mset_srt size_mset)

lemma distinct_srt: "distinct (srt lt xs) \<longleftrightarrow> distinct xs"
  using mset_srt [of lt xs] mset_eq_imp_distinct_iff by blast

lemma sorted_srt: "sorted (map key (srt (\<lambda>a b. key a < (key b :: 'b::linorder)) xs))"
  using ordered_srt [OF weak_order_key, of key xs] by (simp add: sorted_wrt_map not_less)

text \<open>Where the keys differ, the promise leaves one result only.\<close>

lemma srt_unique:
  assumes "mset ys = mset xs" "sorted (map key ys)" "inj_on key (set xs)"
  shows "srt (\<lambda>a b. key a < (key b :: 'b::linorder)) xs = ys"
proof -
  let ?s = "srt (\<lambda>a b. key a < key b) xs"
  have "mset (map key ?s) = mset (map key ys)" by (simp add: mset_srt assms(1))
  then have "map key ?s = map key ys"
    using sorted_srt assms(2) by (metis properties_for_sort sorted_sort_id)
  moreover have "inj_on key (set ?s \<union> set ys)"
    using assms(1,3) set_srt by (metis set_mset_mset sup.idem)
  ultimately show ?thesis by (metis inj_on_map_eq_map)
qed

end

section \<open>Insertion sort\<close>

text \<open>
  The library's loop swaps an element to the left while it is smaller than its neighbour.
  The prefix that is already sorted is kept in reverse.
\<close>

fun insertLeft :: "('a \<Rightarrow> 'a \<Rightarrow> bool) \<Rightarrow> 'a \<Rightarrow> 'a list \<Rightarrow> 'a list" where
  "insertLeft lt x [] = [x]"
| "insertLeft lt x (y # ys) = (if lt x y then y # insertLeft lt x ys else x # y # ys)"

definition insertionSort :: "('a \<Rightarrow> 'a \<Rightarrow> bool) \<Rightarrow> 'a list \<Rightarrow> 'a list" where
  "insertionSort lt xs = rev (fold (insertLeft lt) xs [])"

lemma mset_insertLeft: "mset (insertLeft lt x ys) = add_mset x (mset ys)"
  by (induction ys) auto

lemma mset_fold_insertLeft: "mset (fold (insertLeft lt) xs ys) = mset xs + mset ys"
  by (induction xs arbitrary: ys) (simp_all add: mset_insertLeft)

lemma ordered_insertLeft:
  assumes "weak_order lt" "sorted_wrt (\<lambda>a b. \<not> lt a b) ys"
  shows "sorted_wrt (\<lambda>a b. \<not> lt a b) (insertLeft lt x ys)"
  using assms(2)
proof (induction ys)
  case (Cons y ys)
  have "set (insertLeft lt x ys) = insert x (set ys)"
    by (metis mset_insertLeft set_mset_add_mset_insert set_mset_mset)
  moreover have "\<not> lt x z" if "\<not> lt x y" "z \<in> set ys" for z
  proof -
    have "\<not> lt y z" using Cons.prems that(2) by simp
    with that(1) assms(1) show ?thesis unfolding weak_order_def by metis
  qed
  moreover have "\<not> lt y x" if "lt x y" using that assms(1) unfolding weak_order_def by metis
  ultimately show ?case using Cons by simp
qed simp

lemma ordered_fold_insertLeft:
  "weak_order lt \<Longrightarrow> sorted_wrt (\<lambda>a b. \<not> lt a b) ys \<Longrightarrow>
     sorted_wrt (\<lambda>a b. \<not> lt a b) (fold (insertLeft lt) xs ys)"
  by (induction xs arbitrary: ys) (simp_all add: ordered_insertLeft)

interpretation goSort: go_sort insertionSort
proof
  fix lt :: "'a \<Rightarrow> 'a \<Rightarrow> bool" and xs :: "'a list"
  show "mset (insertionSort lt xs) = mset xs"
    by (simp add: insertionSort_def mset_fold_insertLeft)
  show "weak_order lt \<Longrightarrow> sorted_wrt (\<lambda>a b. \<not> lt b a) (insertionSort lt xs)"
    by (simp add: insertionSort_def sorted_wrt_rev ordered_fold_insertLeft)
qed

end
