(* ===== verification/Netlink.thy ===== *)
theory Netlink
  imports RouteClient GoSort
begin

unbundle bit_operations_syntax

text \<open>
  The client that installs routes in the Linux kernel (\<open>src/netlink.go\<close>). The kernel is
  reached through the package \<open>github.com/vishvananda/netlink\<close>, which is not part of the
  repository: its functions are the fields of \<open>netlinkLib\<close>, acting on a kernel state of any
  type, and what the code relies on is the predicate \<open>kernel_laws\<close>. The sort of the next hops
  is a parameter as well, with the promise of theory \<open>GoSort\<close>. A client is the pair of the
  struct and the kernel, so that it is an instance of the \<open>Client\<close> interface. The mutex is
  taken at the start of each call and released at its end.
\<close>

section \<open>Routes as the kernel sees them\<close>

record IPNet =
  netIP :: "byte list"
  netMask :: "byte list"

record NexthopInfo =
  LinkIndex :: int
  EncapDst :: "byte list"
  EncapSrc :: "byte list"

record Route =
  rtTable :: int
  rtProtocol :: int
  rtDst :: IPNet
  rtMultiPath :: "NexthopInfo list"

record Link =
  linkIndex :: int

record 'k netlinkLib =
  LinkByName :: "string \<Rightarrow> 'k \<Rightarrow> error + Link"
  RouteReplace :: "Route \<Rightarrow> 'k \<Rightarrow> error option \<times> 'k"
  RouteDel :: "Route \<Rightarrow> 'k \<Rightarrow> error option \<times> 'k"
  RouteListFiltered :: "int \<Rightarrow> int \<Rightarrow> 'k \<Rightarrow> error + Route list"

abbreviation METALBOND_RT_PROTO :: int where "METALBOND_RT_PROTO \<equiv> 254"

text \<open>\<open>net.CIDRMask\<close>: nil unless the lengths fit; \<open>net.IPv6zero\<close>: sixteen zero bytes.\<close>

fun maskBytes :: "nat \<Rightarrow> nat \<Rightarrow> byte list" where
  "maskBytes 0 n = []"
| "maskBytes (Suc l) n =
     (if 8 \<le> n then 255 # maskBytes l (n - 8) else NOT (drop_bit n 255) # maskBytes l 0)"

definition CIDRMask :: "int \<Rightarrow> nat \<Rightarrow> byte list" where
  "CIDRMask ones bits =
     (if bits \<noteq> 32 \<and> bits \<noteq> 128 then []
      else if ones < 0 \<or> int bits < ones then []
      else maskBytes (bits div 8) (nat ones))"

definition IPv6zero :: "byte list" where
  "IPv6zero = replicate 16 0"

definition dstOf :: "Prefix \<Rightarrow> IPNet" where
  "dstOf dst = \<lparr>netIP = AsSlice (prefixIP dst), netMask = CIDRMask (Bits dst) (BitLen (prefixIP dst))\<rparr>"

section \<open>The client\<close>

type_synonym routeKey = "VNI \<times> Destination"

record NetlinkClientConfig =
  VNITableMap :: "(VNI, int) gomap"
  LinkName :: string
  IPv4Only :: bool

record NetlinkClient =
  config :: NetlinkClientConfig
  tunDevice :: Link
  nlRoutes :: "(routeKey, NextHop list) gomap"

type_synonym 'k nl = "NetlinkClient \<times> 'k"
type_synonym sorter = "(NextHop \<Rightarrow> NextHop \<Rightarrow> bool) \<Rightarrow> NextHop list \<Rightarrow> NextHop list"

text \<open>The loop over the next hops stops at three.\<close>

primrec nextHopInfosLoop :: "int \<Rightarrow> NextHop list \<Rightarrow> NexthopInfo list \<Rightarrow> NexthopInfo list" where
  "nextHopInfosLoop idx [] infos = infos"
| "nextHopInfosLoop idx (hop # hops) infos =
     (if 3 \<le> length infos then infos
      else nextHopInfosLoop idx hops
        (infos @ [\<lparr>LinkIndex = idx, EncapDst = AsSlice (TargetAddress hop), EncapSrc = IPv6zero\<rparr>]))"

definition replaceRoute :: "'k netlinkLib \<Rightarrow> Prefix \<Rightarrow> NextHop list \<Rightarrow> int \<Rightarrow> 'k nl \<Rightarrow> error option \<times> 'k nl" where
  "replaceRoute K dst hops table ck =
     (let route = \<lparr>rtTable = table, rtProtocol = METALBOND_RT_PROTO, rtDst = dstOf dst,
            rtMultiPath = nextHopInfosLoop (linkIndex (tunDevice (fst ck))) hops []\<rparr> in
      case RouteReplace K route (snd ck) of
        (Some err, k) \<Rightarrow> (Some (Wrapf ''cannot replace route to %s (table %d) in kernel: %w'' err), (fst ck, k))
      | (None, k) \<Rightarrow> (None, (fst ck, k)))"

definition removeRoute :: "'k netlinkLib \<Rightarrow> Prefix \<Rightarrow> int \<Rightarrow> 'k nl \<Rightarrow> error option \<times> 'k nl" where
  "removeRoute K dst table ck =
     (let route = \<lparr>rtTable = table, rtProtocol = METALBOND_RT_PROTO, rtDst = dstOf dst, rtMultiPath = []\<rparr> in
      case RouteDel K route (snd ck) of
        (Some err, k) \<Rightarrow> (Some (Wrapf ''cannot remove route to %s (table %d) from kernel: %w'' err), (fst ck, k))
      | (None, k) \<Rightarrow> (None, (fst ck, k)))"

definition setRoutes :: "((routeKey, NextHop list) gomap \<Rightarrow> (routeKey, NextHop list) gomap) \<Rightarrow> 'k nl \<Rightarrow> 'k nl" where
  "setRoutes f ck = ((fst ck)\<lparr>nlRoutes := f (nlRoutes (fst ck))\<rparr>, snd ck)"

text \<open>\<open>c.routes[key]\<close>: the nil slice for a key that is not there.\<close>

definition hopsOf :: "NetlinkClient \<Rightarrow> routeKey \<Rightarrow> NextHop list" where
  "hopsOf c key = (case gget (nlRoutes c) key of None \<Rightarrow> [] | Some hops \<Rightarrow> hops)"

definition byAddress :: "NextHop \<Rightarrow> NextHop \<Rightarrow> bool" where
  "byAddress a b \<longleftrightarrow> Compare (TargetAddress a) (TargetAddress b) < 0"

definition nlAddRoute ::
    "'k netlinkLib \<Rightarrow> sorter \<Rightarrow> VNI \<Rightarrow> Destination \<Rightarrow> NextHop \<Rightarrow> 'k nl \<Rightarrow> error option \<times> 'k nl" where
  "nlAddRoute K srt vni dest hop ck =
     (let c = fst ck in
      if IPv4Only (config c) \<and> destIPVersion dest \<noteq> IPV4 then (None, ck) else
      case gget (VNITableMap (config c)) vni of
        None \<Rightarrow> (Some (Errorf ''no route table ID known for given VNI''), ck)
      | Some table \<Rightarrow>
          (let key = (vni, dest); current = hopsOf c key in
           if hop \<in> set current then (None, ck) else
           let next = srt byAddress (current @ [hop]) in
           case replaceRoute K (destPrefix dest) next table ck of
             (Some err, ck') \<Rightarrow> (Some err, ck')
           | (None, ck') \<Rightarrow> (None, setRoutes (gput key next) ck')))"

definition nlRemoveRoute ::
    "'k netlinkLib \<Rightarrow> VNI \<Rightarrow> Destination \<Rightarrow> NextHop \<Rightarrow> 'k nl \<Rightarrow> error option \<times> 'k nl" where
  "nlRemoveRoute K vni dest hop ck =
     (let c = fst ck in
      if IPv4Only (config c) \<and> destIPVersion dest \<noteq> IPV4 then (None, ck) else
      case gget (VNITableMap (config c)) vni of
        None \<Rightarrow> (Some (Errorf ''no route table ID known for given VNI''), ck)
      | Some table \<Rightarrow>
          (let key = (vni, dest) in
           case gget (nlRoutes c) key of
             None \<Rightarrow> (Some (Errorf ''no routes known for VNI %d dest %s''), ck)
           | Some current \<Rightarrow>
               (let next = filter (\<lambda>e. e \<noteq> hop) current in
                if length current = length next then (None, ck) else
                if length next = 0 then
                  (case removeRoute K (destPrefix dest) table ck of
                     (Some err, ck') \<Rightarrow> (Some (Wrapf ''cannot remove route to %s from kernel: %w'' err), ck')
                   | (None, ck') \<Rightarrow> (None, setRoutes (gdel key) ck'))
                else
                  (case replaceRoute K (destPrefix dest) next table ck of
                     (Some err, ck') \<Rightarrow> (Some (Wrapf ''cannot install replacement route for %s: %w'' err), ck')
                   | (None, ck') \<Rightarrow> (None, setRoutes (gput key next) ck')))))"

text \<open>\<open>Cleanup\<close> collects the errors and goes on.\<close>

primrec cleanupTable :: "'k netlinkLib \<Rightarrow> Route list \<Rightarrow> error list \<times> 'k \<Rightarrow> error list \<times> 'k" where
  "cleanupTable K [] ek = ek"
| "cleanupTable K (r # rs) ek =
     (case RouteDel K r (snd ek) of
        (Some err, k) \<Rightarrow> cleanupTable K rs (fst ek @ [err], k)
      | (None, k) \<Rightarrow> cleanupTable K rs (fst ek, k))"

primrec cleanupTables :: "'k netlinkLib \<Rightarrow> int list \<Rightarrow> error list \<times> 'k \<Rightarrow> error list \<times> 'k" where
  "cleanupTables K [] ek = ek"
| "cleanupTables K (table # tables) ek =
     (case RouteListFiltered K table METALBOND_RT_PROTO (snd ek) of
        Inl err \<Rightarrow> cleanupTables K tables (fst ek @ [err], snd ek)
      | Inr rs \<Rightarrow> cleanupTables K tables (cleanupTable K rs ek))"

definition nlCleanup :: "'k netlinkLib \<Rightarrow> 'k nl \<Rightarrow> error option \<times> 'k nl" where
  "nlCleanup K ck =
     (let (errs, k) = cleanupTables K (map snd (VNITableMap (config (fst ck)))) ([], snd ck)
      in (errorsJoin errs, (fst ck, k)))"

definition NewNetlinkClient :: "'k netlinkLib \<Rightarrow> NetlinkClientConfig \<Rightarrow> 'k \<Rightarrow> (error + NetlinkClient) \<times> 'k" where
  "NewNetlinkClient K cfg k =
     (case LinkByName K (LinkName cfg) k of
        Inl err \<Rightarrow> (Inl (Errorf ''cannot find tun device '%s': %v''), k)
      | Inr link \<Rightarrow>
          (case nlCleanup K (\<lparr>config = cfg, tunDevice = link, nlRoutes = []\<rparr>, k) of
             (Some err, (c, k')) \<Rightarrow> (Inl (Wrapf ''unable to clean up stale routes: %w'' err), k')
           | (None, (c, k')) \<Rightarrow> (Inr c, k')))"

text \<open>The netlink client as the \<open>Client\<close> of a node.\<close>

definition NetlinkOps :: "'k netlinkLib \<Rightarrow> sorter \<Rightarrow> 'k nl Client" where
  "NetlinkOps K srt = \<lparr>AddRoute = nlAddRoute K srt, RemoveRoute = nlRemoveRoute K\<rparr>"

section \<open>The next hops of a kernel route\<close>

definition hopInfo :: "int \<Rightarrow> NextHop \<Rightarrow> NexthopInfo" where
  "hopInfo idx hop = \<lparr>LinkIndex = idx, EncapDst = AsSlice (TargetAddress hop), EncapSrc = IPv6zero\<rparr>"

lemma nextHopInfosLoop_acc:
  "nextHopInfosLoop idx hops infos =
     (if length infos < 3 then infos @ map (hopInfo idx) (take (3 - length infos) hops) else infos)"
proof (induction hops arbitrary: infos)
  case (Cons hop hops)
  show ?case
  proof (cases "length infos < 3")
    case True
    then have *: "3 - length infos = Suc (3 - Suc (length infos))" by simp
    show ?thesis
    proof (cases "Suc (length infos) < 3")
      case True
      then show ?thesis using * by (simp add: Cons hopInfo_def)
    next
      case False
      with \<open>length infos < 3\<close> have "length infos = 2" by simp
      then show ?thesis by (simp add: Cons hopInfo_def)
    qed
  qed simp
qed simp

lemma nextHopInfosLoop_take: "nextHopInfosLoop idx hops [] = map (hopInfo idx) (take 3 hops)"
  by (simp add: nextHopInfosLoop_acc)

section \<open>Destinations and kernel routes\<close>

text \<open>The kernel keeps a route under its table, its masked network and its mask.\<close>

definition maskIP :: "byte list \<Rightarrow> byte list \<Rightarrow> byte list" where
  "maskIP ip msk = map2 (\<lambda>a b. a AND b) ip msk"

type_synonym kkey = "int \<times> byte list \<times> byte list"

definition routeKeyOf :: "int \<Rightarrow> IPNet \<Rightarrow> kkey" where
  "routeKeyOf t n = (t, maskIP (netIP n) (netMask n), netMask n)"

text \<open>
  A destination whose IP version is that of its prefix, and whose prefix has no bits set
  behind its length. On these, different destinations are different networks.
\<close>

definition dest_ok :: "Destination \<Rightarrow> bool" where
  "dest_ok d \<longleftrightarrow> (let p = destPrefix d; a = prefixIP p in
     a \<noteq> AddrZero \<and> withoutZone a = a \<and> 0 \<le> Bits p \<and> Bits p \<le> int (BitLen a) \<and>
     maskIP (AsSlice a) (CIDRMask (Bits p) (BitLen a)) = AsSlice a \<and>
     destIPVersion d = (if Is4 a then IPV4 else IPV6))"

lemma byte_mask_inj:
  assumes "n < 8" "m < 8" "drop_bit n (255 :: byte) = drop_bit m 255"
  shows "n = m"
proof -
  have "n \<in> {0, 1, 2, 3, 4, 5, 6, 7}" "m \<in> {0, 1, 2, 3, 4, 5, 6, 7}" using assms(1,2) by auto
  with assms(3) show ?thesis by (auto simp: drop_bit_eq_div)
qed

lemma byte_mask_full: "n < 8 \<Longrightarrow> drop_bit n (255 :: byte) \<noteq> 0"
proof -
  assume "n < 8"
  then have "n \<in> {0, 1, 2, 3, 4, 5, 6, 7}" by auto
  then show ?thesis by (auto simp: drop_bit_eq_div)
qed

lemma maskBytes_inj: "maskBytes l n = maskBytes l m \<Longrightarrow> n \<le> 8 * l \<Longrightarrow> m \<le> 8 * l \<Longrightarrow> n = m"
proof (induction l arbitrary: n m)
  case (Suc l)
  have full: "NOT (drop_bit n (255 :: byte)) \<noteq> 255" if "n < 8" for n
  proof -
    have "(255 :: byte) = NOT 0" by simp
    then show ?thesis using byte_mask_full [OF that] by (metis bit.double_compl)
  qed
  show ?case
    using Suc.prems Suc.IH [of "n - 8" "m - 8"] full [of n] full [of m] byte_mask_inj [of n m]
    by (auto split: if_splits) (metis diff_le_mono diff_add_inverse eq_diff_iff)
qed simp

lemma AsSlice_inj:
  assumes "AsSlice a = AsSlice b" "a \<noteq> AddrZero" "b \<noteq> AddrZero" "withoutZone a = a" "withoutZone b = b"
  shows "a = b"
proof -
  note a = AddrFromSlice_AsSlice [OF assms(2), unfolded assms(4)]
  note b = AddrFromSlice_AsSlice [OF assms(3), unfolded assms(5)]
  show ?thesis using a [unfolded assms(1)] b by simp
qed

lemma CIDRMask_inj:
  assumes "CIDRMask n l = CIDRMask m l" "l = 32 \<or> l = 128" "0 \<le> n" "n \<le> int l" "0 \<le> m" "m \<le> int l"
  shows "n = m"
proof -
  have "maskBytes (l div 8) (nat n) = maskBytes (l div 8) (nat m)"
    using assms by (auto simp: CIDRMask_def)
  then have "nat n = nat m" by (rule maskBytes_inj) (use assms in auto)
  with assms(3,5) show ?thesis by simp
qed

lemma routeKeyOf_dest:
  "dest_ok d \<Longrightarrow> routeKeyOf t (dstOf (destPrefix d)) = (t, AsSlice (prefixIP (destPrefix d)),
     CIDRMask (Bits (destPrefix d)) (BitLen (prefixIP (destPrefix d))))"
  by (simp add: routeKeyOf_def dstOf_def dest_ok_def Let_def)

lemma dest_okD:
  assumes "dest_ok d"
  shows "prefixIP (destPrefix d) \<noteq> AddrZero" "withoutZone (prefixIP (destPrefix d)) = prefixIP (destPrefix d)"
    "0 \<le> Bits (destPrefix d)" "Bits (destPrefix d) \<le> int (BitLen (prefixIP (destPrefix d)))"
    "destIPVersion d = (if Is4 (prefixIP (destPrefix d)) then IPV4 else IPV6)"
  using assms by (simp_all add: dest_ok_def Let_def)

lemma routeKeyOf_inj:
  assumes "dest_ok d" "dest_ok d'" "routeKeyOf t (dstOf (destPrefix d)) = routeKeyOf t' (dstOf (destPrefix d'))"
  shows "t = t' \<and> d = d'"
proof -
  let ?p = "destPrefix d" and ?p' = "destPrefix d'"
  let ?a = "prefixIP ?p" and ?a' = "prefixIP ?p'"
  note ok = dest_okD [OF assms(1)] and ok' = dest_okD [OF assms(2)]
  have eq: "t = t'" "AsSlice ?a = AsSlice ?a'" "CIDRMask (Bits ?p) (BitLen ?a) = CIDRMask (Bits ?p') (BitLen ?a')"
    using assms(3) by (simp_all add: routeKeyOf_dest assms(1,2))
  have a: "?a = ?a'" by (rule AsSlice_inj [OF eq(2) ok(1) ok'(1) ok(2) ok'(2)])
  have "BitLen ?a = 32 \<or> BitLen ?a = 128" using ok(1) by (cases ?a) simp_all
  then have "Bits ?p = Bits ?p'"
    using CIDRMask_inj [OF eq(3) [folded a] _ ok(3,4) ok'(3) ok'(4) [folded a]] by blast
  then have "?p = ?p'" using a by (cases ?p; cases ?p') (simp add: Bits_def word_uint_eqI)
  moreover have "destIPVersion d = destIPVersion d'" using ok(5) ok'(5) a by simp
  ultimately show ?thesis using eq(1) by simp
qed

section \<open>What the code relies on in the kernel\<close>

text \<open>
  \<open>fib\<close> is the view of the routes of the package's protocol: a successful replace stores the
  route, a successful delete removes it, a failed call changes nothing, and a listing shows
  the routes of the table.
\<close>

type_synonym 'k fib = "'k \<Rightarrow> kkey \<Rightarrow> NexthopInfo list option"

definition kernel_laws :: "'k netlinkLib \<Rightarrow> 'k fib \<Rightarrow> bool" where
  "kernel_laws K fib \<longleftrightarrow>
     (\<forall>r k e k'. RouteReplace K r k = (e, k') \<longrightarrow> rtProtocol r = METALBOND_RT_PROTO \<longrightarrow>
        fib k' = (if e = None then (fib k)(routeKeyOf (rtTable r) (rtDst r) \<mapsto> rtMultiPath r) else fib k)) \<and>
     (\<forall>r k e k'. RouteDel K r k = (e, k') \<longrightarrow> rtProtocol r = METALBOND_RT_PROTO \<longrightarrow>
        fib k' = (if e = None then (fib k)(routeKeyOf (rtTable r) (rtDst r) := None) else fib k)) \<and>
     (\<forall>t k rs. RouteListFiltered K t METALBOND_RT_PROTO k = Inr rs \<longrightarrow>
        (\<forall>r \<in> set rs. rtTable r = t \<and> rtProtocol r = METALBOND_RT_PROTO) \<and>
        {key. fst key = t \<and> fib k key \<noteq> None} = (\<lambda>r. routeKeyOf t (rtDst r)) ` set rs)"

lemma kernel_replace:
  assumes "kernel_laws K fib" "RouteReplace K r k = (e, k')" "rtProtocol r = METALBOND_RT_PROTO"
  shows "fib k' = (if e = None then (fib k)(routeKeyOf (rtTable r) (rtDst r) \<mapsto> rtMultiPath r) else fib k)"
  using assms unfolding kernel_laws_def by blast

lemma kernel_del:
  assumes "kernel_laws K fib" "RouteDel K r k = (e, k')" "rtProtocol r = METALBOND_RT_PROTO"
  shows "fib k' = (if e = None then (fib k)(routeKeyOf (rtTable r) (rtDst r) := None) else fib k)"
  using assms unfolding kernel_laws_def by blast

lemma kernel_list:
  assumes "kernel_laws K fib" "RouteListFiltered K t METALBOND_RT_PROTO k = Inr rs"
  shows "r \<in> set rs \<Longrightarrow> rtTable r = t \<and> rtProtocol r = METALBOND_RT_PROTO"
    and "fib k (t, n) \<noteq> None \<longleftrightarrow> (t, n) \<in> (\<lambda>r. routeKeyOf t (rtDst r)) ` set rs"
proof -
  have *: "(\<forall>r \<in> set rs. rtTable r = t \<and> rtProtocol r = METALBOND_RT_PROTO) \<and>
      {key. fst key = t \<and> fib k key \<noteq> None} = (\<lambda>r. routeKeyOf t (rtDst r)) ` set rs"
    using assms unfolding kernel_laws_def by blast
  then show "r \<in> set rs \<Longrightarrow> rtTable r = t \<and> rtProtocol r = METALBOND_RT_PROTO" by blast
  from * show "fib k (t, n) \<noteq> None \<longleftrightarrow> (t, n) \<in> (\<lambda>r. routeKeyOf t (rtDst r)) ` set rs"
    by (metis (mono_tags, lifting) fst_conv mem_Collect_eq)
qed

lemma replaceRoute_fib:
  assumes "kernel_laws K fib" "replaceRoute K p hops t (c, k) = (r, (c', k'))"
  shows "c' = c" and "fib k' = (if r = None
     then (fib k)(routeKeyOf t (dstOf p) \<mapsto> map (hopInfo (linkIndex (tunDevice c))) (take 3 hops)) else fib k)"
  using assms(2) kernel_replace [OF assms(1), of _ k]
  by (auto simp: replaceRoute_def nextHopInfosLoop_take split: prod.splits option.splits)

lemma removeRoute_fib:
  assumes "kernel_laws K fib" "removeRoute K p t (c, k) = (r, (c', k'))"
  shows "c' = c" and "fib k' = (if r = None then (fib k)(routeKeyOf t (dstOf p) := None) else fib k)"
  using assms(2) kernel_del [OF assms(1), of _ k]
  by (auto simp: removeRoute_def split: prod.splits option.splits)

section \<open>The client's own map\<close>

text \<open>
  Every key has next hops, without repetition and in the order of their addresses; it is of a
  VNI with a table and, in IPv4-only mode, of an IPv4 destination.
\<close>

definition entry_ok :: "NetlinkClientConfig \<Rightarrow> routeKey \<Rightarrow> NextHop list \<Rightarrow> bool" where
  "entry_ok cfg key hops \<longleftrightarrow> hops \<noteq> [] \<and> distinct hops \<and> sorted (map TargetAddress hops) \<and>
     gget (VNITableMap cfg) (fst key) \<noteq> None \<and> (IPv4Only cfg \<longrightarrow> destIPVersion (snd key) = IPV4)"

definition client_ok :: "NetlinkClient \<Rightarrow> bool" where
  "client_ok c \<longleftrightarrow> (\<forall>key hops. gget (nlRoutes c) key = Some hops \<longrightarrow> entry_ok (config c) key hops)"

definition nlWants :: "'k nl \<Rightarrow> VNI \<Rightarrow> Destination \<Rightarrow> bool" where
  "nlWants ck v d \<longleftrightarrow> \<not> (IPv4Only (config (fst ck)) \<and> destIPVersion d \<noteq> IPV4)"

definition nlInstalled :: "'k nl \<Rightarrow> routeSet" where
  "nlInstalled ck = {(v, d, h). h \<in> set (hopsOf (fst ck) (v, d))}"

text \<open>The outcomes of the two operations, from the client's side.\<close>

lemma byAddress_less: "byAddress = (\<lambda>a b. TargetAddress a < TargetAddress b)"
  by (auto simp: byAddress_def fun_eq_iff less_Addr_def Compare_le Compare_def cmp_def split: Addr.splits)

lemma replaceRoute_client: "fst (snd (replaceRoute K p hops t ck)) = fst ck"
  by (simp add: replaceRoute_def Let_def split: prod.split option.split)

lemma removeRoute_client: "fst (snd (removeRoute K p t ck)) = fst ck"
  by (simp add: removeRoute_def Let_def split: prod.split option.split)

text \<open>
  An addition either leaves the client as it is, because the route is not wanted or already
  there, or because it failed; or it stores the sorted list, and then the kernel has taken it.
\<close>

lemma nlAddRoute_cases:
  assumes "nlAddRoute K srt v d h ck = (e, ck')"
  obtains (unwanted) "\<not> nlWants ck v d" "e = None" "ck' = ck"
  | (noTable) "nlWants ck v d" "gget (VNITableMap (config (fst ck))) v = None" "e \<noteq> None" "ck' = ck"
  | (there) t where "nlWants ck v d" "gget (VNITableMap (config (fst ck))) v = Some t"
      "h \<in> set (hopsOf (fst ck) (v, d))" "e = None" "ck' = ck"
  | (failed) t where "gget (VNITableMap (config (fst ck))) v = Some t"
      "replaceRoute K (destPrefix d) (srt byAddress (hopsOf (fst ck) (v, d) @ [h])) t ck = (e, ck')"
      "nlWants ck v d" "e \<noteq> None"
  | (stored) t ck1 where "nlWants ck v d" "gget (VNITableMap (config (fst ck))) v = Some t"
      "h \<notin> set (hopsOf (fst ck) (v, d))"
      "replaceRoute K (destPrefix d) (srt byAddress (hopsOf (fst ck) (v, d) @ [h])) t ck = (None, ck1)"
      "e = None" "ck' = setRoutes (gput (v, d) (srt byAddress (hopsOf (fst ck) (v, d) @ [h]))) ck1"
proof (cases "nlWants ck v d")
  case False
  with assms show thesis by (intro unwanted) (simp_all add: nlAddRoute_def nlWants_def)
next
  case wants: True
  show thesis
  proof (cases "gget (VNITableMap (config (fst ck))) v")
    case None
    with assms wants show thesis by (intro noTable) (auto simp: nlAddRoute_def nlWants_def)
  next
    case t: (Some t)
    let ?next = "srt byAddress (hopsOf (fst ck) (v, d) @ [h])"
    obtain r ck1 where r: "replaceRoute K (destPrefix d) ?next t ck = (r, ck1)"
      by (cases "replaceRoute K (destPrefix d) ?next t ck")
    have eq: "nlAddRoute K srt v d h ck = (if h \<in> set (hopsOf (fst ck) (v, d)) then (None, ck)
        else case r of Some err \<Rightarrow> (Some err, ck1) | None \<Rightarrow> (None, setRoutes (gput (v, d) ?next) ck1))"
      using wants t r by (auto simp: nlAddRoute_def nlWants_def Let_def split: option.split)
    show thesis
    proof (cases "h \<in> set (hopsOf (fst ck) (v, d))")
      case True
      with assms eq show thesis by (intro there [OF wants t]) simp_all
    next
      case False
      show thesis
      proof (cases r)
        case None
        with assms eq False r show thesis by (intro stored [OF wants t False, of ck1]) simp_all
      next
        case (Some err)
        with assms eq False r show thesis by (intro failed [OF t _ wants]) auto
      qed
    qed
  qed
qed

text \<open>
  A removal fails for an unknown VNI or destination; it has nothing to do for a route that is
  not wanted or not there; else it deletes the kernel route with its last next hop, or replaces it.
\<close>

lemma nlRemoveRoute_cases:
  assumes "nlRemoveRoute K v d h ck = (e, ck')"
  obtains (unwanted) "\<not> nlWants ck v d" "e = None" "ck' = ck"
  | (unknown) "nlWants ck v d" "e \<noteq> None" "ck' = ck"
      "gget (VNITableMap (config (fst ck))) v = None \<or> gget (nlRoutes (fst ck)) (v, d) = None"
  | (notThere) hops where "nlWants ck v d" "gget (nlRoutes (fst ck)) (v, d) = Some hops" "h \<notin> set hops"
      "e = None" "ck' = ck"
  | (last) t hops r ck1 where "nlWants ck v d" "gget (VNITableMap (config (fst ck))) v = Some t"
      "gget (nlRoutes (fst ck)) (v, d) = Some hops" "h \<in> set hops" "filter (\<lambda>x. x \<noteq> h) hops = []"
      "removeRoute K (destPrefix d) t ck = (r, ck1)" "(e = None) = (r = None)"
      "ck' = (if r = None then setRoutes (gdel (v, d)) ck1 else ck1)"
  | (more) t hops r ck1 where "nlWants ck v d" "gget (VNITableMap (config (fst ck))) v = Some t"
      "gget (nlRoutes (fst ck)) (v, d) = Some hops" "h \<in> set hops" "filter (\<lambda>x. x \<noteq> h) hops \<noteq> []"
      "replaceRoute K (destPrefix d) (filter (\<lambda>x. x \<noteq> h) hops) t ck = (r, ck1)" "(e = None) = (r = None)"
      "ck' = (if r = None then setRoutes (gput (v, d) (filter (\<lambda>x. x \<noteq> h) hops)) ck1 else ck1)"
proof (cases "nlWants ck v d")
  case False
  with assms show thesis by (intro unwanted) (simp_all add: nlRemoveRoute_def nlWants_def)
next
  case wants: True
  show thesis
  proof (cases "gget (VNITableMap (config (fst ck))) v = None \<or> gget (nlRoutes (fst ck)) (v, d) = None")
    case True
    with assms wants show thesis
      by (intro unknown) (auto simp: nlRemoveRoute_def nlWants_def Let_def split: option.splits)
  next
    case False
    then obtain t hops where t: "gget (VNITableMap (config (fst ck))) v = Some t"
      and hops: "gget (nlRoutes (fst ck)) (v, d) = Some hops" by auto
    let ?next = "filter (\<lambda>x. x \<noteq> h) hops"
    obtain r1 ck1 where r1: "removeRoute K (destPrefix d) t ck = (r1, ck1)"
      by (cases "removeRoute K (destPrefix d) t ck")
    obtain r2 ck2 where r2: "replaceRoute K (destPrefix d) ?next t ck = (r2, ck2)"
      by (cases "replaceRoute K (destPrefix d) ?next t ck")
    have same: "length hops = length ?next \<longleftrightarrow> h \<notin> set hops"
    proof
      show "h \<notin> set hops" if "length hops = length ?next"
        using that length_filter_less [of h hops "\<lambda>x. x \<noteq> h"] by auto
      show "length hops = length ?next" if "h \<notin> set hops"
        using that by (metis (mono_tags, lifting) filter_True)
    qed
    have eq: "nlRemoveRoute K v d h ck = (if h \<notin> set hops then (None, ck)
        else if ?next = [] then (case r1 of
            Some err \<Rightarrow> (Some (Wrapf ''cannot remove route to %s from kernel: %w'' err), ck1)
          | None \<Rightarrow> (None, setRoutes (gdel (v, d)) ck1))
        else (case r2 of
            Some err \<Rightarrow> (Some (Wrapf ''cannot install replacement route for %s: %w'' err), ck2)
          | None \<Rightarrow> (None, setRoutes (gput (v, d) ?next) ck2)))"
      using wants t hops r1 r2 same
      by (auto simp: nlRemoveRoute_def nlWants_def Let_def split: option.split)
    consider "h \<notin> set hops" | "h \<in> set hops" "?next = []" | "h \<in> set hops" "?next \<noteq> []" by blast
    then show thesis
    proof cases
      case 1
      with assms eq show thesis by (intro notThere [OF wants hops]) simp_all
    next
      case 2
      with assms eq show thesis by (intro last [OF wants t hops 2 r1]) (auto split: option.splits)
    next
      case 3
      with assms eq show thesis by (intro more [OF wants t hops 3 r2]) (auto split: option.splits)
    qed
  qed
qed

lemma setRoutes_simps [simp]:
  "config (fst (setRoutes f ck)) = config (fst ck)" "tunDevice (fst (setRoutes f ck)) = tunDevice (fst ck)"
  "nlRoutes (fst (setRoutes f ck)) = f (nlRoutes (fst ck))" "snd (setRoutes f ck) = snd ck"
  by (simp_all add: setRoutes_def)

lemma replaceRoute_clientD: "replaceRoute K p hops t ck = (r, ck1) \<Longrightarrow> fst ck1 = fst ck"
  using replaceRoute_client [of K p hops t ck] by simp

lemma removeRoute_clientD: "removeRoute K p t ck = (r, ck1) \<Longrightarrow> fst ck1 = fst ck"
  using removeRoute_client [of K p t ck] by simp

lemma entry_ok_srt:
  assumes "go_sort srt" "hops = [] \<or> entry_ok cfg key hops" "h \<notin> set hops"
    "gget (VNITableMap cfg) (fst key) \<noteq> None" "IPv4Only cfg \<longrightarrow> destIPVersion (snd key) = IPV4"
  shows "entry_ok cfg key (srt byAddress (hops @ [h]))"
proof -
  note srt = go_sort.set_srt [OF assms(1)] go_sort.distinct_srt [OF assms(1)]
  have "srt byAddress (hops @ [h]) \<noteq> []" using srt(1) [of byAddress "hops @ [h]"] by auto
  moreover have "sorted (map TargetAddress (srt byAddress (hops @ [h])))"
    unfolding byAddress_less by (rule go_sort.sorted_srt [OF assms(1)])
  ultimately show ?thesis using assms(2-) srt(2) by (auto simp: entry_ok_def)
qed

lemma entry_ok_filter: "entry_ok cfg key hops \<Longrightarrow> filter P hops \<noteq> [] \<Longrightarrow> entry_ok cfg key (filter P hops)"
  by (simp add: entry_ok_def sorted_filter)

lemma hopsOf_ok: "client_ok c \<Longrightarrow> hopsOf c key = [] \<or> entry_ok (config c) key (hopsOf c key)"
  unfolding hopsOf_def client_ok_def by (cases "gget (nlRoutes c) key"; cases key) simp_all

lemma nlWants_ipv4: "nlWants ck v d \<Longrightarrow> IPv4Only (config (fst ck)) \<longrightarrow> destIPVersion d = IPV4"
  by (auto simp: nlWants_def)

text \<open>Both operations keep the client's map in order.\<close>

lemma nlAddRoute_ok:
  assumes "go_sort srt" "client_ok (fst ck)" "nlAddRoute K srt v d h ck = (e, ck')"
  shows "client_ok (fst ck')"
  using assms(3)
proof (cases rule: nlAddRoute_cases)
  case (stored t ck1)
  have "entry_ok (config (fst ck)) (v, d) (srt byAddress (hopsOf (fst ck) (v, d) @ [h]))"
    by (rule entry_ok_srt [OF assms(1) hopsOf_ok [OF assms(2)] stored(3)])
      (use stored(2) nlWants_ipv4 [OF stored(1)] in simp_all)
  then show ?thesis
    using assms(2) stored(6) replaceRoute_clientD [OF stored(4)] by (auto simp: client_ok_def)
next
  case (failed t)
  then show ?thesis using assms(2) replaceRoute_clientD [OF failed(2)] by simp
qed (use assms(2) in auto)

lemma nlRemoveRoute_ok:
  assumes "client_ok (fst ck)" "nlRemoveRoute K v d h ck = (e, ck')"
  shows "client_ok (fst ck')"
  using assms(2)
proof (cases rule: nlRemoveRoute_cases)
  case (last t hops r ck1)
  then show ?thesis
    using assms(1) removeRoute_clientD [OF last(6)] by (auto simp: client_ok_def)
next
  case (more t hops r ck1)
  have "entry_ok (config (fst ck)) (v, d) (filter (\<lambda>x. x \<noteq> h) hops)"
    using assms(1) more(3,5) by (intro entry_ok_filter) (auto simp: client_ok_def)
  then show ?thesis
    using assms(1) more(8) replaceRoute_clientD [OF more(6)] by (auto simp: client_ok_def)
qed (use assms(1) in auto)

text \<open>Neither changes what the client is configured with.\<close>

lemma nlAddRoute_config:
  assumes "nlAddRoute K srt v d h ck = (e, ck')"
  shows "config (fst ck') = config (fst ck) \<and> tunDevice (fst ck') = tunDevice (fst ck)"
  using assms by (cases rule: nlAddRoute_cases) (auto dest!: replaceRoute_clientD)

lemma nlRemoveRoute_config:
  assumes "nlRemoveRoute K v d h ck = (e, ck')"
  shows "config (fst ck') = config (fst ck) \<and> tunDevice (fst ck') = tunDevice (fst ck)"
  using assms by (cases rule: nlRemoveRoute_cases) (auto dest!: replaceRoute_clientD removeRoute_clientD)

text \<open>The set of installed routes changes by one route, or not at all.\<close>

lemma nlInstalled_cong: "fst ck' = fst ck \<Longrightarrow> nlInstalled ck' = nlInstalled ck"
  by (simp add: nlInstalled_def)

lemma nlInstalled_setRoutes:
  assumes "fst ck1 = fst ck" "ck' = setRoutes f ck1" "\<And>k. k \<noteq> (v, d) \<Longrightarrow> gget (f (nlRoutes (fst ck))) k = gget (nlRoutes (fst ck)) k"
  shows "(v', d', x) \<in> nlInstalled ck' \<longleftrightarrow>
     (if (v', d') = (v, d) then x \<in> set (hopsOf (fst ck') (v, d)) else (v', d', x) \<in> nlInstalled ck)"
proof (cases "(v', d') = (v, d)")
  case False
  then have "gget (nlRoutes (fst ck')) (v', d') = gget (nlRoutes (fst ck)) (v', d')"
    using assms by simp
  then show ?thesis using False by (auto simp: nlInstalled_def hopsOf_def)
qed (auto simp: nlInstalled_def)

lemma nlAddRoute_installed:
  assumes "go_sort srt" "nlAddRoute K srt v d h ck = (e, ck')"
  shows "nlInstalled ck' = (if e = None \<and> nlWants ck v d then insert (v, d, h) (nlInstalled ck) else nlInstalled ck)"
  using assms(2)
proof (cases rule: nlAddRoute_cases)
  case (there t)
  then show ?thesis by (auto simp: nlInstalled_def)
next
  case (failed t)
  then show ?thesis using nlInstalled_cong [OF replaceRoute_clientD [OF failed(2)]] by auto
next
  case (stored t ck1)
  have "set (hopsOf (fst ck') (v, d)) = insert h (set (hopsOf (fst ck) (v, d)))"
    using stored(6) go_sort.set_srt [OF assms(1)] by (simp add: hopsOf_def)
  then have "(v', d', x) \<in> nlInstalled ck' \<longleftrightarrow> (v', d', x) \<in> insert (v, d, h) (nlInstalled ck)" for v' d' x
    using nlInstalled_setRoutes [OF replaceRoute_clientD [OF stored(4)] stored(6), of v d v' d' x]
    by (auto simp: nlInstalled_def split: if_splits)
  then show ?thesis using stored(1,5) by auto
qed auto

lemma nlRemoveRoute_installed:
  assumes "nlRemoveRoute K v d h ck = (e, ck')"
  shows "nlInstalled ck' = (if e = None \<and> nlWants ck v d then nlInstalled ck - {(v, d, h)} else nlInstalled ck)"
proof -
  have change: ?thesis if "fst ck1 = fst ck" "ck' = (if r = None then setRoutes f ck1 else ck1)"
      "\<And>k. k \<noteq> (v, d) \<Longrightarrow> gget (f (nlRoutes (fst ck))) k = gget (nlRoutes (fst ck)) k"
      "r = None \<Longrightarrow> set (hopsOf (fst ck') (v, d)) = set (hopsOf (fst ck) (v, d)) - {h}"
      "(e = None) = (r = None)" "nlWants ck v d" for ck1 f and r :: "error option"
  proof (cases "r = None")
    case True
    then have "(v', d', x) \<in> nlInstalled ck' \<longleftrightarrow> (v', d', x) \<in> nlInstalled ck - {(v, d, h)}" for v' d' x
      using nlInstalled_setRoutes [OF that(1), of ck' f v d v' d' x] that(2-4)
      by (auto simp: nlInstalled_def split: if_splits)
    then show ?thesis using True that(5,6) by auto
  next
    case False
    then have "fst ck' = fst ck" "e \<noteq> None" using that(1,2,5) by auto
    then show ?thesis using nlInstalled_cong [of ck' ck] by auto
  qed
  from assms show ?thesis
  proof (cases rule: nlRemoveRoute_cases)
    case (last t hops r ck1)
    have "set hops - {h} = {}" using last(5) by (auto simp: filter_empty_conv)
    then have "set (hopsOf (fst ck') (v, d)) = set (hopsOf (fst ck) (v, d)) - {h}" if "r = None"
      using that last(3,8) by (simp add: hopsOf_def)
    then show ?thesis
      by (intro change [OF removeRoute_clientD [OF last(6)] last(8) _ _ last(7) last(1)]) simp_all
  next
    case (more t hops r ck1)
    have "set (hopsOf (fst ck') (v, d)) = set (hopsOf (fst ck) (v, d)) - {h}" if "r = None"
      using that more(3,8) by (auto simp: hopsOf_def)
    then show ?thesis
      by (intro change [OF replaceRoute_clientD [OF more(6)] more(8) _ _ more(7) more(1)]) simp_all
  qed (auto simp: nlInstalled_def hopsOf_def)
qed

section \<open>The kernel mirrors the client's map\<close>

text \<open>
  In the tables the client is configured with, the kernel's routes are exactly the keys of the
  client's map, each with its first three next hops.
\<close>

definition mirrors :: "'k fib \<Rightarrow> 'k nl \<Rightarrow> bool" where
  "mirrors fib ck \<longleftrightarrow> (\<forall>v t n x. gget (VNITableMap (config (fst ck))) v = Some t \<longrightarrow>
     (fib (snd ck) (t, n) = Some x \<longleftrightarrow>
       (\<exists>d hops. gget (nlRoutes (fst ck)) (v, d) = Some hops \<and> routeKeyOf t (dstOf (destPrefix d)) = (t, n) \<and>
          x = map (hopInfo (linkIndex (tunDevice (fst ck)))) (take 3 hops))))"

text \<open>The VNIs have tables of their own, and the keys' destinations are networks of their own.\<close>

definition keys_apart :: "NetlinkClient \<Rightarrow> bool" where
  "keys_apart c \<longleftrightarrow> inj_on (gget (VNITableMap (config c))) (set (gkeys (VNITableMap (config c)))) \<and>
     (\<forall>v d. gget (nlRoutes c) (v, d) \<noteq> None \<longrightarrow> dest_ok d)"

definition nl_inv :: "'k fib \<Rightarrow> 'k nl \<Rightarrow> bool" where
  "nl_inv fib ck \<longleftrightarrow> client_ok (fst ck) \<and> keys_apart (fst ck) \<and> mirrors fib ck"

lemma tables_inj:
  assumes "keys_apart c" "gget (VNITableMap (config c)) v = Some t" "gget (VNITableMap (config c)) v' = Some t"
  shows "v = v'"
  using assms by (auto simp: keys_apart_def gget_in_gkeys inj_on_def)

lemma mirrors_update:
  assumes inv: "keys_apart (fst ck)" "mirrors fib ck" and ok: "dest_ok d"
    and t: "gget (VNITableMap (config (fst ck))) v = Some t"
    and conf: "config (fst ck') = config (fst ck)" "tunDevice (fst ck') = tunDevice (fst ck)"
    and map: "\<And>key. gget (nlRoutes (fst ck')) key = (if key = (v, d) then H else gget (nlRoutes (fst ck)) key)"
    and kern: "fib (snd ck') = (fib (snd ck))(routeKeyOf t (dstOf (destPrefix d)) :=
      map_option (\<lambda>hops. map (hopInfo (linkIndex (tunDevice (fst ck)))) (take 3 hops)) H)"
  shows "mirrors fib ck'"
  unfolding mirrors_def conf
proof (intro allI impI)
  fix v' t' n x assume t': "gget (VNITableMap (config (fst ck))) v' = Some t'"
  let ?info = "\<lambda>hops. map (hopInfo (linkIndex (tunDevice (fst ck)))) (take 3 hops)"
  let ?key = "\<lambda>t d. routeKeyOf t (dstOf (destPrefix d))"
  let ?R = "\<lambda>m. \<exists>d' hops. gget m (v', d') = Some hops \<and> ?key t' d' = (t', n) \<and> x = ?info hops"
  have old: "fib (snd ck) (t', n) = Some x \<longleftrightarrow> ?R (nlRoutes (fst ck))"
    using inv(2) [unfolded mirrors_def] t' by blast
  have dests: "dest_ok d'" if "gget (nlRoutes (fst ck)) (v'', d') = Some hops" for v'' d' hops
    using inv(1) that by (auto simp: keys_apart_def)
  show "fib (snd ck') (t', n) = Some x \<longleftrightarrow> ?R (nlRoutes (fst ck'))"
  proof (cases "?key t d = (t', n)")
    case True
    then have "t' = t" by (simp add: routeKeyOf_def)
    then have "v' = v" using tables_inj [OF inv(1) t] t' by simp
    have "dest_ok d'" if "gget (nlRoutes (fst ck')) (v', d') = Some hops" for d' hops
      using that ok dests by (auto simp: map split: if_splits)
    then have only: "d' = d" if "gget (nlRoutes (fst ck')) (v', d') = Some hops" "?key t' d' = (t', n)" for d' hops
      using routeKeyOf_inj [OF _ ok, of d' t' t] that True by simp
    have key: "?key t' d = (t', n)" using True \<open>t' = t\<close> by simp
    have "?R (nlRoutes (fst ck')) \<longleftrightarrow> (\<exists>hops. gget (nlRoutes (fst ck')) (v', d) = Some hops \<and> x = ?info hops)"
      using only key by blast
    then have "?R (nlRoutes (fst ck')) \<longleftrightarrow> (\<exists>hops. H = Some hops \<and> x = ?info hops)"
      using \<open>v' = v\<close> by (simp add: map)
    then show ?thesis using True by (auto simp: kern)
  next
    case False
    then have "(v', d') \<noteq> (v, d)" if "?key t' d' = (t', n)" for d' using that t t' by auto
    then have "?R (nlRoutes (fst ck')) \<longleftrightarrow> ?R (nlRoutes (fst ck))" by (auto simp: map)
    with False old show ?thesis by (auto simp: kern)
  qed
qed

lemma nl_inv_fib: "nl_inv fib (c, k) \<Longrightarrow> fib k' = fib k \<Longrightarrow> nl_inv fib (c, k')"
  by (simp add: nl_inv_def mirrors_def)

lemma nl_inv_update:
  assumes inv: "nl_inv fib ck" and ok: "dest_ok d" and t: "gget (VNITableMap (config (fst ck))) v = Some t"
    and ck1: "fst ck1 = fst ck" "fib (snd ck1) = (fib (snd ck))(routeKeyOf t (dstOf (destPrefix d)) :=
      map_option (\<lambda>hops. map (hopInfo (linkIndex (tunDevice (fst ck)))) (take 3 hops)) H)"
    and f: "\<And>key. gget (f (nlRoutes (fst ck))) key = (if key = (v, d) then H else gget (nlRoutes (fst ck)) key)"
    and client: "client_ok (fst (setRoutes f ck1))"
  shows "nl_inv fib (setRoutes f ck1)"
proof -
  have "dest_ok d'" if "gget (f (nlRoutes (fst ck))) (v', d') \<noteq> None" for v' d'
    using that inv ok by (auto simp: f nl_inv_def keys_apart_def split: if_splits)
  then have "keys_apart (fst (setRoutes f ck1))"
    using inv ck1(1) by (simp add: nl_inv_def keys_apart_def)
  moreover have "mirrors fib (setRoutes f ck1)"
    by (rule mirrors_update [of ck fib d v t _ H]) (use inv ck1 f in \<open>simp_all add: nl_inv_def ok t\<close>)
  ultimately show ?thesis using client by (simp add: nl_inv_def)
qed

lemma nlAddRoute_inv:
  assumes K: "kernel_laws K fib" and srt: "go_sort srt" and inv: "nl_inv fib ck" and ok: "dest_ok d"
    and run: "nlAddRoute K srt v d h ck = (e, ck')"
  shows "nl_inv fib ck'"
proof -
  obtain c k where ck: "ck = (c, k)" by (cases ck)
  have client: "client_ok (fst ck')" using srt inv run by (auto simp: nl_inv_def intro: nlAddRoute_ok)
  from run show ?thesis
  proof (cases rule: nlAddRoute_cases)
    case (failed t)
    obtain c' k' where ck': "ck' = (c', k')" by (cases ck')
    show ?thesis
      using replaceRoute_fib [OF K failed(2) [unfolded ck ck']] failed(4) inv nl_inv_fib unfolding ck ck' by auto
  next
    case (stored t ck1)
    obtain c1 k1 where ck1: "ck1 = (c1, k1)" by (cases ck1)
    note fib = replaceRoute_fib [OF K stored(4) [unfolded ck ck1]]
    show ?thesis
      unfolding stored(6)
      by (rule nl_inv_update [OF inv ok stored(2), where H = "Some (srt byAddress (hopsOf (fst ck) (v, d) @ [h]))"])
        (use fib client in \<open>simp_all add: stored(6) ck ck1\<close>)
  qed (use inv in auto)
qed

lemma nlRemoveRoute_inv:
  assumes K: "kernel_laws K fib" and inv: "nl_inv fib ck" and ok: "dest_ok d"
    and run: "nlRemoveRoute K v d h ck = (e, ck')"
  shows "nl_inv fib ck'"
proof -
  obtain c k where ck: "ck = (c, k)" by (cases ck)
  have client: "client_ok (fst ck')" using inv run by (auto simp: nl_inv_def intro: nlRemoveRoute_ok)
  from run show ?thesis
  proof (cases rule: nlRemoveRoute_cases)
    case (last t hops r ck1)
    obtain c1 k1 where ck1: "ck1 = (c1, k1)" by (cases ck1)
    note fib = removeRoute_fib [OF K last(6) [unfolded ck ck1]]
    show ?thesis
    proof (cases "r = None")
      case True
      then have ck': "ck' = setRoutes (gdel (v, d)) ck1" using last(8) by simp
      show ?thesis
        unfolding ck'
        by (rule nl_inv_update [OF inv ok last(2), where H = None])
          (use fib client True in \<open>simp_all add: ck' ck ck1\<close>)
    qed (use last(8) fib inv nl_inv_fib in \<open>auto simp: ck ck1\<close>)
  next
    case (more t hops r ck1)
    obtain c1 k1 where ck1: "ck1 = (c1, k1)" by (cases ck1)
    note fib = replaceRoute_fib [OF K more(6) [unfolded ck ck1]]
    show ?thesis
    proof (cases "r = None")
      case True
      then have ck': "ck' = setRoutes (gput (v, d) (filter (\<lambda>x. x \<noteq> h) hops)) ck1" using more(8) by simp
      show ?thesis
        unfolding ck'
        by (rule nl_inv_update [OF inv ok more(2), where H = "Some (filter (\<lambda>x. x \<noteq> h) hops)"])
          (use fib client True in \<open>simp_all add: ck' ck ck1\<close>)
    qed (use more(8) fib inv nl_inv_fib in \<open>auto simp: ck ck1\<close>)
  qed (use inv in auto)
qed

end
