(* ===== verification/KernelRoutes.thy ===== *)
theory KernelRoutes
  imports Netlink ProtoWire
begin

text \<open>
  What the netlink client (theory \<open>Netlink\<close>) achieves in the kernel: it keeps the contract of
  a route client, its clean-up empties its tables, and through any sequence of calls the
  kernel's tables mirror the routes that were added and not removed.
\<close>

section \<open>The contract\<close>

lemma netlink_route_client:
  assumes "kernel_laws K fib" "go_sort srt"
  shows "route_client (NetlinkOps K srt) (nl_inv fib) nlInstalled nlWants dest_ok"
proof
  fix x ck
  obtain e ck' where run: "runCall (NetlinkOps K srt) x ck = (e, ck')" by (cases "runCall (NetlinkOps K srt) x ck")
  consider (add) v d h where "x = CallAdd v d h" "nlAddRoute K srt v d h ck = (e, ck')"
    | (remove) v d h where "x = CallRemove v d h" "nlRemoveRoute K v d h ck = (e, ck')"
    using run by (cases x) (simp_all add: NetlinkOps_def)
  note call = this
  show "nl_inv fib (snd (runCall (NetlinkOps K srt) x ck))" if "nl_inv fib ck" "dest_ok (callDest x)"
    using call
  proof cases
    case (add v d h)
    then show ?thesis using nlAddRoute_inv [OF assms that(1) _ add(2)] that(2) run by simp
  next
    case (remove v d h)
    then show ?thesis using nlRemoveRoute_inv [OF assms(1) that(1) _ remove(2)] that(2) run by simp
  qed
  show "nlWants (snd (runCall (NetlinkOps K srt) x ck)) = nlWants ck"
    using call
  proof cases
    case (add v d h)
    then show ?thesis using nlAddRoute_config [OF add(2)] run by (simp add: nlWants_def fun_eq_iff)
  next
    case (remove v d h)
    then show ?thesis using nlRemoveRoute_config [OF remove(2)] run by (simp add: nlWants_def fun_eq_iff)
  qed
  show "nlInstalled (snd (runCall (NetlinkOps K srt) x ck)) =
      meaning (nlWants ck) x (fst (runCall (NetlinkOps K srt) x ck)) (nlInstalled ck)"
    using call
  proof cases
    case (add v d h)
    then show ?thesis unfolding run using nlAddRoute_installed [OF assms(2) add(2)] by simp
  next
    case (remove v d h)
    then show ?thesis unfolding run using nlRemoveRoute_installed [OF remove(2)] by simp
  qed
qed

section \<open>Cleaning up\<close>

lemma map_le_None: "m \<subseteq>\<^sub>m m' \<Longrightarrow> m' k = None \<Longrightarrow> m k = None"
  by (metis domIff map_le_def)

lemma cleanupTable_run:
  assumes "kernel_laws K fib" "cleanupTable K rs (errs, k) = (errs', k')"
    "\<And>r. r \<in> set rs \<Longrightarrow> rtTable r = t \<and> rtProtocol r = METALBOND_RT_PROTO"
  shows "fib k' \<subseteq>\<^sub>m fib k" and "length errs \<le> length errs'"
    and "length errs = length errs' \<Longrightarrow> r \<in> set rs \<Longrightarrow> fib k' (routeKeyOf t (rtDst r)) = None"
    and "fst key \<noteq> t \<Longrightarrow> fib k' key = fib k key"
proof -
  have "fib k' \<subseteq>\<^sub>m fib k \<and> length errs \<le> length errs' \<and>
      (length errs = length errs' \<longrightarrow> (\<forall>r \<in> set rs. fib k' (routeKeyOf t (rtDst r)) = None)) \<and>
      (\<forall>key. fst key \<noteq> t \<longrightarrow> fib k' key = fib k key)"
    using assms(2,3)
  proof (induction rs arbitrary: errs k)
    case (Cons r rs)
    obtain e k1 where del: "RouteDel K r k = (e, k1)" by (cases "RouteDel K r k")
    let ?key = "routeKeyOf t (rtDst r)"
    have fib: "fib k1 = (if e = None then (fib k)(?key := None) else fib k)"
      using kernel_del [OF assms(1) del] Cons.prems(2) by simp
    have step: "cleanupTable K rs (errs @ (case e of None \<Rightarrow> [] | Some err \<Rightarrow> [err]), k1) = (errs', k')"
      using Cons.prems(1) del by (cases e) simp_all
    have "rtTable r = t \<and> rtProtocol r = METALBOND_RT_PROTO" if "r \<in> set rs" for r
      using that by (intro Cons.prems(2)) simp
    note IH = Cons.IH [OF step this]
    show ?case
    proof (cases e)
      case None
      have le: "fib k' \<subseteq>\<^sub>m fib k1" using IH by (rule conjunct1)
      have "fib k' ?key = None"
        by (rule map_le_None [OF le]) (use None in \<open>simp add: fib\<close>)
      moreover have "fib k1 \<subseteq>\<^sub>m fib k" using None by (simp add: fib map_le_def)
      moreover have "fib k1 key = fib k key" if "fst key \<noteq> t" for key
        using None that by (auto simp: fib routeKeyOf_def)
      ultimately show ?thesis using IH None map_le_trans [OF le] by simp
    next
      case (Some err)
      then show ?thesis using IH by (simp add: fib)
    qed
  qed simp
  then show "fib k' \<subseteq>\<^sub>m fib k" "length errs \<le> length errs'"
    "length errs = length errs' \<Longrightarrow> r \<in> set rs \<Longrightarrow> fib k' (routeKeyOf t (rtDst r)) = None"
    "fst key \<noteq> t \<Longrightarrow> fib k' key = fib k key" by blast+
qed

lemma cleanupTables_run:
  assumes "kernel_laws K fib" "cleanupTables K ts (errs, k) = (errs', k')"
  shows "fib k' \<subseteq>\<^sub>m fib k \<and> length errs \<le> length errs' \<and>
     (length errs = length errs' \<longrightarrow> (\<forall>t \<in> set ts. \<forall>n. fib k' (t, n) = None)) \<and>
     (\<forall>t n. t \<notin> set ts \<longrightarrow> fib k' (t, n) = fib k (t, n))"
  using assms(2)
proof (induction ts arbitrary: errs k)
  case (Cons t ts)
  show ?case
  proof (cases "RouteListFiltered K t METALBOND_RT_PROTO k")
    case (Inl err)
    then show ?thesis using Cons.IH [of "errs @ [err]" k] Cons.prems by auto
  next
    case (Inr rs)
    obtain errs1 k1 where one: "cleanupTable K rs (errs, k) = (errs1, k1)" by (cases "cleanupTable K rs (errs, k)")
    note t = cleanupTable_run [OF assms(1) one kernel_list(1) [OF assms(1) Inr]]
    have rest: "cleanupTables K ts (errs1, k1) = (errs', k')" using Cons.prems Inr one by simp
    note IH = Cons.IH [OF rest]
    have "fib k1 (t, n) = None" if "length errs = length errs1" for n
    proof (rule ccontr)
      assume "fib k1 (t, n) \<noteq> None"
      then have "fib k (t, n) \<noteq> None" using map_le_None [OF t(1), of "(t, n)"] by (rule contrapos_nn)
      then have "(t, n) \<in> (\<lambda>r. routeKeyOf t (rtDst r)) ` set rs"
        by (rule kernel_list(2) [OF assms(1) Inr, THEN iffD1])
      then obtain r where "r \<in> set rs" "(t, n) = routeKeyOf t (rtDst r)" by (elim imageE)
      with t(3) that \<open>fib k1 (t, n) \<noteq> None\<close> show False by simp
    qed
    then have "fib k' (t, n) = None" if "length errs = length errs'" for n
      using that IH t(2) by (intro map_le_None [of "fib k'" "fib k1"]) simp_all
    then show ?thesis
      using IH t(1,2,4) map_le_trans [of "fib k'" "fib k1" "fib k"] by auto
  qed
qed simp

lemma nlCleanup_run:
  assumes "kernel_laws K fib" "nlCleanup K ck = (e, ck')"
  shows "fst ck' = fst ck" and "fib (snd ck') \<subseteq>\<^sub>m fib (snd ck)"
    and "e = None \<Longrightarrow> gget (VNITableMap (config (fst ck))) v = Some t \<Longrightarrow> fib (snd ck') (t, n) = None"
    and "t' \<notin> snd ` set (VNITableMap (config (fst ck))) \<Longrightarrow> fib (snd ck') (t', n') = fib (snd ck) (t', n')"
proof -
  let ?ts = "map snd (VNITableMap (config (fst ck)))"
  obtain errs k' where run: "cleanupTables K ?ts ([], snd ck) = (errs, k')"
    by (cases "cleanupTables K ?ts ([], snd ck)")
  then have ck': "ck' = (fst ck, k')" and e: "e = errorsJoin errs" using assms(2) by (auto simp: nlCleanup_def)
  note r = cleanupTables_run [OF assms(1) run]
  show "fst ck' = fst ck" "fib (snd ck') \<subseteq>\<^sub>m fib (snd ck)" using r ck' by auto
  show "fib (snd ck') (t, n) = None" if "e = None" "gget (VNITableMap (config (fst ck))) v = Some t"
  proof -
    have "t \<in> set ?ts" using gget_memI [OF that(2)] by force
    moreover have "errs = []" using that(1) e by (simp add: errorsJoin_def split: if_splits)
    ultimately have "fib k' (t, n) = None" using r by blast
    then show ?thesis unfolding ck' by simp
  qed
  show "fib (snd ck') (t', n') = fib (snd ck) (t', n')" if "t' \<notin> snd ` set (VNITableMap (config (fst ck)))"
    using r that unfolding ck' by (cases n') simp
qed

lemma NewNetlinkClient_run:
  assumes "kernel_laws K fib" "NewNetlinkClient K cfg k = (Inr c, k')"
    "inj_on (gget (VNITableMap cfg)) (set (gkeys (VNITableMap cfg)))"
  shows "config c = cfg" and "nlRoutes c = []" and "nl_inv fib (c, k')"
proof -
  obtain link where link: "LinkByName K (LinkName cfg) k = Inr link"
    and clean: "nlCleanup K (\<lparr>config = cfg, tunDevice = link, nlRoutes = []\<rparr>, k) = (None, (c, k'))"
    using assms(2) by (auto simp: NewNetlinkClient_def split: sum.splits prod.splits option.splits)
  note r = nlCleanup_run [OF assms(1) clean]
  show c: "config c = cfg" "nlRoutes c = []" using r(1) by simp_all
  have "mirrors fib (c, k')" using r(3) c by (simp add: mirrors_def)
  then show "nl_inv fib (c, k')"
    using c assms(3) by (simp add: nl_inv_def client_ok_def keys_apart_def)
qed

section \<open>A kernel in memory\<close>

text \<open>
  A list of routes as an instance of the kernel: a replace drops the routes of the same
  network, a delete fails when there is no route to delete.
\<close>

definition sameRoute :: "Route \<Rightarrow> Route \<Rightarrow> bool" where
  "sameRoute r s \<longleftrightarrow> routeKeyOf (rtTable r) (rtDst r) = routeKeyOf (rtTable s) (rtDst s)"

definition memLib :: "Route list netlinkLib" where
  "memLib = \<lparr>
     LinkByName = \<lambda>name k. if name = ''overlay-tun'' then Inr \<lparr>linkIndex = 5\<rparr> else Inl (Errorf ''Link not found''),
     RouteReplace = \<lambda>r k. (None, r # filter (\<lambda>s. \<not> sameRoute s r) k),
     RouteDel = \<lambda>r k.
       if list_ex (\<lambda>s. sameRoute s r \<and> rtProtocol s = rtProtocol r) k
       then (None, filter (\<lambda>s. \<not> (sameRoute s r \<and> rtProtocol s = rtProtocol r)) k)
       else (Some (Errorf ''no such process''), k),
     RouteListFiltered = \<lambda>t p k. Inr (filter (\<lambda>s. rtTable s = t \<and> rtProtocol s = p) k)\<rparr>"

definition memFib :: "Route list fib" where
  "memFib k key = map_option rtMultiPath
     (find (\<lambda>s. routeKeyOf (rtTable s) (rtDst s) = key \<and> rtProtocol s = METALBOND_RT_PROTO) k)"

lemma find_filter: "(\<And>x. P x \<Longrightarrow> Q x) \<Longrightarrow> find P (filter Q xs) = find P xs"
  by (induction xs) auto

lemma memFib_filter:
  "(\<And>s. routeKeyOf (rtTable s) (rtDst s) = key \<Longrightarrow> rtProtocol s = METALBOND_RT_PROTO \<Longrightarrow> Q s) \<Longrightarrow>
     memFib (filter Q k) key = memFib k key"
  unfolding memFib_def by (subst find_filter) simp_all

lemma memFib_None: "memFib k key = None \<longleftrightarrow>
    (\<forall>s \<in> set k. \<not> (routeKeyOf (rtTable s) (rtDst s) = key \<and> rtProtocol s = METALBOND_RT_PROTO))"
  by (auto simp: memFib_def find_None_iff)

lemma memLib_laws: "kernel_laws memLib memFib"
  unfolding kernel_laws_def
proof (intro conjI allI impI)
  fix r :: Route and k e k' assume p: "rtProtocol r = METALBOND_RT_PROTO"
  let ?key = "routeKeyOf (rtTable r) (rtDst r)"
  show "memFib k' = (if e = None then (memFib k)(?key \<mapsto> rtMultiPath r) else memFib k)"
    if "RouteReplace memLib r k = (e, k')"
  proof -
    have k': "k' = r # filter (\<lambda>s. \<not> sameRoute s r) k" "e = None" using that by (simp_all add: memLib_def)
    have "memFib k' key = (if key = ?key then Some (rtMultiPath r) else memFib k key)" for key
      using p memFib_filter [of key "\<lambda>s. \<not> sameRoute s r" k] by (simp add: k' memFib_def sameRoute_def)
    then show ?thesis using k'(2) by (simp add: fun_eq_iff)
  qed
  show "memFib k' = (if e = None then (memFib k)(?key := None) else memFib k)"
    if "RouteDel memLib r k = (e, k')"
  proof (cases "list_ex (\<lambda>s. sameRoute s r \<and> rtProtocol s = rtProtocol r) k")
    case True
    then have k': "k' = filter (\<lambda>s. \<not> (sameRoute s r \<and> rtProtocol s = rtProtocol r)) k" "e = None"
      using that by (simp_all add: memLib_def)
    have "memFib k' ?key = None" using p by (auto simp: k' memFib_None sameRoute_def)
    moreover have "memFib k' key = memFib k key" if "key \<noteq> ?key" for key
      unfolding k' by (rule memFib_filter) (use that in \<open>auto simp: sameRoute_def\<close>)
    ultimately show ?thesis using k'(2) by (auto simp: fun_eq_iff)
  next
    case False
    then show ?thesis using that by (auto simp: memLib_def)
  qed
next
  fix t :: int and k rs assume "RouteListFiltered memLib t METALBOND_RT_PROTO k = Inr rs"
  then have rs: "rs = filter (\<lambda>s. rtTable s = t \<and> rtProtocol s = METALBOND_RT_PROTO) k"
    by (simp add: memLib_def)
  then show "\<forall>r \<in> set rs. rtTable r = t \<and> rtProtocol r = METALBOND_RT_PROTO" by simp
  show "{key. fst key = t \<and> memFib k key \<noteq> None} = (\<lambda>r. routeKeyOf t (rtDst r)) ` set rs"
    unfolding memFib_None rs by (force simp: routeKeyOf_def)
qed

interpretation memNetlink: route_client "NetlinkOps memLib insertionSort" "nl_inv memFib" nlInstalled nlWants dest_ok
  by (rule netlink_route_client [OF memLib_laws goSort.go_sort_axioms])

section \<open>Through any sequence of calls\<close>

text \<open>
  The reference: the next hops of a set of routes, in the order of their addresses and at most
  three of them. It depends on the set only, not on the order of the calls.
\<close>

definition kernelHops :: "int \<Rightarrow> NextHop set \<Rightarrow> NexthopInfo list" where
  "kernelHops idx H = map (\<lambda>a. \<lparr>LinkIndex = idx, EncapDst = AsSlice a, EncapSrc = IPv6zero\<rparr>)
     (take 3 (sorted_list_of_multiset (image_mset TargetAddress (mset_set H))))"

lemma kernelHops_list:
  assumes "distinct hops" "sorted (map TargetAddress hops)"
  shows "kernelHops idx (set hops) = map (hopInfo idx) (take 3 hops)"
proof -
  have "image_mset TargetAddress (mset_set (set hops)) = mset (map TargetAddress hops)"
    using assms(1) by (simp add: mset_set_set)
  then have "sorted_list_of_multiset (image_mset TargetAddress (mset_set (set hops))) = map TargetAddress hops"
    by (simp only: sorted_list_of_multiset_mset sorted_sort_id [OF assms(2)])
  then show ?thesis by (simp add: kernelHops_def take_map hopInfo_def comp_def)
qed

definition hopsIn :: "routeSet \<Rightarrow> VNI \<Rightarrow> Destination \<Rightarrow> NextHop set" where
  "hopsIn S v d = {h. (v, d, h) \<in> S}"

lemma nl_inv_fib_eq:
  assumes inv: "nl_inv fib ck" and t: "gget (VNITableMap (config (fst ck))) v = Some t"
  shows "fib (snd ck) (t, n) = Some x \<longleftrightarrow>
     (\<exists>d. hopsIn (nlInstalled ck) v d \<noteq> {} \<and> routeKeyOf t (dstOf (destPrefix d)) = (t, n) \<and>
        x = kernelHops (linkIndex (tunDevice (fst ck))) (hopsIn (nlInstalled ck) v d))"
proof -
  let ?idx = "linkIndex (tunDevice (fst ck))"
  have "(hopsIn (nlInstalled ck) v d \<noteq> {} \<and> x = kernelHops ?idx (hopsIn (nlInstalled ck) v d)) \<longleftrightarrow>
      (\<exists>hops. gget (nlRoutes (fst ck)) (v, d) = Some hops \<and> x = map (hopInfo ?idx) (take 3 hops))" for d
  proof (cases "gget (nlRoutes (fst ck)) (v, d)")
    case None
    then show ?thesis by (simp add: hopsIn_def nlInstalled_def hopsOf_def)
  next
    case (Some hops)
    then have "entry_ok (config (fst ck)) (v, d) hops" using inv by (simp add: nl_inv_def client_ok_def)
    then show ?thesis
      using Some kernelHops_list [of hops ?idx] by (simp add: hopsIn_def nlInstalled_def hopsOf_def entry_ok_def)
  qed
  then show ?thesis using inv t unfolding nl_inv_def mirrors_def by blast
qed

lemma runCalls_config:
  "runCalls (NetlinkOps K srt) calls ck = (es, ck') \<Longrightarrow> config (fst ck') = config (fst ck)"
proof (induction calls arbitrary: ck es)
  case (Cons call calls)
  obtain e ck1 where 1: "runCall (NetlinkOps K srt) call ck = (e, ck1)"
    by (cases "runCall (NetlinkOps K srt) call ck")
  then have "config (fst ck1) = config (fst ck)"
    by (cases call) (auto simp: NetlinkOps_def dest!: nlAddRoute_config nlRemoveRoute_config)
  moreover obtain es1 where "runCalls (NetlinkOps K srt) calls ck1 = (es1, ck')"
    using Cons.prems 1 by (auto simp: Let_def split: prod.splits)
  ultimately show ?case using Cons.IH by metis
qed simp

text \<open>
  C16. From a fresh client on, and through any sequence of \<open>AddRoute\<close> and
  \<open>RemoveRoute\<close> calls that succeed or fail in any way, the kernel's table of a VNI has exactly the
  destinations with a next hop that was added and not removed since, each with the three lowest
  of its next hop addresses, whatever the order of the calls and whatever sort is used.
\<close>

theorem netlink_mirrors_calls:
  assumes "kernel_laws K fib" "go_sort srt"
    and "inj_on (gget (VNITableMap cfg)) (set (gkeys (VNITableMap cfg)))"
    and "NewNetlinkClient K cfg k0 = (Inr c0, k1)"
    and "list_all (\<lambda>x. dest_ok (callDest x)) calls"
    and "runCalls (NetlinkOps K srt) calls (c0, k1) = (results, (c, k))"
    and "gget (VNITableMap cfg) v = Some t"
    and "R = meanings (\<lambda>v d. \<not> (IPv4Only cfg \<and> destIPVersion d \<noteq> IPV4)) calls results {}"
  shows "fib k (t, n) = Some x \<longleftrightarrow>
     (\<exists>d. hopsIn R v d \<noteq> {} \<and> routeKeyOf t (dstOf (destPrefix d)) = (t, n) \<and>
        x = kernelHops (linkIndex (tunDevice c)) (hopsIn R v d))"
proof -
  note new = NewNetlinkClient_run [OF assms(1,4,3)]
  have wants: "nlWants (c0, k1) = (\<lambda>v d. \<not> (IPv4Only cfg \<and> destIPVersion d \<noteq> IPV4))"
    by (simp add: nlWants_def fun_eq_iff new(1))
  have "nlInstalled (c0, k1) = {}" by (simp add: nlInstalled_def hopsOf_def new(2))
  then have run: "nl_inv fib (c, k)" "nlInstalled (c, k) = R"
    using route_client.calls [OF netlink_route_client [OF assms(1,2)] new(3) assms(5,6)] assms(8) wants by simp_all
  have "config c = cfg" using runCalls_config [OF assms(6)] new(1) by simp
  then show ?thesis using nl_inv_fib_eq [OF run(1), of v t n x] assms(7) run(2) by simp
qed

definition exCfg :: NetlinkClientConfig where
  "exCfg = \<lparr>VNITableMap = [(7, 100)], LinkName = ''overlay-tun'', IPv4Only = True\<rparr>"

definition exNlClient :: NetlinkClient where
  "exNlClient = \<lparr>config = exCfg, tunDevice = \<lparr>linkIndex = 5\<rparr>, nlRoutes = []\<rparr>"

definition exStale :: "Route list" where
  "exStale = [\<lparr>rtTable = 100, rtProtocol = METALBOND_RT_PROTO, rtDst = dstOf (destPrefix exDest), rtMultiPath = []\<rparr>]"

lemma exNew: "NewNetlinkClient memLib exCfg exStale = (Inr exNlClient, [])"
  by code_simp

lemma exDest_ok: "dest_ok exDest"
  by code_simp

definition exHop2 :: NextHop where
  "exHop2 = exHop\<lparr>TargetAddress := Addr6 0xFD000000000000000000000000000002 []\<rparr>"

definition exCalls :: "clientCall list" where
  "exCalls = [CallAdd 7 exDest exHop2, CallAdd 7 exDest exHop, CallRemove 7 exDest exHop2]"

definition exKernel :: "Route list" where
  "exKernel = [\<lparr>rtTable = 100, rtProtocol = METALBOND_RT_PROTO, rtDst = dstOf (destPrefix exDest),
     rtMultiPath = [hopInfo 5 exHop]\<rparr>]"

lemma exCalls_run: "runCalls (NetlinkOps memLib insertionSort) exCalls (exNlClient, []) =
    ([None, None, None], (exNlClient\<lparr>nlRoutes := [((7, exDest), [exHop])]\<rparr>, exKernel))"
  by code_simp

theorem netlink_mirrors_calls_witness:
  "memFib exKernel (routeKeyOf 100 (dstOf (destPrefix exDest))) = Some (kernelHops 5 {exHop}) \<and>
     kernelHops 5 {exHop} = [hopInfo 5 exHop]"
proof -
  let ?R = "meanings (\<lambda>v d. \<not> (IPv4Only exCfg \<and> destIPVersion d \<noteq> IPV4)) exCalls [None, None, None] {}"
  let ?n = "snd (routeKeyOf 100 (dstOf (destPrefix exDest)))"
  have ne: "exHop2 \<noteq> exHop" by code_simp
  have "inj_on (gget (VNITableMap exCfg)) (set (gkeys (VNITableMap exCfg)))" by (simp add: exCfg_def)
  moreover have "list_all (\<lambda>x. dest_ok (callDest x)) exCalls" by (simp add: exCalls_def exDest_ok)
  moreover have t: "gget (VNITableMap exCfg) 7 = Some 100" by (simp add: exCfg_def)
  ultimately have *: "memFib exKernel (100, ?n) = Some (kernelHops 5 {exHop}) \<longleftrightarrow>
      (\<exists>d. hopsIn ?R 7 d \<noteq> {} \<and> routeKeyOf 100 (dstOf (destPrefix d)) = (100, ?n) \<and>
        kernelHops 5 {exHop} = kernelHops 5 (hopsIn ?R 7 d))"
    using netlink_mirrors_calls [OF memLib_laws goSort.go_sort_axioms _ exNew _ exCalls_run t refl, of ?n]
    by (simp add: exNlClient_def)
  have "hopsIn ?R 7 exDest = {exHop}"
    using ne by (auto simp: hopsIn_def exCalls_def exDest_def)
  moreover have key: "routeKeyOf 100 (dstOf (destPrefix exDest)) = (100, ?n)" by (simp add: routeKeyOf_def)
  ultimately have "memFib exKernel (100, ?n) = Some (kernelHops 5 {exHop})"
    unfolding * by (intro exI [of _ exDest]) simp
  then show ?thesis using kernelHops_list [of "[exHop]" 5] key by simp
qed

text \<open>
  A call that returns an error, for whatever reason, has changed neither the client's
  map nor the kernel's routes; and an addition or removal for a VNI without a table is such an
  error, unless the client is in IPv4-only mode and the destination is not IPv4.
\<close>

lemma netlink_failed_call:
  assumes "kernel_laws K fib"
  shows "(\<forall>call err ck'. runCall (NetlinkOps K srt) call ck = (Some err, ck') \<longrightarrow>
       fst ck' = fst ck \<and> fib (snd ck') = fib (snd ck)) \<and>
     (\<forall>v d h. gget (VNITableMap (config (fst ck))) v = None \<longrightarrow> nlWants ck v d \<longrightarrow>
       nlAddRoute K srt v d h ck = (Some (Errorf ''no route table ID known for given VNI''), ck) \<and>
       nlRemoveRoute K v d h ck = (Some (Errorf ''no route table ID known for given VNI''), ck))"
proof (intro conjI allI impI)
  fix call err ck' assume run: "runCall (NetlinkOps K srt) call ck = (Some err, ck')"
  obtain c k c' k' where ck: "ck = (c, k)" "ck' = (c', k')" by (cases ck; cases ck')
  have "fst ck' = fst ck \<and> fib (snd ck') = fib (snd ck)"
  proof (cases call)
    case (CallAdd v d h)
    then have "nlAddRoute K srt v d h ck = (Some err, ck')" using run by (simp add: NetlinkOps_def)
    then show ?thesis
      by (cases rule: nlAddRoute_cases) (auto simp: ck dest: replaceRoute_fib [OF assms])
  next
    case (CallRemove v d h)
    then have "nlRemoveRoute K v d h ck = (Some err, ck')" using run by (simp add: NetlinkOps_def)
    then show ?thesis
      by (cases rule: nlRemoveRoute_cases)
        (auto simp: ck dest: replaceRoute_fib [OF assms] removeRoute_fib [OF assms] split: if_splits)
  qed
  then show "fst ck' = fst ck" "fib (snd ck') = fib (snd ck)" by blast+
qed (auto simp: nlAddRoute_def nlRemoveRoute_def nlWants_def)

lemma netlink_failed_call_witness:
  "nlRemoveRoute memLib 8 exDest exHop (exNlClient, exKernel) =
     (Some (Errorf ''no route table ID known for given VNI''), (exNlClient, exKernel))"
proof -
  have "gget (VNITableMap (config (fst (exNlClient, exKernel)))) 8 = None" by code_simp
  moreover have "nlWants (exNlClient, exKernel) 8 exDest" by code_simp
  ultimately show ?thesis
    using netlink_failed_call [OF memLib_laws, of insertionSort "(exNlClient, exKernel)"] by blast
qed

text \<open>
  C23. Whatever the kernel does, every operation of the client keeps its map in order: each
  destination has at least one next hop, none twice, in the order of their addresses, belongs to
  a VNI with a table and, in IPv4-only mode, is an IPv4 destination. A new client starts with
  an empty map.
\<close>

theorem netlink_map_invariant:
  assumes "go_sort srt" "client_ok (fst ck)"
  shows "client_ok (fst (snd (nlAddRoute K srt v d h ck))) \<and> client_ok (fst (snd (nlRemoveRoute K v d h ck))) \<and>
     fst (snd (nlCleanup K ck)) = fst ck \<and>
     (case NewNetlinkClient K cfg k of (Inr c, _) \<Rightarrow> client_ok c \<and> nlRoutes c = [] \<and> config c = cfg | _ \<Rightarrow> True)"
proof (intro conjI)
  show "client_ok (fst (snd (nlAddRoute K srt v d h ck)))"
    by (rule nlAddRoute_ok [OF assms]) (rule prod.collapse [symmetric])
  show "client_ok (fst (snd (nlRemoveRoute K v d h ck)))"
    by (rule nlRemoveRoute_ok [OF assms(2)]) (rule prod.collapse [symmetric])
  show "fst (snd (nlCleanup K ck)) = fst ck" by (simp add: nlCleanup_def split: prod.split)
  show "case NewNetlinkClient K cfg k of (Inr c, _) \<Rightarrow> client_ok c \<and> nlRoutes c = [] \<and> config c = cfg | _ \<Rightarrow> True"
    by (auto simp: NewNetlinkClient_def client_ok_def nlCleanup_def split: sum.split prod.splits option.split)
qed

theorem netlink_map_invariant_witness:
  "client_ok exNlClient \<and> client_ok (fst (snd (nlAddRoute memLib insertionSort 7 exDest exHop (exNlClient, []))))"
proof -
  have "client_ok exNlClient" by (simp add: client_ok_def exNlClient_def)
  then show ?thesis
    using netlink_map_invariant [OF goSort.go_sort_axioms, of "(exNlClient, [])" memLib 7 exDest exHop] by simp
qed

text \<open>
  A clean-up only takes routes away, and only from the configured tables; when it
  returns no error, none of the package's routes is left in them.
\<close>

lemma netlink_cleanup:
  assumes "kernel_laws K fib" "nlCleanup K ck = (e, ck')"
  shows "fib (snd ck') \<subseteq>\<^sub>m fib (snd ck) \<and>
     (\<forall>t n. t \<notin> snd ` set (VNITableMap (config (fst ck))) \<longrightarrow> fib (snd ck') (t, n) = fib (snd ck) (t, n)) \<and>
     (e = None \<longrightarrow> (\<forall>v t n. gget (VNITableMap (config (fst ck))) v = Some t \<longrightarrow> fib (snd ck') (t, n) = None))"
  using nlCleanup_run [OF assms] by blast

lemma netlink_cleanup_witness:
  "memFib exKernel (routeKeyOf 100 (dstOf (destPrefix exDest))) \<noteq> None \<and>
     nlCleanup memLib (exNlClient, exKernel) = (None, (exNlClient, [])) \<and> memFib [] \<subseteq>\<^sub>m memFib exKernel"
proof -
  have "nlCleanup memLib (exNlClient, exKernel) = (None, (exNlClient, []))" by code_simp
  moreover have "memFib exKernel (routeKeyOf 100 (dstOf (destPrefix exDest))) \<noteq> None"
    by (simp add: exKernel_def memFib_def)
  ultimately show ?thesis using netlink_cleanup [OF memLib_laws] by fastforce
qed

end
