(* ===== verification/NodeKernel.thy ===== *)
theory NodeKernel
  imports Subscription KernelRoutes
begin

text \<open>
  A node whose client is the netlink client: what an update that arrives from a peer does to
  the kernel's route tables, through \<open>processRxUpdate\<close>, \<open>addReceivedRoute\<close> or
  \<open>removeReceivedRoute\<close>, and the client (\<open>src/peer.go\<close>, \<open>src/metalbond.go\<close>, \<open>src/netlink.go\<close>).
\<close>

section \<open>A received route\<close>

lemma live_updPeer:
  assumes "live w" "txChan (heap w p) \<noteq> None"
    and "\<And>x. receivedRoutes (f x) = receivedRoutes x" "\<And>x. txChan (f x) = txChan x"
    and "\<And>x. rxSubscribe (f x) = rxSubscribe x" "\<And>x. subscribedVNIs (f x) = subscribedVNIs x"
    and "rxUpdate (heap w p) \<noteq> None"
  shows "live (updPeer p f w)"
proof -
  have "ok_at {} (updPeer p f w)"
    using assms by (intro ok_at_updPeer) (auto simp: live_def)
  with assms(1) show ?thesis by (simp add: live_def)
qed

text \<open>A route of a peer that is neither blocked nor known yet goes into both tables.\<close>

lemma processRxUpdate_add:
  assumes "live w" "txChan (heap w p) \<noteq> None"
    and "\<not> rt_has (receivedRoutes (heap w p)) v d h (Some p)"
    and "nhType h \<noteq> NextHopType_STANDARD \<or> GetNextHopsByDestination (myAnnouncements w) v d = []"
  shows "\<exists>w'. processRxUpdate E p \<lparr>updAction = ADD, updVNI = v, updDestination = d, updNextHop = h\<rparr> w =
       (Returns (), w') \<and> rt_has (receivedRoutes (heap w' p)) v d h (Some p) \<and>
     rt_rel (mbRouteTable w') = insert (v, d, h, Some p) (rt_rel (mbRouteTable w)) \<and>
     client w' = snd (AddRoute (ops E) v d h (client w))"
proof -
  let ?w = "updPeer p (receivedRoutes_update (\<lambda>t. snd (AddNextHop v d h (Some p) t))) w"
  have "ok_at {} ?w" using assms(1,2) by (intro ok_at_add_received) (auto simp: live_def)
  then have "live ?w" using assms(1) by (simp add: live_def)
  moreover have own: "rt_has (receivedRoutes (heap ?w p)) v d h (Some p)"
    by (simp add: rt_has_AddNextHop)
  moreover have "\<not> rt_has (mbRouteTable ?w) v d h (Some p)"
    using assms(1,3) by (auto simp: live_def node_ok_def table_ok_def)
  ultimately have run: "addReceivedRoute E p v d h ?w = (Returns None,
      withClient (\<lambda>c. snd (AddRoute (ops E) v d h c))
        (sendAll E (updateMsg ADD v d h) (recipients ?w v p)
          (withTable (\<lambda>t. snd (AddNextHop v d h (Some p) t)) ?w)))" (is "_ = (_, ?w')")
    using addReceivedRoute_run [of ?w p v d h E] assms(4) by (auto simp: ownsDestination_def)
  have "fst (AddNextHop v d h (Some p) (receivedRoutes (heap w p))) = None"
    using assms(3) by (simp add: AddNextHop_None)
  with run have "processRxUpdate E p \<lparr>updAction = ADD, updVNI = v, updDestination = d, updNextHop = h\<rparr> w = (Returns (), ?w')"
    by (simp add: processRxUpdate_def Let_def onReceived_def)
  moreover have "receivedRoutes (heap ?w' p) = receivedRoutes (heap ?w p)"
    by (simp add: withClient_def) (simp add: withTable_def)
  ultimately show ?thesis using own by (simp add: rt_rel_AddNextHop)
qed

text \<open>The kernel's route to a destination follows from the installed next hops.\<close>

lemma nl_inv_kernel:
  assumes "nl_inv fib ck" "gget (VNITableMap (config (fst ck))) v = Some t" "dest_ok d"
  shows "fib (snd ck) (routeKeyOf t (dstOf (destPrefix d))) =
     (if hopsIn (nlInstalled ck) v d = {} then None
      else Some (kernelHops (linkIndex (tunDevice (fst ck))) (hopsIn (nlInstalled ck) v d)))"
proof -
  let ?n = "snd (routeKeyOf t (dstOf (destPrefix d)))"
  let ?hops = "hopsIn (nlInstalled ck) v"
  have key: "routeKeyOf t (dstOf (destPrefix d)) = (t, ?n)" by (simp add: routeKeyOf_def)
  have only: "d' = d" if "?hops d' \<noteq> {}" "routeKeyOf t (dstOf (destPrefix d')) = (t, ?n)" for d'
  proof -
    have "gget (nlRoutes (fst ck)) (v, d') \<noteq> None"
      using that(1) by (intro notI) (simp add: hopsIn_def nlInstalled_def hopsOf_def)
    then have "dest_ok d'" using assms(1) by (auto simp: nl_inv_def keys_apart_def)
    then show ?thesis using routeKeyOf_inj [of d' d t t] assms(3) that(2) key by simp
  qed
  have "fib (snd ck) (t, ?n) = Some x \<longleftrightarrow>
      ?hops d \<noteq> {} \<and> x = kernelHops (linkIndex (tunDevice (fst ck))) (?hops d)" for x
    unfolding nl_inv_fib_eq [OF assms(1,2)] using only key by blast
  then have "fib (snd ck) (t, ?n) =
      (if ?hops d = {} then None else Some (kernelHops (linkIndex (tunDevice (fst ck))) (?hops d)))"
    by (cases "fib (snd ck) (t, ?n)") auto
  with key show ?thesis by simp
qed

text \<open>
  C17. In a node with the netlink client, an ADD update that a peer sends for a route that is
  neither blocked nor known puts the route into the node's table and, unless the kernel refuses
  it, into the kernel: its route to the destination has the three lowest addresses among the
  next hops installed before and the new one.
\<close>

theorem update_installs_route:
  assumes "kernel_laws K fib" "go_sort srt" "ops E = NetlinkOps K srt"
    and "node_ok w" "\<not> mtxSubscribers w" "txChan (heap w p) \<noteq> None"
    and "(v, d, h, Some p) \<notin> rt_rel (receivedRoutes (heap w p))"
    and "nhType h \<noteq> NextHopType_STANDARD \<or> GetNextHopsByDestination (myAnnouncements w) v d = []"
    and "nl_inv fib (client w)" "nlWants (client w) v d" "dest_ok d"
    and "gget (VNITableMap (config (fst (client w)))) v = Some t"
    and "fst (nlAddRoute K srt v d h (client w)) = None"
  shows "\<exists>w'. processRxUpdate E p \<lparr>updAction = ADD, updVNI = v, updDestination = d, updNextHop = h\<rparr> w = (Returns (), w') \<and>
     rt_rel (mbRouteTable w') = insert (v, d, h, Some p) (rt_rel (mbRouteTable w)) \<and>
     nl_inv fib (client w') \<and> nlInstalled (client w') = insert (v, d, h) (nlInstalled (client w)) \<and>
     fib (snd (client w')) (routeKeyOf t (dstOf (destPrefix d))) =
       Some (kernelHops (linkIndex (tunDevice (fst (client w)))) (insert h (hopsIn (nlInstalled (client w)) v d)))"
proof -
  have "live w" using assms(4,5) by (simp add: live_def)
  moreover have "\<not> rt_has (receivedRoutes (heap w p)) v d h (Some p)" using assms(7) by simp
  ultimately obtain w' where w': "processRxUpdate E p \<lparr>updAction = ADD, updVNI = v, updDestination = d, updNextHop = h\<rparr> w = (Returns (), w')"
      "rt_rel (mbRouteTable w') = insert (v, d, h, Some p) (rt_rel (mbRouteTable w))"
      "client w' = snd (AddRoute (ops E) v d h (client w))"
    using processRxUpdate_add [OF _ assms(6) _ assms(8)] by blast
  have run: "nlAddRoute K srt v d h (client w) = (None, client w')"
    using w'(3) assms(3,13) by (simp add: NetlinkOps_def prod_eq_iff)
  have inv: "nl_inv fib (client w')" by (rule nlAddRoute_inv [OF assms(1,2,9,11) run])
  have ins: "nlInstalled (client w') = insert (v, d, h) (nlInstalled (client w))"
    using nlAddRoute_installed [OF assms(2) run] assms(10) by simp
  then have "hopsIn (nlInstalled (client w')) v d = insert h (hopsIn (nlInstalled (client w)) v d)"
    by (auto simp: hopsIn_def)
  with nl_inv_kernel [OF inv _ assms(11), of v t] nlAddRoute_config [OF run] assms(12) w'(1,2) inv ins
  show ?thesis by auto
qed

definition exNlEnv :: "Route list nl env" where
  "exNlEnv = \<lparr>cdc = protoCodec, ops = NetlinkOps memLib insertionSort\<rparr>"

lemma exNlClient_inv: "nl_inv memFib (exNlClient, [])"
  using NewNetlinkClient_run(3) [OF memLib_laws exNew] by (simp add: exCfg_def)

lemma exNl [simp]: "nlWants (exNlClient, k) 7 exDest" "gget (VNITableMap (config exNlClient)) 7 = Some 100"
    "linkIndex (tunDevice exNlClient) = 5" "nlInstalled (exNlClient, k) = {}"
  by (simp_all add: nlWants_def exNlClient_def exCfg_def exDest_def nlInstalled_def hopsOf_def)

theorem update_installs_route_witness:
  "\<exists>w'. processRxUpdate exNlEnv 0 \<lparr>updAction = ADD, updVNI = 7, updDestination = exDest, updNextHop = exHop\<rparr>
       (exWorldOf (exNlClient, [])) = (Returns (), w') \<and>
     memFib (snd (client w')) (routeKeyOf 100 (dstOf (destPrefix exDest))) = Some [hopInfo 5 exHop]"
proof -
  have "receivedRoutes (exHeap 0) = newRouteTable" by (simp add: exHeap_def exPeer_def noPeer_def)
  moreover have "GetNextHopsByDestination newRouteTable 7 exDest = []"
    by (simp add: GetNextHopsByDestination_def newRouteTable_def)
  moreover have "fst (nlAddRoute memLib insertionSort 7 exDest exHop (exNlClient, [])) = None" by code_simp
  moreover have "kernelHops 5 {exHop} = [hopInfo 5 exHop]" using kernelHops_list [of "[exHop]" 5] by simp
  moreover have "ops exNlEnv = NetlinkOps memLib insertionSort" by (simp add: exNlEnv_def)
  ultimately show ?thesis
    using update_installs_route [OF memLib_laws goSort.go_sort_axioms, of exNlEnv "exWorldOf (exNlClient, [])" 0 7 exDest exHop 100]
      exWorldOf_ok [of "(exNlClient, [])"] exNlClient_inv exDest_ok
    by (auto simp: exHeap_tx hopsIn_def rt_rel_def)
qed

section \<open>A withdrawn route\<close>

text \<open>
  C39. When a peer withdraws a route that another peer still provides, the node's table keeps
  the route of the other peer, but the netlink client is told to remove it: it is no longer
  installed, and when it was the only next hop the kernel has no route to the destination.
\<close>

theorem withdrawn_route_lost_in_kernel:
  assumes "kernel_laws K fib" "ops E = NetlinkOps K srt" "node_ok w" "\<not> mtxSubscribers w"
    and "(v, d, h, Some p) \<in> rt_rel (mbRouteTable w)" "(v, d, h, Some q) \<in> rt_rel (mbRouteTable w)" "q \<noteq> p"
    and "nl_inv fib (client w)" "nlWants (client w) v d" "dest_ok d"
    and "gget (VNITableMap (config (fst (client w)))) v = Some t"
    and "fst (nlRemoveRoute K v d h (client w)) = None"
  shows "\<exists>w'. removeReceivedRoute E p v d h w = (Returns None, w') \<and>
     (v, d, h, Some q) \<in> rt_rel (mbRouteTable w') \<and> (v, d, h) \<notin> nlInstalled (client w') \<and>
     (hopsIn (nlInstalled (client w)) v d = {h} \<longrightarrow>
        fib (snd (client w')) (routeKeyOf t (dstOf (destPrefix d))) = None)"
proof -
  have "live w" "rt_has (mbRouteTable w) v d h (Some p)" using assms(3-5) by (auto simp: live_def)
  then obtain w' where w': "removeReceivedRoute E p v d h w = (Returns None, w')"
      "rt_rel (mbRouteTable w') = rt_rel (mbRouteTable w) - {(v, d, h, Some p)}"
      "client w' = snd (RemoveRoute (ops E) v d h (client w))"
    using removeReceivedRoute_run [of w E p v d h] RemoveNextHop_present [of "mbRouteTable w" v d h "Some p"]
    by (auto simp: rt_rel_RemoveNextHop split: if_splits)
  have run: "nlRemoveRoute K v d h (client w) = (None, client w')"
    using w'(3) assms(2,12) by (simp add: NetlinkOps_def prod_eq_iff)
  have inv: "nl_inv fib (client w')" by (rule nlRemoveRoute_inv [OF assms(1,8,10) run])
  have ins: "nlInstalled (client w') = nlInstalled (client w) - {(v, d, h)}"
    using nlRemoveRoute_installed [OF run] assms(9) by simp
  have "(v, d, h, Some q) \<in> rt_rel (mbRouteTable w')" unfolding w'(2) using assms(6,7) by simp
  moreover have "hopsIn (nlInstalled (client w')) v d = hopsIn (nlInstalled (client w)) v d - {h}"
    by (auto simp: hopsIn_def ins)
  ultimately show ?thesis
    using nl_inv_kernel [OF inv _ assms(10), of v t] nlRemoveRoute_config [OF run] assms(11) w'(1) ins by auto
qed

text \<open>The example node after peers 0 and 1 have both sent the example route.\<close>

definition provided :: "nat \<Rightarrow> 'c world \<Rightarrow> 'c world" where
  "provided p w = withTable (\<lambda>t. snd (AddNextHop 7 exDest exHop (Some p) t))
     (updPeer p (receivedRoutes_update (\<lambda>t. snd (AddNextHop 7 exDest exHop (Some p) t))) w)"

lemma provided_ok: "node_ok w \<Longrightarrow> txChan (heap w p) \<noteq> None \<Longrightarrow> node_ok (provided p w)"
proof -
  assume w: "node_ok w" "txChan (heap w p) \<noteq> None"
  let ?w = "updPeer p (receivedRoutes_update (\<lambda>t. snd (AddNextHop 7 exDest exHop (Some p) t))) w"
  have "ok_at {} ?w" by (rule ok_at_add_received) (use w in simp_all)
  then have "ok_at {} (provided p w)"
    unfolding provided_def withTable_def by (rule ok_at_add_table) (simp add: rt_has_AddNextHop)
  then show ?thesis by simp
qed

lemma provided_fields [simp]:
  "rt_rel (mbRouteTable (provided p w)) = insert (7, exDest, exHop, Some p) (rt_rel (mbRouteTable w))"
  "mtxSubscribers (provided p w) = mtxSubscribers w" "client (provided p w) = client w"
  "txChan (heap (provided p w) q) = txChan (heap w q)"
  by (simp_all add: provided_def rt_rel_AddNextHop) (simp add: withTable_def)

theorem withdrawn_route_lost_in_kernel_witness:
  "\<exists>w w'. rt_rel (mbRouteTable w) = {(7, exDest, exHop, Some 0), (7, exDest, exHop, Some 1)} \<and>
     memFib (snd (client w)) (routeKeyOf 100 (dstOf (destPrefix exDest))) = Some [hopInfo 5 exHop] \<and>
     removeReceivedRoute exNlEnv 0 7 exDest exHop w = (Returns None, w') \<and>
     (7, exDest, exHop, Some 1) \<in> rt_rel (mbRouteTable w') \<and>
     memFib (snd (client w')) (routeKeyOf 100 (dstOf (destPrefix exDest))) = None"
proof -
  let ?ck = "(exNlClient\<lparr>nlRoutes := [((7, exDest), [exHop])]\<rparr>, exKernel)"
  let ?w = "provided 1 (provided 0 (exWorldOf ?ck))"
  have new: "rt_rel newRouteTable = {}" by (simp add: rt_rel_def)
  have ok: "node_ok ?w" by (intro provided_ok exWorldOf_ok) (simp_all add: exHeap_tx)
  have inv: "nl_inv memFib ?ck"
    using memNetlink.calls [OF exNlClient_inv _ exCalls_run] by (simp add: exCalls_def exDest_ok)
  have "fst (nlRemoveRoute memLib 7 exDest exHop ?ck) = None" by code_simp
  moreover have "nlWants ?ck 7 exDest" "gget (VNITableMap (config (fst ?ck))) 7 = Some 100"
    "hopsIn (nlInstalled ?ck) 7 exDest = {exHop}"
    by (simp_all add: nlWants_def exNlClient_def exCfg_def exDest_def hopsIn_def nlInstalled_def hopsOf_def)
  moreover have kernel: "memFib exKernel (routeKeyOf 100 (dstOf (destPrefix exDest))) = Some [hopInfo 5 exHop]"
    by (simp add: memFib_def exKernel_def)
  moreover have table: "rt_rel (mbRouteTable ?w) = {(7, exDest, exHop, Some 0), (7, exDest, exHop, Some 1)}"
    unfolding provided_fields using new by auto
  ultimately obtain w' where "removeReceivedRoute exNlEnv 0 7 exDest exHop ?w = (Returns None, w')"
      "(7, exDest, exHop, Some 1) \<in> rt_rel (mbRouteTable w')"
      "memFib (snd (client w')) (routeKeyOf 100 (dstOf (destPrefix exDest))) = None"
    using withdrawn_route_lost_in_kernel [OF memLib_laws, of exNlEnv insertionSort ?w 7 exDest exHop 0 1 100] ok inv exDest_ok
    by (auto simp: exNlEnv_def)
  with table kernel show ?thesis by (intro exI [of _ ?w] exI [of _ w']) simp
qed

end
