(* ===== verification/Convergence.thy ===== *)
theory Convergence
  imports NodeKernel
begin

text \<open>
  Two nodes and the connection between them: \<open>sender\<close> announces and withdraws routes, its peer
  \<open>p\<close> stands for the receiver; the \<open>receiver\<close> has the sender as its peer \<open>q\<close>. Packets go from the
  sender's channel over its \<open>txLoop\<close> to the wire, from there in reads of one or more of them to the
  receiver's \<open>rxLoop\<close>, and from its channel to \<open>processRxUpdate\<close>, all in any order. The theory shows
  that the receiver's view of the sender's routes converges.
\<close>

section \<open>Views\<close>

definition route3 :: "msgUpdate \<Rightarrow> VNI \<times> Destination \<times> NextHop" where
  "route3 u = (updVNI u, updDestination u, updNextHop u)"

text \<open>The reference meaning of an update, on the set of routes of its sender.\<close>

definition applyUpdate :: "msgUpdate \<Rightarrow> routeSet \<Rightarrow> routeSet" where
  "applyUpdate u S = (if updAction u = ADD then insert (route3 u) S
     else if updAction u = REMOVE then S - {route3 u} else S)"

definition view :: "nat \<Rightarrow> 'c world \<Rightarrow> routeSet" where
  "view q w = {(v, d, h). rt_has (receivedRoutes (heap w q)) v d h (Some q)}"

definition announcedSet :: "'c world \<Rightarrow> routeSet" where
  "announcedSet w = {(v, d, h). rt_has (myAnnouncements w) v d h None}"

definition tableView :: "nat \<Rightarrow> 'c world \<Rightarrow> routeSet" where
  "tableView q w = {(v, d, h). rt_has (mbRouteTable w) v d h (Some q)}"

text \<open>What the loop prevention keeps out of the table.\<close>

definition blocked :: "'c world \<Rightarrow> routeSet" where
  "blocked w = {(v, d, h). nhType h = NextHopType_STANDARD \<and> ownsDestination w v d}"

section \<open>One update at the receiver\<close>

lemma live_withClient: "live w \<Longrightarrow> live (withClient g w)"
  by (simp add: live_def withClient_def ok_defs)

lemma live_add_table:
  "live w \<Longrightarrow> rt_has (receivedRoutes (heap w p)) v d h (Some p) \<Longrightarrow>
     live (withTable (\<lambda>t. snd (AddNextHop v d h (Some p) t)) w)"
  using ok_at_add_table [of "{}" w p v d h] by (simp add: live_def withTable_def)

text \<open>What sending and the change of the tables leave of a peer.\<close>

lemma chansMade_enqueue: "chansMade (heap w q) \<Longrightarrow> chansMade (heap (enqueue p pkt w) q)"
  by (auto simp: enqueue_def chansMade_def)

lemma enqueueAll_peer:
  "rxUpdate (heap (enqueueAll ps pkt w) q) = rxUpdate (heap w q)"
  "chansMade (heap w q) \<Longrightarrow> chansMade (heap (enqueueAll ps pkt w) q)"
  by (induction ps arbitrary: w) (simp_all add: chansMade_enqueue, simp add: enqueue_def)

lemma sendAll_peer [simp]:
  "rxUpdate (heap (sendAll E msg ps w) q) = rxUpdate (heap w q)"
  "chansMade (heap w q) \<Longrightarrow> chansMade (heap (sendAll E msg ps w) q)"
  by (simp_all add: sendAll_def enqueueAll_peer split: sum.split)

lemma with_more [simp]:
  "heap (withTable f w) = heap w" "heap (withClient g w) = heap w"
  "myAnnouncements (withTable f w) = myAnnouncements w" "myAnnouncements (withClient g w) = myAnnouncements w"
  by (simp_all add: withTable_def withClient_def)

lemma view_cong: "receivedRoutes (heap w' q) = receivedRoutes (heap w q) \<Longrightarrow> view q w' = view q w"
  by (simp add: view_def)

lemma tableView_cong: "mbRouteTable w' = mbRouteTable w \<Longrightarrow> tableView q w' = tableView q w"
  by (simp add: tableView_def)

lemma blocked_cong: "myAnnouncements w' = myAnnouncements w \<Longrightarrow> blocked w' = blocked w"
  by (simp add: blocked_def ownsDestination_def)

text \<open>
  Of peer \<open>q\<close>'s routes the table has exactly those that are not blocked, and the peer can
  take updates.
\<close>

definition receiving :: "nat \<Rightarrow> 'c world \<Rightarrow> bool" where
  "receiving q w \<longleftrightarrow> live w \<and> chansMade (heap w q) \<and> tableView q w = view q w - blocked w"

text \<open>What an update may change besides the tables of routes.\<close>

definition samePeer :: "nat \<Rightarrow> 'c world \<Rightarrow> 'c world \<Rightarrow> bool" where
  "samePeer q w w' \<longleftrightarrow> rxUpdate (heap w' q) = rxUpdate (heap w q) \<and> state (heap w' q) = state (heap w q)"

lemma processRxUpdate_add_view:
  assumes "receiving q w" "updAction u = ADD"
  shows "\<exists>w'. processRxUpdate E q u w = (Returns (), w') \<and> receiving q w' \<and> samePeer q w w' \<and>
     view q w' = insert (route3 u) (view q w) \<and> blocked w' = blocked w"
proof -
  define v d h where "v = updVNI u" and "d = updDestination u" and "h = updNextHop u"
  have w: "live w" "chansMade (heap w q)" "tableView q w = view q w - blocked w"
    using assms(1) by (simp_all add: receiving_def)
  note u = v_def [symmetric] d_def [symmetric] h_def [symmetric]
  have r3: "route3 u = (v, d, h)" by (simp add: route3_def u)
  show ?thesis
  proof (cases "rt_has (receivedRoutes (heap w q)) v d h (Some q)")
    case True
    then have "fst (AddNextHop v d h (Some q) (receivedRoutes (heap w q))) \<noteq> None"
      "snd (AddNextHop v d h (Some q) (receivedRoutes (heap w q))) = receivedRoutes (heap w q)"
      by (simp_all add: AddNextHop_eq makePath_present)
    then have "processRxUpdate E q u w = (Returns (), updPeer q (receivedRoutes_update (\<lambda>t. snd (AddNextHop v d h (Some q) t))) w)"
      using assms(2) by (auto simp: processRxUpdate_def Let_def onReceived_def u)
    moreover have "updPeer q (receivedRoutes_update (\<lambda>t. snd (AddNextHop v d h (Some q) t))) w = w"
      using \<open>snd _ = _\<close> by (cases w) (simp add: updPeer_def fun_upd_idem)
    ultimately show ?thesis
      using assms(1) True by (intro exI [of _ w]) (auto simp: samePeer_def view_def r3)
  next
    case False
    let ?w = "updPeer q (receivedRoutes_update (\<lambda>t. snd (AddNextHop v d h (Some q) t))) w"
    have "ok_at {} ?w" using w(1,2) by (intro ok_at_add_received) (auto simp: live_def chansMade_def)
    then have live: "live ?w" using w(1) by (simp add: live_def)
    have own: "rt_has (receivedRoutes (heap ?w q)) v d h (Some q)" by (simp add: rt_has_AddNextHop)
    have view: "view q ?w = insert (v, d, h) (view q w)" by (auto simp: view_def rt_has_AddNextHop)
    have "fst (AddNextHop v d h (Some q) (receivedRoutes (heap w q))) = None"
      using False by (simp add: AddNextHop_None)
    then have step: "processRxUpdate E q u w = (Returns (), w')" if "addReceivedRoute E q v d h ?w = (Returns None, w')" for w'
      using assms(2) that by (simp add: processRxUpdate_def Let_def onReceived_def u)
    have made: "chansMade (heap ?w q)" using w(2) by (simp add: chansMade_def)
    have bl: "blocked ?w = blocked w" "tableView q ?w = tableView q w"
      by (simp_all add: blocked_def ownsDestination_def tableView_def)
    note run = addReceivedRoute_run [OF live own, of E]
    show ?thesis
    proof (cases "(v, d, h) \<in> blocked w")
      case True
      then have "addReceivedRoute E q v d h ?w = (Returns None, ?w)"
        using run by (simp add: blocked_def ownsDestination_def)
      moreover have "receiving q ?w"
        using live made True w(3) by (auto simp: receiving_def view bl)
      ultimately show ?thesis
        using step view bl by (intro exI [of _ ?w]) (simp add: samePeer_def r3)
    next
      case False2: False
      let ?w1 = "withTable (\<lambda>t. snd (AddNextHop v d h (Some q) t)) ?w"
      let ?w' = "withClient (\<lambda>c. snd (AddRoute (ops E) v d h c)) (sendAll E (updateMsg ADD v d h) (recipients ?w v q) ?w1)"
      have "(v, d, h) \<notin> tableView q w" using False unfolding w(3) by (simp add: view_def)
      then have "\<not> rt_has (mbRouteTable ?w) v d h (Some q)" by (simp add: tableView_def)
      then have "addReceivedRoute E q v d h ?w = (Returns None, ?w')"
        using run False2 by (auto simp: blocked_def ownsDestination_def)
      moreover have "live ?w'"
        using live_sendAll [OF live_add_table [OF live own], of E ADD v d h v q] by (simp add: live_withClient)
      moreover have "tableView q ?w' = insert (v, d, h) (tableView q w)"
        by (auto simp: tableView_def rt_has_AddNextHop)
      moreover have "view q ?w' = view q ?w" "blocked ?w' = blocked w"
        using bl by (simp_all add: view_def blocked_def ownsDestination_def)
      moreover have "chansMade (heap ?w' q)" using made by simp
      ultimately show ?thesis
        using step False2 w(3) by (intro exI [of _ ?w']) (auto simp: receiving_def samePeer_def view r3)
    qed
  qed
qed

lemma processRxUpdate_remove_view:
  assumes "receiving q w" "updAction u = REMOVE"
  shows "\<exists>w'. processRxUpdate E q u w = (Returns (), w') \<and> receiving q w' \<and> samePeer q w w' \<and>
     view q w' = view q w - {route3 u} \<and> blocked w' = blocked w"
proof -
  define v d h where "v = updVNI u" and "d = updDestination u" and "h = updNextHop u"
  have w: "live w" "chansMade (heap w q)" "tableView q w = view q w - blocked w"
    using assms(1) by (simp_all add: receiving_def)
  note u = v_def [symmetric] d_def [symmetric] h_def [symmetric]
  have r3: "route3 u = (v, d, h)" by (simp add: route3_def u)
  let ?w = "updPeer q (receivedRoutes_update (\<lambda>t. snd (RemoveNextHop v d h (Some q) t))) w"
  show ?thesis
  proof (cases "rt_has (receivedRoutes (heap w q)) v d h (Some q)")
    case False
    then obtain e where e: "RemoveNextHop v d h (Some q) (receivedRoutes (heap w q)) = (Inl e, receivedRoutes (heap w q))"
      using RemoveNextHop_absent by blast
    then have "?w = w" by (cases w) (simp add: updPeer_def fun_upd_idem)
    then have "processRxUpdate E q u w = (Returns (), w)"
      using assms(2) e by (simp add: processRxUpdate_def Let_def onReceived_def u)
    then show ?thesis
      using assms(1) False by (intro exI [of _ w]) (auto simp: samePeer_def view_def r3)
  next
    case True
    then obtain n where "fst (RemoveNextHop v d h (Some q) (receivedRoutes (heap w q))) = Inr n"
      by (auto simp: RemoveNextHop_present)
    then have step: "processRxUpdate E q u w = (Returns (), w')" if "removeReceivedRoute E q v d h ?w = (Returns r, w')" for w' r
      using assms(2) that by (simp add: processRxUpdate_def Let_def onReceived_def u)
    have made: "chansMade (heap ?w q)" using w(2) by (simp add: chansMade_def)
    have view: "view q ?w = view q w - {(v, d, h)}" by (auto simp: view_def rt_has_RemoveNextHop)
    have bl: "blocked ?w = blocked w" "tableView q ?w = tableView q w"
      by (simp_all add: blocked_def ownsDestination_def tableView_def)
    let ?w1 = "withTable (\<lambda>t. snd (RemoveNextHop v d h (Some q) t)) ?w"
    have live: "live ?w1"
      using ok_at_remove_both [of "{}" w v d h q] w(1) by (simp add: live_def withTable_def)
    note run = removeReceivedRoute_after [OF live, of E]
    have t1: "tableView q ?w1 = tableView q w - {(v, d, h)}"
      by (auto simp: tableView_def rt_has_RemoveNextHop)
    show ?thesis
    proof (cases "fst (RemoveNextHop v d h (Some q) (mbRouteTable ?w))")
      case (Inl e)
      then have "snd (RemoveNextHop v d h (Some q) (mbRouteTable ?w)) = mbRouteTable ?w"
        using RemoveNextHop_absent [of "mbRouteTable ?w" v d h "Some q"]
          RemoveNextHop_present [of "mbRouteTable ?w" v d h "Some q"] by fastforce
      then have same: "?w1 = ?w" by (rule withTable_same)
      have "receiving q ?w" using live made t1 w(3) unfolding same by (auto simp: receiving_def view bl)
      then show ?thesis
        using step run Inl view bl by (intro exI [of _ ?w]) (simp add: samePeer_def r3)
    next
      case (Inr n)
      let ?w2 = "(if n = 0 then sendAll E (updateMsg REMOVE v d h) (recipients ?w v q) else id) ?w1"
      let ?w' = "withClient (\<lambda>c. snd (RemoveRoute (ops E) v d h c)) ?w2"
      have "live ?w'"
        using live_sendAll [OF live, of E REMOVE v d h v q] live by (simp add: live_withClient)
      moreover have "tableView q ?w' = tableView q ?w1" by (simp add: tableView_def)
      moreover have "view q ?w' = view q ?w" "blocked ?w' = blocked w"
        using bl by (simp_all add: view_def blocked_def ownsDestination_def)
      moreover have "chansMade (heap ?w' q)" using made by simp
      ultimately have "receiving q ?w'" using t1 w(3) by (auto simp: receiving_def view)
      then show ?thesis
        using step run Inr view bl by (intro exI [of _ ?w']) (auto simp: samePeer_def r3 view_def blocked_def ownsDestination_def)
    qed
  qed
qed

text \<open>An update changes the receiver's view of the sender as it says, and nothing else stops it.\<close>

lemma processRxUpdate_view:
  assumes "receiving q w"
  shows "\<exists>w'. processRxUpdate E q u w = (Returns (), w') \<and> receiving q w' \<and> samePeer q w w' \<and>
     view q w' = applyUpdate u (view q w) \<and> blocked w' = blocked w"
proof -
  consider "updAction u = ADD" | "updAction u = REMOVE" "updAction u \<noteq> ADD" | "updAction u \<noteq> ADD" "updAction u \<noteq> REMOVE"
    by blast
  then show ?thesis
  proof cases
    case 1
    then show ?thesis using processRxUpdate_add_view [OF assms 1] by (simp add: applyUpdate_def)
  next
    case 2
    then show ?thesis using processRxUpdate_remove_view [OF assms 2(1)] by (simp add: applyUpdate_def)
  next
    case 3
    then show ?thesis using assms by (simp add: applyUpdate_def processRxUpdate_def Let_def samePeer_def)
  qed
qed

section \<open>The sender\<close>

datatype ownCall = Announce VNI Destination NextHop | Withdraw VNI Destination NextHop

fun runOwn :: "'c env \<Rightarrow> ownCall \<Rightarrow> ('c, error option) go" where
  "runOwn E (Announce v d h) = AnnounceRoute E v d h"
| "runOwn E (Withdraw v d h) = WithdrawRoute E v d h"

fun callUpdate :: "ownCall \<Rightarrow> msgUpdate" where
  "callUpdate (Announce v d h) = \<lparr>updAction = ADD, updVNI = v, updDestination = d, updNextHop = h\<rparr>"
| "callUpdate (Withdraw v d h) = \<lparr>updAction = REMOVE, updVNI = v, updDestination = d, updNextHop = h\<rparr>"

definition sendable :: "'c env \<Rightarrow> msgUpdate \<Rightarrow> bool" where
  "sendable E u \<longleftrightarrow> update_ok u \<and> \<not> isl (encodeMessage (cdc E) (MsgUpdate u))"

definition packetOf :: "'c env \<Rightarrow> msgUpdate \<Rightarrow> byte list" where
  "packetOf E u = projr (encodeMessage (cdc E) (MsgUpdate u))"

lemma encode_sendable: "sendable E u \<Longrightarrow> encodeMessage (cdc E) (MsgUpdate u) = Inr (packetOf E u)"
  by (simp add: sendable_def packetOf_def)

text \<open>All registered peers are connected, and \<open>p\<close> is one of them.\<close>

definition announcing :: "nat \<Rightarrow> 'c world \<Rightarrow> bool" where
  "announcing p w \<longleftrightarrow> live w \<and> distinct (map snd (peers w)) \<and> p \<in> snd ` set (peers w) \<and>
     (\<forall>r \<in> snd ` set (peers w). txChan (heap w r) \<noteq> None \<and> state (heap w r) = ESTABLISHED)"

lemma ownRecipients_all: "announcing p w \<Longrightarrow> ownRecipients w = map snd (peers w)"
  by (auto simp: announcing_def ownRecipients_def takeWhile_eq_all_conv)

lemma distribute_all:
  assumes "announcing p w" "encodeMessage (cdc E) (updateMsg a v d h) = Inr pkt"
  shows "distributeRouteToPeers E a v d h None (w\<lparr>myAnnouncements := t\<rparr>) =
     (Returns None, enqueueAll (map snd (peers w)) pkt (w\<lparr>myAnnouncements := t\<rparr>))"
proof -
  have all: "\<forall>r \<in> set (map snd (peers w)). txChan (heap w r) \<noteq> None"
    "\<forall>r \<in> set (map snd (peers w)). state (heap w r) = ESTABLISHED" "\<not> mtxSubscribers w"
    using assms(1) by (simp_all add: announcing_def live_def)
  have "ownRecipients (w\<lparr>myAnnouncements := t\<rparr>) = map snd (peers w)"
    using ownRecipients_all [OF assms(1)] by (simp add: ownRecipients_def)
  with distribute_own_run [of "w\<lparr>myAnnouncements := t\<rparr>" E a v d h pkt] assms(2) all show ?thesis by simp
qed

lemma announcing_enqueueAll:
  assumes "announcing p w" "live w'" "w' = enqueueAll (map snd (peers w)) pkt (w\<lparr>myAnnouncements := t\<rparr>)"
  shows "announcing p w' \<and> txQueue w' p = txQueue w p @ [pkt] \<and> myAnnouncements w' = t"
proof -
  have "txChan (heap (enqueueAll ps pkt w) r) \<noteq> None" if "txChan (heap w r) \<noteq> None" for ps r and w :: "'a world"
    using that by (induction ps arbitrary: w) (simp_all add: txChan_enqueue del: not_None_eq)
  then have "\<forall>r \<in> snd ` set (peers w). txChan (heap w' r) \<noteq> None"
    using assms(1,3) by (simp add: announcing_def del: not_None_eq)
  moreover have "txQueue w' p = txQueue (w\<lparr>myAnnouncements := t\<rparr>) p @ [pkt]"
    using assms(1,3) by (simp add: txQueue_enqueueAll announcing_def)
  ultimately show ?thesis
    using assms by (auto simp: announcing_def) (simp add: txQueue_def)
qed

text \<open>A call sends what it changes, or changes nothing.\<close>

lemma runOwn_effect:
  assumes "announcing p w" "sendable E (callUpdate c)"
  shows "\<exists>r w' us. runOwn E c w = (Returns r, w') \<and> announcing p w' \<and> set us \<subseteq> {callUpdate c} \<and>
     txQueue w' p = txQueue w p @ map (packetOf E) us \<and> announcedSet w' = fold applyUpdate us (announcedSet w)"
proof -
  have live: "live w" using assms(1) by (simp add: announcing_def)
  have keeps: "node_ok (snd (runOwn E c w))"
  proof -
    have "keeps (ok_at {}) (runOwn E c)"
      by (cases c) (auto simp: AnnounceRoute_def WithdrawRoute_def intro!: keeps_rules)
    then have "ok_at {} (snd (runOwn E c w))" by (rule keepsD) (use live in \<open>simp add: live_def\<close>)
    then show ?thesis by simp
  qed
  note enc = encode_sendable [OF assms(2)]
  show ?thesis
  proof (cases c)
    case (Announce v d h)
    show ?thesis
    proof (cases "rt_has (myAnnouncements w) v d h None")
      case True
      then have "runOwn E c w = (Returns (Some (Wrapf ''cannot announce route: %v'' (Errorf ''nexthop already exists''))), w)"
        by (simp add: Announce AnnounceRoute_def onAnnouncements_def AddNextHop_eq makePath_present)
      then show ?thesis using assms(1) by (intro exI exI [of _ w] exI [of _ "[]"]) auto
    next
      case False
      let ?t = "snd (AddNextHop v d h None (myAnnouncements w))"
      let ?w' = "enqueueAll (map snd (peers w)) (packetOf E (callUpdate c)) (w\<lparr>myAnnouncements := ?t\<rparr>)"
      have "fst (AddNextHop v d h None (myAnnouncements w)) = None" using False by (simp add: AddNextHop_None)
      then have run: "runOwn E c w = (Returns None, ?w')"
        using distribute_all [OF assms(1), of E ADD v d h "packetOf E (callUpdate c)" ?t] enc
        by (simp add: Announce AnnounceRoute_def onAnnouncements_def updateMsg_def)
      then have "live ?w'" using keeps live by (simp add: live_def)
      from announcing_enqueueAll [OF assms(1) this refl] run show ?thesis
        by (intro exI exI [of _ ?w'] exI [of _ "[callUpdate c]"])
          (auto simp: announcedSet_def applyUpdate_def Announce route3_def rt_has_AddNextHop)
    qed
  next
    case (Withdraw v d h)
    show ?thesis
    proof (cases "rt_has (myAnnouncements w) v d h None")
      case False
      then obtain e where "RemoveNextHop v d h None (myAnnouncements w) = (Inl e, myAnnouncements w)"
        using RemoveNextHop_absent by blast
      then have "runOwn E c w = (Returns (Some (Wrapf ''cannot remove route from the local announcement route table: %v'' e)), w)"
        by (simp add: Withdraw WithdrawRoute_def onAnnouncements_def)
      then show ?thesis using assms(1) by (intro exI exI [of _ w] exI [of _ "[]"]) auto
    next
      case True
      let ?t = "snd (RemoveNextHop v d h None (myAnnouncements w))"
      let ?w' = "enqueueAll (map snd (peers w)) (packetOf E (callUpdate c)) (w\<lparr>myAnnouncements := ?t\<rparr>)"
      have "fst (RemoveNextHop v d h None (myAnnouncements w)) = Inr 0"
        using announcement_single [of w] live True by (simp add: live_def)
      then have run: "runOwn E c w = (Returns None, ?w')"
        using distribute_all [OF assms(1), of E REMOVE v d h "packetOf E (callUpdate c)" ?t] enc
        by (simp add: Withdraw WithdrawRoute_def onAnnouncements_def updateMsg_def)
      then have "live ?w'" using keeps live by (simp add: live_def)
      from announcing_enqueueAll [OF assms(1) this refl] run show ?thesis
        by (intro exI exI [of _ ?w'] exI [of _ "[callUpdate c]"])
          (auto simp: announcedSet_def applyUpdate_def Withdraw route3_def rt_has_RemoveNextHop)
    qed
  qed
qed

section \<open>The connection\<close>

text \<open>
  \<open>wire\<close> has the packets that are written and not yet read, \<open>rxbuf\<close> is the buffer of the receiver's
  \<open>rxLoop\<close>. A read returns one or more whole packets, and less than the buffer.
\<close>

record ('a, 'b) net =
  sender :: "'a world"
  receiver :: "'b world"
  wire :: "byte list list"
  rxbuf :: "byte list"

inductive moves :: "'b env \<Rightarrow> nat \<Rightarrow> nat \<Rightarrow> ('a, 'b) net \<Rightarrow> ('a, 'b) net \<Rightarrow> bool" for E p q where
  move_write: "txLoopOnce p (Some True) (sender s) = (Returns (Some (Some pkt, True)), w) \<Longrightarrow>
    moves E p q s (s\<lparr>sender := w, wire := wire s @ [pkt]\<rparr>)"
| move_read: "0 < n \<Longrightarrow> n \<le> length (wire s) \<Longrightarrow> length (concat (take n (wire s))) < length (rxbuf s) \<Longrightarrow>
    rxLoopOnce E q (rxbuf s) (ReadData (concat (take n (wire s)))) (receiver s) = (Returns (Some buf), w) \<Longrightarrow>
    moves E p q s (s\<lparr>receiver := w, wire := drop n (wire s), rxbuf := buf\<rparr>)"
| move_handle: "handleSelect E q OnUpdate (receiver s) = (Returns (Some True), w) \<Longrightarrow>
    moves E p q s (s\<lparr>receiver := w\<rparr>)"

inductive runs :: "'a env \<Rightarrow> 'b env \<Rightarrow> nat \<Rightarrow> nat \<Rightarrow> ('a, 'b) net \<Rightarrow> ('a, 'b) net \<Rightarrow> bool" for EA EB p q s0 where
  runs_start: "runs EA EB p q s0 s0"
| runs_call: "runs EA EB p q s0 s \<Longrightarrow> sendable EA (callUpdate c) \<Longrightarrow> runOwn EA c (sender s) = (Returns r, w) \<Longrightarrow>
    runs EA EB p q s0 (s\<lparr>sender := w\<rparr>)"
| runs_move: "runs EA EB p q s0 s \<Longrightarrow> moves EB p q s s' \<Longrightarrow> runs EA EB p q s0 s'"

text \<open>The updates on their way are those of the sender that the receiver does not know of yet.\<close>

definition inFlight :: "'a env \<Rightarrow> nat \<Rightarrow> nat \<Rightarrow> ('a, 'b) net \<Rightarrow> msgUpdate list \<Rightarrow> bool" where
  "inFlight EA p q s us \<longleftrightarrow> (\<exists>us1 us2 us3. us = us1 @ us2 @ us3 \<and> list_all (sendable EA) (us2 @ us3) \<and>
     rxUpdate (heap (receiver s) q) = Some us1 \<and> wire s = map (packetOf EA) us2 \<and>
     txQueue (sender s) p = map (packetOf EA) us3)"

definition linked :: "'a env \<Rightarrow> 'b env \<Rightarrow> nat \<Rightarrow> nat \<Rightarrow> routeSet \<Rightarrow> routeSet \<Rightarrow> ('a, 'b) net \<Rightarrow> bool" where
  "linked EA EB p q A B s \<longleftrightarrow> proto_codec (cdc EB) \<and> cdc EA = cdc EB \<and> length (rxbuf s) = 65535 \<and>
     announcing p (sender s) \<and> announcedSet (sender s) = A \<and>
     receiving q (receiver s) \<and> blocked (receiver s) = B \<and>
     state (heap (receiver s) q) \<noteq> CLOSED \<and> state (heap (receiver s) q) \<noteq> RETRY \<and>
     (\<exists>us. inFlight EA p q s us \<and> fold applyUpdate us (view q (receiver s)) = A)"

definition load :: "nat \<Rightarrow> nat \<Rightarrow> ('a, 'b) net \<Rightarrow> nat" where
  "load p q s = 3 * length (txQueue (sender s) p) + 2 * length (wire s) +
     (case rxUpdate (heap (receiver s) q) of None \<Rightarrow> 0 | Some us \<Rightarrow> length us)"

subsection \<open>The goroutines at the two ends\<close>

lemma txLoopOnce_packet:
  "txLoopOnce p (Some True) w = (Returns (Some (Some pkt, True)), w') \<longleftrightarrow>
     (\<exists>q. txChan (heap w p) = Some (pkt # q) \<and> w' = updPeer p (txChan_update (\<lambda>_. Some q)) w)"
  by (auto simp: txLoopOnce_def setPeer_def split: option.splits list.splits)

lemma encodeAll_sendable:
  "list_all (sendable E) us \<Longrightarrow> encodeAll (cdc E) (map MsgUpdate us) = Inr (concat (map (packetOf E) us))"
  by (induction us) (simp_all add: encode_sendable)

lemma forEach_deliver:
  "rxUpdate (heap w q) = Some xs \<Longrightarrow> forEach (map MsgUpdate us) (deliver q) w =
     (Returns (), updPeer q (rxUpdate_update (\<lambda>_. Some (xs @ us))) w)"
proof (induction us arbitrary: w xs)
  case Nil
  then show ?case by (cases w) (simp add: updPeer_def fun_upd_idem)
next
  case (Cons u us)
  let ?w = "updPeer q (rxUpdate_update (\<lambda>_. Some (xs @ [u]))) w"
  have "deliver q (MsgUpdate u) w = (Returns (), ?w)"
    using Cons.prems by (simp add: deliver_def setPeer_def)
  moreover have "updPeer q (rxUpdate_update (\<lambda>_. Some ((xs @ [u]) @ us))) ?w =
      updPeer q (rxUpdate_update (\<lambda>_. Some (xs @ u # us))) w"
    by (simp add: updPeer_updPeer comp_def)
  ultimately show ?case using Cons.IH [of ?w "xs @ [u]"] by simp
qed

lemma rxLoopOnce_updates:
  assumes "proto_codec (cdc E)" "cdc EA = cdc E" "list_all (sendable EA) us" "us \<noteq> []"
    and "length (concat (map (packetOf EA) us)) < length buf"
    and "state (heap w q) \<noteq> CLOSED" "state (heap w q) \<noteq> RETRY" "rxUpdate (heap w q) = Some xs"
  shows "\<exists>buf'. length buf' = length buf \<and>
     rxLoopOnce E q buf (ReadData (concat (map (packetOf EA) us))) w =
       (Returns (Some buf'), updPeer q (rxUpdate_update (\<lambda>_. Some (xs @ us))) w)"
proof -
  let ?bs = "concat (map (packetOf EA) us)"
  obtain u us' where us: "us = u # us'" using assms(4) by (cases us) auto
  have ok: "list_all message_ok (MsgUpdate u # map MsgUpdate us')"
    using assms(3) by (auto simp: us message_ok_def sendable_def list_all_iff)
  have enc: "encodeAll (cdc E) (MsgUpdate u # map MsgUpdate us') = Inr ?bs"
    using encodeAll_sendable [OF assms(3)] assms(2) by (simp only: us list.map)
  have "parsePackets (cdc E) (?bs @ drop (length ?bs) buf) (length ?bs) 0 = (map MsgUpdate us, RxContinue)"
    using proto_codec.parse_encodeAll [OF assms(1) enc ok, of "[]" "drop (length ?bs) buf"]
    by (simp add: us received_def comp_def)
  then have "rxLoopOnce E q buf (ReadData ?bs) w =
      (Returns (Some (?bs @ drop (length ?bs) buf)), updPeer q (rxUpdate_update (\<lambda>_. Some (xs @ us))) w)"
    using assms(5-7) forEach_deliver [OF assms(8), of us]
    by (simp add: rxLoopOnce_def GetState_def rxIteration_def Let_def)
  moreover have "length (?bs @ drop (length ?bs) buf) = length buf" using assms(5) by simp
  ultimately show ?thesis by blast
qed

lemma handleSelect_update:
  assumes "receiving q w" "rxUpdate (heap w q) = Some (u # us)"
  shows "\<exists>w'. handleSelect E q OnUpdate w = (Returns (Some True), w') \<and> receiving q w' \<and>
     rxUpdate (heap w' q) = Some us \<and> state (heap w' q) = state (heap w q) \<and>
     view q w' = applyUpdate u (view q w) \<and> blocked w' = blocked w"
proof -
  let ?w = "updPeer q (rxUpdate_update (\<lambda>_. Some us)) w"
  have "live ?w" using assms by (intro live_updPeer) (auto simp: receiving_def chansMade_def)
  then have "receiving q ?w"
    using assms by (simp add: receiving_def chansMade_def tableView_def view_def blocked_def ownsDestination_def)
  from processRxUpdate_view [OF this, of E u] obtain w' where
    "processRxUpdate E q u ?w = (Returns (), w')" "receiving q w'" "samePeer q ?w w'"
    "view q w' = applyUpdate u (view q ?w)" "blocked w' = blocked ?w" by blast
  then show ?thesis
    using assms(2) by (intro exI [of _ w'])
      (simp add: handleSelect_def setPeer_def samePeer_def view_def blocked_def ownsDestination_def)
qed

subsection \<open>Systems that run until there is nothing left to do\<close>

locale draining =
  fixes stp :: "'s \<Rightarrow> 's \<Rightarrow> bool" and inv :: "'s \<Rightarrow> bool" and load :: "'s \<Rightarrow> nat"
  assumes inv_stp: "inv s \<Longrightarrow> stp s s' \<Longrightarrow> inv s'"
    and load_stp: "inv s \<Longrightarrow> stp s s' \<Longrightarrow> load s' < load s"
    and loaded_stp: "inv s \<Longrightarrow> 0 < load s \<Longrightarrow> \<exists>s'. stp s s'"
begin

lemma inv_stps: "stp\<^sup>*\<^sup>* s s' \<Longrightarrow> inv s \<Longrightarrow> inv s'"
  by (induction rule: rtranclp_induct) (auto intro: inv_stp)

text \<open>Every run ends, and only where nothing is left.\<close>

lemma drains: "inv s \<Longrightarrow> \<exists>s'. stp\<^sup>*\<^sup>* s s' \<and> load s' = 0"
proof (induction "load s" arbitrary: s rule: less_induct)
  case less
  show ?case
  proof (cases "load s = 0")
    case False
    then obtain s' where s': "stp s s'" using loaded_stp less.prems by blast
    then obtain s'' where "stp\<^sup>*\<^sup>* s' s''" "load s'' = 0"
      using less.hyps [of s'] less.prems inv_stp load_stp by blast
    with s' show ?thesis by (meson converse_rtranclp_into_rtranclp)
  qed blast
qed

lemma ends_drained: "inv s \<Longrightarrow> stp\<^sup>*\<^sup>* s s' \<Longrightarrow> \<not> (\<exists>s''. stp s' s'') \<Longrightarrow> load s' = 0"
  using inv_stps loaded_stp by blast

lemma drained_ends: "inv s \<Longrightarrow> load s = 0 \<Longrightarrow> \<not> (\<exists>s'. stp s s')"
  using load_stp by fastforce

end

lemma linkedI:
  assumes "proto_codec (cdc EB)" "cdc EA = cdc EB" "length (rxbuf s) = 65535"
    and "announcing p (sender s)" "announcedSet (sender s) = A" "receiving q (receiver s)" "blocked (receiver s) = B"
    and "state (heap (receiver s) q) \<noteq> CLOSED" "state (heap (receiver s) q) \<noteq> RETRY"
    and "inFlight EA p q s us" "fold applyUpdate us (view q (receiver s)) = A"
  shows "linked EA EB p q A B s"
  unfolding linked_def using assms by blast

lemma packetOf_length:
  assumes "sendable E u"
  shows "length (packetOf E u) \<le> 1192"
proof -
  obtain bs where "Serialize (cdc E) (MsgUpdate u) = Inr bs" "packetOf E u = packet (msgTypeOf (MsgUpdate u)) bs"
    using encode_sendable [OF assms] by (auto simp: encodeMessage_def split: sum.splits)
  then show ?thesis using Serialize_short [of "cdc E" "MsgUpdate u" bs] by (simp add: maxMsgLen_def)
qed

text \<open>The three moves, at a connection with known updates on their way.\<close>

lemma move_cases:
  assumes "linked EA EB p q A B s" "moves EB p q s s'"
  shows "linked EA EB p q A B s' \<and> load p q s' < load p q s"
proof -
  from assms(1) obtain us1 us2 us3 where codec: "proto_codec (cdc EB)" "cdc EA = cdc EB"
    and len: "length (rxbuf s) = 65535"
    and snd: "announcing p (sender s)" "announcedSet (sender s) = A"
    and rcv: "receiving q (receiver s)" "blocked (receiver s) = B"
      "state (heap (receiver s) q) \<noteq> CLOSED" "state (heap (receiver s) q) \<noteq> RETRY"
    and fl: "list_all (sendable EA) (us2 @ us3)" "rxUpdate (heap (receiver s) q) = Some us1"
      "wire s = map (packetOf EA) us2" "txQueue (sender s) p = map (packetOf EA) us3"
    and fold: "fold applyUpdate (us1 @ us2 @ us3) (view q (receiver s)) = A"
    unfolding linked_def inFlight_def by blast
  from assms(2) show ?thesis
  proof cases
    case (move_write pkt w)
    then obtain rest where tx: "txChan (heap (sender s) p) = Some (pkt # rest)"
      and w: "w = updPeer p (txChan_update (\<lambda>_. Some rest)) (sender s)"
      unfolding txLoopOnce_packet by blast
    then obtain u us3' where us3: "us3 = u # us3'" "pkt = packetOf EA u" "rest = map (packetOf EA) us3'"
      using fl(4) by (cases us3) (auto simp: txQueue_def)
    have "ok_at {} w" unfolding w
      using snd(1) by (intro ok_at_updPeer) (auto simp: announcing_def live_def)
    then have "announcing p w" using snd(1) by (auto simp: w announcing_def live_def)
    moreover have "announcedSet w = A" using snd(2) by (simp add: w announcedSet_def)
    moreover have q: "txQueue w p = rest" by (simp add: w txQueue_def)
    ultimately have "inFlight EA p q s' (us1 @ (us2 @ [u]) @ us3')"
      unfolding inFlight_def move_write(1) using fl us3
      by (intro exI [of _ us1] exI [of _ "us2 @ [u]"] exI [of _ us3']) simp
    moreover have "us1 @ (us2 @ [u]) @ us3' = us1 @ us2 @ us3" using us3(1) by simp
    ultimately have "linked EA EB p q A B s'"
      by (intro linkedI [where us = "us1 @ (us2 @ [u]) @ us3'"])
        (use codec len rcv fold \<open>announcing p w\<close> \<open>announcedSet w = A\<close> us3(1) in \<open>simp_all add: move_write(1)\<close>)
    then show ?thesis using fl(2,4) us3 q by (simp add: load_def move_write(1))
  next
    case (move_read n buf w)
    let ?a = "take n us2"
    have n: "n \<le> length us2" using move_read(3) fl(3) by simp
    have bytes: "concat (take n (wire s)) = concat (map (packetOf EA) ?a)" by (simp add: fl(3) take_map)
    have a: "list_all (sendable EA) ?a" "?a \<noteq> []"
      using fl(1) move_read(2) n by (auto simp: list_all_iff dest: in_set_takeD)
    obtain buf' where "length buf' = 65535"
      "rxLoopOnce EB q (rxbuf s) (ReadData (concat (take n (wire s)))) (receiver s) =
        (Returns (Some buf'), updPeer q (rxUpdate_update (\<lambda>_. Some (us1 @ ?a))) (receiver s))"
      using rxLoopOnce_updates [OF codec a, of "rxbuf s" "receiver s" q us1] move_read(4) rcv(3,4) fl(2) len
      unfolding bytes by auto
    with move_read(5) have buf: "length buf = 65535"
      and w: "w = updPeer q (rxUpdate_update (\<lambda>_. Some (us1 @ ?a))) (receiver s)" by auto
    have "live w" unfolding w
      using rcv(1) by (intro live_updPeer) (auto simp: receiving_def chansMade_def)
    then have r: "receiving q w" "blocked w = B" "view q w = view q (receiver s)"
      using rcv(1,2) by (auto simp: w receiving_def chansMade_def tableView_def view_def blocked_def ownsDestination_def)
    have "inFlight EA p q s' ((us1 @ ?a) @ drop n us2 @ us3)"
      unfolding inFlight_def move_read(1) using fl
      by (intro exI [of _ "us1 @ ?a"] exI [of _ "drop n us2"] exI [of _ us3])
        (auto simp: w drop_map list_all_iff dest: in_set_dropD)
    moreover have "fold applyUpdate ((us1 @ ?a) @ drop n us2 @ us3) (view q (receiver s)) = A"
      using fold fold_append [of applyUpdate ?a "drop n us2"] by (simp)
    ultimately have "linked EA EB p q A B s'"
      by (intro linkedI [where us = "(us1 @ ?a) @ drop n us2 @ us3"])
        (use codec buf snd r rcv(3,4) in \<open>simp_all add: move_read(1), simp_all add: w\<close>)
    then show ?thesis using fl(2,3) n move_read(2) by (simp add: load_def move_read(1) w)
  next
    case (move_handle w)
    then obtain u us where us1: "us1 = u # us"
      using fl(2) by (cases us1) (auto simp: handleSelect_def)
    obtain w' where "handleSelect EB q OnUpdate (receiver s) = (Returns (Some True), w')" "receiving q w'"
      "rxUpdate (heap w' q) = Some us" "state (heap w' q) = state (heap (receiver s) q)"
      "view q w' = applyUpdate u (view q (receiver s))" "blocked w' = blocked (receiver s)"
      using handleSelect_update [OF rcv(1) fl(2) [unfolded us1], of EB] by blast
    with move_handle(2) have w: "receiving q w" "rxUpdate (heap w q) = Some us"
      "state (heap w q) = state (heap (receiver s) q)" "view q w = applyUpdate u (view q (receiver s))"
      "blocked w = B" using rcv(2) by auto
    have "inFlight EA p q s' (us @ us2 @ us3)"
      unfolding inFlight_def move_handle(1) using fl w(2)
      by (intro exI [of _ us] exI [of _ us2] exI [of _ us3]) simp
    then have "linked EA EB p q A B s'"
      by (intro linkedI [where us = "us @ us2 @ us3"])
        (use codec len snd w rcv(3,4) fold us1 in \<open>simp_all add: move_handle(1)\<close>)
    then show ?thesis using fl(2) us1 w(2) by (simp add: load_def move_handle(1))
  qed
qed

lemma move_possible:
  assumes "linked EA EB p q A B s" "0 < load p q s"
  shows "\<exists>s'. moves EB p q s s'"
proof -
  from assms(1) obtain us1 us2 us3 where codec: "proto_codec (cdc EB)" "cdc EA = cdc EB"
    and len: "length (rxbuf s) = 65535"
    and rcv: "receiving q (receiver s)"
      "state (heap (receiver s) q) \<noteq> CLOSED" "state (heap (receiver s) q) \<noteq> RETRY"
    and fl: "list_all (sendable EA) (us2 @ us3)" "rxUpdate (heap (receiver s) q) = Some us1"
      "wire s = map (packetOf EA) us2" "txQueue (sender s) p = map (packetOf EA) us3"
    unfolding linked_def inFlight_def by blast
  consider u us where "us1 = u # us" | u us where "us2 = u # us" | u us where "us3 = u # us"
    using assms(2) fl(2-4) by (cases us1; cases us2; cases us3) (auto simp: load_def)
  then show ?thesis
  proof cases
    case (1 u us)
    then show ?thesis using handleSelect_update [OF rcv(1), of u us EB] fl(2) move_handle by metis
  next
    case (2 u us)
    have u: "list_all (sendable EA) [u]" using fl(1) 2 by simp
    have short: "length (packetOf EA u) \<le> 1192" using packetOf_length u by simp
    then obtain buf where "rxLoopOnce EB q (rxbuf s) (ReadData (packetOf EA u)) (receiver s) =
        (Returns (Some buf), updPeer q (rxUpdate_update (\<lambda>_. Some (us1 @ [u]))) (receiver s))"
      using rxLoopOnce_updates [OF codec u, of "rxbuf s" "receiver s" q us1] rcv(2,3) fl(2) len by auto
    with short show ?thesis
      using move_read [of 1 s EB q buf _ p] 2 fl(3) len by fastforce
  next
    case (3 u us)
    then have "txLoopOnce p (Some True) (sender s) = (Returns (Some (Some (packetOf EA u), True)),
        updPeer p (txChan_update (\<lambda>_. Some (map (packetOf EA) us))) (sender s))"
      using fl(4) unfolding txLoopOnce_packet by (auto simp: txQueue_def split: option.splits)
    then show ?thesis using move_write by blast
  qed
qed

interpretation delivery: draining "moves EB p q" "linked EA EB p q A B" "load p q"
  by unfold_locales (use move_cases move_possible in blast)+

section \<open>The view converges\<close>

lemma call_linked:
  assumes "linked EA EB p q A B s" "sendable EA (callUpdate c)" "runOwn EA c (sender s) = (Returns r, w)"
  shows "linked EA EB p q (announcedSet w) B (s\<lparr>sender := w\<rparr>)"
proof -
  from assms(1) obtain us1 us2 us3 where codec: "proto_codec (cdc EB)" "cdc EA = cdc EB"
    and len: "length (rxbuf s) = 65535"
    and snd: "announcing p (sender s)" "announcedSet (sender s) = A"
    and rcv: "receiving q (receiver s)" "blocked (receiver s) = B"
      "state (heap (receiver s) q) \<noteq> CLOSED" "state (heap (receiver s) q) \<noteq> RETRY"
    and fl: "list_all (sendable EA) (us2 @ us3)" "rxUpdate (heap (receiver s) q) = Some us1"
      "wire s = map (packetOf EA) us2" "txQueue (sender s) p = map (packetOf EA) us3"
    and fold: "fold applyUpdate (us1 @ us2 @ us3) (view q (receiver s)) = A"
    unfolding linked_def inFlight_def by blast
  obtain us where w: "announcing p w" "set us \<subseteq> {callUpdate c}"
    "txQueue w p = txQueue (sender s) p @ map (packetOf EA) us" "announcedSet w = fold applyUpdate us A"
    using runOwn_effect [OF snd(1) assms(2)] assms(3) snd(2) by auto
  have "inFlight EA p q (s\<lparr>sender := w\<rparr>) (us1 @ us2 @ us3 @ us)"
    unfolding inFlight_def using fl w(2,3) assms(2)
    by (intro exI [of _ us1] exI [of _ us2] exI [of _ "us3 @ us"]) (auto simp: list_all_iff)
  then show ?thesis
    by (intro linkedI [where us = "us1 @ us2 @ us3 @ us"])
      (use codec len rcv w(1,4) fold in simp_all)
qed

lemma runs_linked:
  assumes "runs EA EB p q s0 s" "linked EA EB p q (announcedSet (sender s0)) B s0"
  shows "linked EA EB p q (announcedSet (sender s)) B s"
  using assms
proof (induction rule: runs.induct)
  case (runs_call s c r w)
  then show ?case using call_linked [of EA EB p q _ B s c r w] by simp
next
  case (runs_move s s')
  then have "linked EA EB p q (announcedSet (sender s)) B s'" using move_cases by blast
  then show ?case by (simp add: linked_def)
qed

lemma drained_view:
  assumes "linked EA EB p q A B s" "load p q s = 0"
  shows "view q (receiver s) = A \<and> tableView q (receiver s) = A - B"
proof -
  have "rxUpdate (heap (receiver s) q) = Some []" "wire s = []" "txQueue (sender s) p = []"
    using assms by (auto simp: linked_def inFlight_def load_def split: option.splits)
  then show ?thesis using assms(1) by (auto simp: linked_def inFlight_def receiving_def)
qed


definition exNet :: "(unit, unit) net" where
  "exNet = \<lparr>sender = exWorld\<lparr>peers := gdel ''c'' (peers exWorld)\<rparr>, receiver = exWorld, wire = [],
     rxbuf = replicate 65535 0\<rparr>"

lemma exNet_sender: "announcing 0 (sender exNet)" "announcedSet (sender exNet) = {}"
proof -
  have "ok_at {} (snd (modify (\<lambda>w. w\<lparr>peers := gdel ''c'' (peers w)\<rparr>) exWorld))"
    by (rule keepsD, rule keeps_rules) (simp add: exWorld_ok)
  then have "node_ok (sender exNet)" by (simp add: exNet_def)
  then show "announcing 0 (sender exNet)"
    by (auto simp: announcing_def live_def exNet_def exHeap_tx) (auto simp: exHeap_def exPeer_def noPeer_def)
  show "announcedSet (sender exNet) = {}" by (simp add: announcedSet_def exNet_def)
qed

lemma exNet_receiver: "receiving 0 (receiver exNet)" "view 0 (receiver exNet) = {}"
  "rxUpdate (heap (receiver exNet) 0) = Some []" "state (heap (receiver exNet) 0) = ESTABLISHED"
  using exWorld_live
  by (auto simp: receiving_def exNet_def view_def tableView_def chansMade_def exHeap_def exPeer_def noPeer_def)


end
