(* ===== verification/Handshake.thy ===== *)
theory Handshake
  imports Convergence "HOL-Library.Monad_Syntax"
begin

text \<open>
  Two nodes become connected: the client \<open>a\<close> has dialled and has the server as its peer \<open>p\<close>, the
  server \<open>b\<close> has accepted the connection as its peer \<open>q\<close>. The theory runs the goroutines of both
  sides, each as soon as it has something to do, through the exchange of HELLO and KEEPALIVE.
\<close>

section \<open>Messages between the nodes\<close>

text \<open>One packet: the \<open>txLoop\<close> of peer \<open>p\<close> writes it, the \<open>rxLoop\<close> of peer \<open>q\<close> reads it.\<close>

definition transfer :: "'b env \<Rightarrow> nat \<Rightarrow> nat \<Rightarrow> byte list \<times> 'a world \<times> 'b world
    \<Rightarrow> (byte list \<times> 'a world \<times> 'b world) option" where
  "transfer E p q = (\<lambda>(buf, a, b).
     case txLoopOnce p (Some True) a of
        (Returns (Some (Some pkt, True)), a') \<Rightarrow>
          (case rxLoopOnce E q buf (ReadData pkt) b of
             (Returns (Some buf'), b') \<Rightarrow> Some (buf', a', b')
           | _ \<Rightarrow> None)
      | _ \<Rightarrow> None)"

primrec transfers :: "nat \<Rightarrow> 'b env \<Rightarrow> nat \<Rightarrow> nat \<Rightarrow> byte list \<times> 'a world \<times> 'b world
    \<Rightarrow> (byte list \<times> 'a world \<times> 'b world) option" where
  "transfers 0 E p q s = Some s"
| "transfers (Suc n) E p q s =
     (case transfer E p q s of Some s' \<Rightarrow> transfers n E p q s' | None \<Rightarrow> None)"

definition handled :: "'c env \<Rightarrow> nat \<Rightarrow> handleCase \<Rightarrow> 'c world \<Rightarrow> 'c world option" where
  "handled E p c w = (case handleSelect E p c w of (Returns (Some True), w') \<Rightarrow> Some w' | _ \<Rightarrow> None)"

definition ran :: "('c, unit) go \<Rightarrow> 'c world \<Rightarrow> 'c world option" where
  "ran f w = (case f w of (Returns _, w') \<Rightarrow> Some w' | _ \<Rightarrow> None)"

text \<open>What the delivery of a message changes at the receiving peer.\<close>

definition deliverInto :: "message \<Rightarrow> metalBondPeer \<Rightarrow> metalBondPeer" where
  "deliverInto msg x = (case msg of
     MsgHello m \<Rightarrow> x\<lparr>rxHello := map_option (\<lambda>q. q @ [m]) (rxHello x)\<rparr>
   | MsgKeepalive \<Rightarrow> x\<lparr>rxKeepalive := map_option Suc (rxKeepalive x)\<rparr>
   | MsgSubscribe m \<Rightarrow> x\<lparr>rxSubscribe := map_option (\<lambda>q. q @ [m]) (rxSubscribe x)\<rparr>
   | MsgUnsubscribe m \<Rightarrow> x\<lparr>rxUnsubscribe := map_option (\<lambda>q. q @ [m]) (rxUnsubscribe x)\<rparr>
   | MsgUpdate m \<Rightarrow> x\<lparr>rxUpdate := map_option (\<lambda>q. q @ [m]) (rxUpdate x)\<rparr>)"

lemma deliver_made: "chansMade (heap w p) \<Longrightarrow> deliver p msg w = (Returns (), updPeer p (deliverInto msg) w)"
  by (cases msg) (auto simp: deliver_def setPeer_def chansMade_def updPeer_def deliverInto_def)

lemma deliverInto_frame [simp]:
  "state (deliverInto m x) = state x" "direction (deliverInto m x) = direction x"
  "txChan (deliverInto m x) = txChan x" "peerKeepalive (deliverInto m x) = peerKeepalive x"
  "keepaliveTimer (deliverInto m x) = keepaliveTimer x"
  "chansMade (deliverInto m x) = chansMade x"
  by (cases m; simp add: deliverInto_def chansMade_def)+

definition encodable :: "'c env \<Rightarrow> message \<Rightarrow> bool" where
  "encodable E m \<longleftrightarrow> message_ok m \<and> \<not> isl (encodeMessage (cdc E) m)"

definition pktOf :: "'c env \<Rightarrow> message \<Rightarrow> byte list" where
  "pktOf E m = projr (encodeMessage (cdc E) m)"

lemma encodable_pktOf: "encodable E m \<Longrightarrow> encodeMessage (cdc E) m = Inr (pktOf E m)"
  by (simp add: encodable_def pktOf_def)

lemma packets_pktOf: "list_all (encodable E) ms \<Longrightarrow> packets E ms = map (pktOf E) ms"
  by (induction ms) (simp_all add: packets_def encodable_pktOf)

lemma encodable_keepalive: "encodable E MsgKeepalive"
  by (simp add: encodable_def message_ok_def encodeMessage_def Serialize_def serializeKeepalive_def)

lemma pktOf_length:
  assumes "encodable E m"
  shows "length (pktOf E m) \<le> 1192"
proof -
  obtain bs where "Serialize (cdc E) m = Inr bs" "pktOf E m = packet (msgTypeOf m) bs"
    using encodable_pktOf [OF assms] by (auto simp: encodeMessage_def split: sum.splits)
  then show ?thesis using Serialize_short [of "cdc E" m bs] by (simp add: maxMsgLen_def)
qed

text \<open>The two codecs agree, and the receiving side can read.\<close>

definition reads :: "'a env \<Rightarrow> 'b env \<Rightarrow> nat \<Rightarrow> 'b world \<Rightarrow> bool" where
  "reads EA EB q b \<longleftrightarrow> proto_codec (cdc EB) \<and> cdc EA = cdc EB \<and> chansMade (heap b q) \<and>
     state (heap b q) \<noteq> CLOSED \<and> state (heap b q) \<noteq> RETRY"

lemma rxLoopOnce_run:
  assumes "reads EA EB q b" "encodable EA m" "length buf = 65535"
  shows "\<exists>buf'. length buf' = 65535 \<and>
     rxLoopOnce EB q buf (ReadData (pktOf EA m)) b = (Returns (Some buf'), updPeer q (deliverInto (received m)) b)"
proof -
  have b: "proto_codec (cdc EB)" "cdc EA = cdc EB" "chansMade (heap b q)" "state (heap b q) \<noteq> CLOSED" "state (heap b q) \<noteq> RETRY"
    using assms(1) by (simp_all add: reads_def)
  let ?pkt = "pktOf EA m" and ?buf = "pktOf EA m @ drop (length (pktOf EA m)) buf"
  have len: "length ?pkt < 65535" using pktOf_length [OF assms(2)] by simp
  have "encodeAll (cdc EB) [m] = Inr ?pkt" using encodable_pktOf [OF assms(2)] b(2) by simp
  then have "parsePackets (cdc EB) ?buf (length ?pkt) 0 = ([received m], RxContinue)"
    using proto_codec.parse_encodeAll [OF b(1), of m "[]" ?pkt "[]" "drop (length ?pkt) buf"] assms(2)
    by (simp add: encodable_def)
  then have "rxLoopOnce EB q buf (ReadData ?pkt) b = (Returns (Some ?buf), updPeer q (deliverInto (received m)) b)"
    using b(3-5) len assms(3) by (simp add: rxLoopOnce_def GetState_def rxIteration_def Let_def deliver_made)
  moreover have "length ?buf = 65535" using len assms(3) by simp
  ultimately show ?thesis by blast
qed

lemma transfer_run:
  assumes "reads EA EB q b" "encodable EA m" "length buf = 65535" "txChan (heap a p) = Some (pktOf EA m # rest)"
  shows "\<exists>buf'. length buf' = 65535 \<and> transfer EB p q (buf, a, b) =
     Some (buf', updPeer p (txChan_update (\<lambda>_. Some rest)) a, updPeer q (deliverInto (received m)) b)"
proof -
  obtain buf' where "length buf' = 65535"
      "rxLoopOnce EB q buf (ReadData (pktOf EA m)) b = (Returns (Some buf'), updPeer q (deliverInto (received m)) b)"
    using rxLoopOnce_run [OF assms(1-3)] by blast
  moreover have "txLoopOnce p (Some True) a = (Returns (Some (Some (pktOf EA m), True)), updPeer p (txChan_update (\<lambda>_. Some rest)) a)"
    using assms(4) by (simp add: txLoopOnce_packet)
  ultimately show ?thesis by (intro exI [of _ buf']) (simp add: transfer_def)
qed

lemma reads_updPeer: "reads EA EB q b \<Longrightarrow> reads EA EB q (updPeer q (deliverInto m) b)"
  by (simp add: reads_def)

lemma transfers_run:
  assumes "reads EA EB q b" "list_all (encodable EA) ms" "length buf = 65535"
    "txChan (heap a p) = Some (map (pktOf EA) ms)"
  shows "\<exists>buf'. length buf' = 65535 \<and> transfers (length ms) EB p q (buf, a, b) =
     Some (buf', updPeer p (txChan_update (\<lambda>_. Some [])) a, updPeer q (fold (deliverInto \<circ> received) ms) b)"
  using assms
proof (induction ms arbitrary: a b buf)
  case Nil
  then have "updPeer p (txChan_update (\<lambda>_. Some [])) a = a" by (cases a) (simp add: updPeer_def fun_upd_idem)
  moreover have "updPeer q (\<lambda>x. x) b = b" by (simp add: updPeer_def)
  ultimately show ?case using Nil by (simp add: id_def)
next
  case (Cons m ms)
  let ?a = "updPeer p (txChan_update (\<lambda>_. Some (map (pktOf EA) ms))) a"
  let ?b = "updPeer q (deliverInto (received m)) b"
  obtain buf' where buf': "length buf' = 65535" "transfer EB p q (buf, a, b) = Some (buf', ?a, ?b)"
    using transfer_run [OF Cons.prems(1) _ Cons.prems(3), of m a p] Cons.prems(2,4) by auto
  have "\<exists>buf''. length buf'' = 65535 \<and> transfers (length ms) EB p q (buf', ?a, ?b) =
      Some (buf'', updPeer p (txChan_update (\<lambda>_. Some [])) ?a, updPeer q (fold (deliverInto \<circ> received) ms) ?b)"
    by (rule Cons.IH) (use Cons.prems(1,2) buf'(1) in \<open>simp_all add: reads_updPeer\<close>)
  then show ?case using buf'(2) by (simp add: updPeer_updPeer comp_def)
qed

section \<open>One side of the connection\<close>

text \<open>What the exchange is about, of a node and its peer \<open>p\<close>: the abstract state of one side.\<close>

record side =
  sdDir :: ConnectionDirection
  sdState :: ConnectionState
  sdKeep :: "32 word"
  sdTx :: "byte list list"
  sdHello :: "msgHello list"
  sdAlive :: nat
  sdUpd :: "msgUpdate list"
  sdAnn :: routeTable
  sdSubs :: "(VNI, bool) gomap"
  sdSrv :: bool

definition sideOf :: "nat \<Rightarrow> 'c world \<Rightarrow> side" where
  "sideOf p w = (let x = heap w p in \<lparr>sdDir = direction x, sdState = state x, sdKeep = peerKeepalive x,
     sdTx = txQueue w p, sdHello = the (rxHello x), sdAlive = the (rxKeepalive x), sdUpd = the (rxUpdate x),
     sdAnn = myAnnouncements w, sdSubs = mySubscriptions w, sdSrv = mbIsServer w\<rparr>)"

definition quiet :: "nat \<Rightarrow> 'c world \<Rightarrow> bool" where
  "quiet p w \<longleftrightarrow> \<not> mtxSubscribers w \<and> (\<forall>v. notSubscribed p v w) \<and> chansMade (heap w p)"

lemma quietD:
  assumes "quiet p w"
  shows "\<not> mtxSubscribers w" "\<forall>v. notSubscribed p v w" "chansMade (heap w p)" "txChan (heap w p) \<noteq> None"
  using assms by (auto simp: quiet_def chansMade_def)

lemma sideOf_fields [simp]:
  "sdDir (sideOf p w) = direction (heap w p)" "sdState (sideOf p w) = state (heap w p)"
  "sdKeep (sideOf p w) = peerKeepalive (heap w p)" "sdTx (sideOf p w) = txQueue w p"
  "sdAnn (sideOf p w) = myAnnouncements w" "sdSubs (sideOf p w) = mySubscriptions w" "sdSrv (sideOf p w) = mbIsServer w"
  by (simp_all add: sideOf_def Let_def)

lemma side_enqueue: "sideOf p (enqueue p pkt w) = (sideOf p w)\<lparr>sdTx := txQueue w p @ [pkt]\<rparr>"
  by (simp add: sideOf_def Let_def) (simp add: enqueue_def)

lemma quiet_enqueue: "quiet p w \<Longrightarrow> quiet p (enqueue p pkt w)"
  by (auto simp: quiet_def chansMade_enqueue notSubscribed_def)

lemma side_sendMany: "sideOf p (sendMany p pkts w) = (sideOf p w)\<lparr>sdTx := txQueue w p @ pkts\<rparr>"
proof (induction pkts arbitrary: w)
  case Nil
  show ?case by (simp add: sendMany_def sideOf_def Let_def)
next
  case (Cons pkt pkts)
  have "sendMany p (pkt # pkts) w = sendMany p pkts (enqueue p pkt w)" by (simp add: sendMany_def)
  then show ?case by (simp add: Cons side_enqueue)
qed

lemma quiet_sendMany: "quiet p w \<Longrightarrow> quiet p (sendMany p pkts w)"
  by (induction pkts arbitrary: w) (simp_all add: sendMany_def quiet_enqueue)

text \<open>Changes of the peer that keep its channels.\<close>

lemma quiet_updPeer: "quiet p w \<Longrightarrow> chansMade (f (heap w p)) \<Longrightarrow> quiet p (updPeer p f w)"
  by (simp add: quiet_def)

lemma quiet_spawned [simp]: "quiet p (w\<lparr>spawned := gs\<rparr>) = quiet p w"
  by (simp add: quiet_def notSubscribed_def)

lemma side_spawned [simp]: "sideOf p (w\<lparr>spawned := gs\<rparr>) = sideOf p w"
  by (simp add: sideOf_def Let_def txQueue_def)

lemma side_state: "sideOf p (updPeer p (\<lambda>x. x\<lparr>state := st\<rparr>) w) = (sideOf p w)\<lparr>sdState := st\<rparr>"
  by (simp add: sideOf_def Let_def txQueue_def)

section \<open>The steps of the exchange\<close>

lemma ran_eq: "f w = (Returns (), w') \<Longrightarrow> ran f w = Some w'"
  by (simp add: ran_def)

lemma handled_eq: "handleSelect E p c w = (Returns (Some True), w') \<Longrightarrow> handled E p c w = Some w'"
  by (simp add: handled_def)

text \<open>The start of \<open>handle\<close>'s other goroutines; the client says HELLO.\<close>

lemma connected_step:
  assumes "quiet p w" "state (heap w p) \<noteq> CLOSED"
    "encodeMessage (cdc E) (MsgHello \<lparr>helloKeepaliveInterval = peerKeepalive (heap w p), helloIsServer = False\<rparr>) = Inr pkt"
  shows "\<exists>w'. ran (handleConnected E p) w = Some w' \<and> quiet p w' \<and> sideOf p w' =
     (if direction (heap w p) = OUTGOING then (sideOf p w)\<lparr>sdTx := txQueue w p @ [pkt], sdState := HELLO_SENT\<rparr> else sideOf p w)"
proof -
  let ?w = "w\<lparr>spawned := (spawned w @ [GoRxLoop p]) @ [GoTxLoop p]\<rparr>"
  show ?thesis
  proof (cases "direction (heap w p) = OUTGOING")
    case True
    have send: "sendMessage E p (MsgHello \<lparr>helloKeepaliveInterval = peerKeepalive (heap w p), helloIsServer = False\<rparr>) ?w =
        (Returns None, enqueue p pkt ?w)"
      using sendMessage_run [of ?w p E] assms(2,3) quietD(4) [OF assms(1)] by simp
    have q: "quiet p (enqueue p pkt ?w)" by (rule quiet_enqueue) (use assms(1) in simp)
    note st = setState_quiet [OF quietD(1) [OF q] quietD(2) [OF q, rule_format], of HELLO_SENT E]
    let ?w' = "updPeer p (\<lambda>x. x\<lparr>state := HELLO_SENT\<rparr>) (enqueue p pkt ?w)"
    have "handleConnected E p w = (Returns (), ?w')"
      using True send st by (simp add: handleConnected_def goStart_def)
    moreover have "quiet p ?w'"
      by (rule quiet_updPeer [OF q]) (use quietD(3) [OF q] in \<open>simp add: chansMade_def\<close>)
    moreover have "txQueue ?w p = txQueue w p" by (simp add: txQueue_def)
    ultimately show ?thesis using True by (auto simp: ran_eq side_state side_enqueue)
  next
    case False
    then have "handleConnected E p w = (Returns (), ?w)" by (simp add: handleConnected_def goStart_def)
    then show ?thesis using False assms(1) by (auto simp: ran_eq)
  qed
qed

text \<open>A HELLO is read.\<close>

lemma hello_step:
  assumes "quiet p w" "sdHello (sideOf p w) = m # ms" "1 \<le> helloKeepaliveInterval m"
    and "ka = min (helloKeepaliveInterval m) (peerKeepalive (heap w p))"
    and "encodeMessage (cdc E) (MsgHello \<lparr>helloKeepaliveInterval = ka, helloIsServer = mbIsServer w\<rparr>) = Inr pkt"
  shows "\<exists>w'. handled E p OnHello w = Some w' \<and> quiet p w' \<and> sideOf p w' =
     (if direction (heap w p) = INCOMING
      then (sideOf p w)\<lparr>sdHello := ms, sdKeep := ka, sdState := HELLO_SENT, sdTx := txQueue w p @ [pkt]\<rparr>
      else (sideOf p w)\<lparr>sdHello := ms, sdKeep := ka, sdState := HELLO_RECEIVED\<rparr>)"
proof -
  let ?w = "updPeer p (rxHello_update (\<lambda>_. Some ms)) w"
  have rx: "rxHello (heap w p) = Some (m # ms)"
    using assms(2) quietD(3) [OF assms(1)] by (auto simp: sideOf_def Let_def chansMade_def)
  have q: "quiet p ?w" using quietD(3) [OF assms(1)] by (intro quiet_updPeer assms(1)) (simp add: chansMade_def)
  let ?h = "helloDone p ka (helloIsServer m) ?w"
  have run: "processRxHello E p m ?w = (Returns (), if direction (heap w p) = INCOMING
      then updPeer p (\<lambda>x. x\<lparr>state := HELLO_SENT\<rparr>) (enqueue p pkt ?h) else ?h)"
    using processRxHello_run [OF quietD(1,2,4) [OF q] assms(3), of ka E pkt] assms(4,5) by simp
  have qh: "quiet p ?h"
    using quiet_updPeer [OF q] quietD(3) [OF q] by (simp add: helloDone_def chansMade_def)
  have qs: "quiet p (updPeer p (\<lambda>x. x\<lparr>state := HELLO_SENT\<rparr>) (enqueue p pkt ?h))"
    using quietD(3) [OF quiet_enqueue [OF qh, of pkt]]
    by (intro quiet_updPeer quiet_enqueue qh) (simp add: chansMade_def)
  have side: "sideOf p ?h = (sideOf p w)\<lparr>sdHello := ms, sdKeep := ka, sdState := HELLO_RECEIVED\<rparr>" "txQueue ?h p = txQueue w p"
    by (simp_all add: helloDone_def) (simp_all add: sideOf_def Let_def txQueue_def)
  have "handleSelect E p OnHello w = (Returns (Some True), if direction (heap w p) = INCOMING
      then updPeer p (\<lambda>x. x\<lparr>state := HELLO_SENT\<rparr>) (enqueue p pkt ?h) else ?h)"
    using rx run by (simp add: handleSelect_def setPeer_def)
  then show ?thesis
    using qh qs side by (cases "direction (heap w p) = INCOMING") (simp_all add: handled_eq side_state side_enqueue)
qed

text \<open>The keepalive goroutine starts; the client's sends the first KEEPALIVE.\<close>

lemma keepalive_start_step:
  assumes "quiet p w" "1 \<le> peerKeepalive (heap w p)" "state (heap w p) \<noteq> CLOSED"
  shows "\<exists>w'. ran (keepaliveInit E p) w = Some w' \<and> quiet p w' \<and> sideOf p w' =
     (if direction (heap w p) = OUTGOING then (sideOf p w)\<lparr>sdTx := txQueue w p @ [pktOf E MsgKeepalive]\<rparr> else sideOf p w)"
proof -
  let ?w = "updPeer p (\<lambda>x. x\<lparr>wg := Suc (wg x), keepaliveTimer := Some (keepaliveTimeout (peerKeepalive x))\<rparr>) w"
  have q: "quiet p ?w" using quietD(3) [OF assms(1)] by (intro quiet_updPeer assms(1)) (simp add: chansMade_def)
  have side: "sideOf p ?w = sideOf p w" "txQueue ?w p = txQueue w p" by (simp_all add: sideOf_def Let_def txQueue_def)
  have "0 < uint (peerKeepalive (heap w p))" using assms(2) by (simp add: word_le_def)
  then have tick: "\<not> keepaliveTick (peerKeepalive (heap w p)) \<le> 0" by (simp add: keepaliveTick_exact)
  have send: "sendMessage E p MsgKeepalive ?w = (Returns None, enqueue p (pktOf E MsgKeepalive) ?w)"
    using sendMessage_run [of ?w p E MsgKeepalive] quietD(4) [OF q] encodable_pktOf [OF encodable_keepalive, of E] assms(3) by simp
  have upd: "updPeer p (\<lambda>x. x\<lparr>keepaliveTimer := Some (keepaliveTimeout (peerKeepalive x))\<rparr>)
      (updPeer p (\<lambda>x. x\<lparr>wg := Suc (wg x)\<rparr>) w) = ?w"
    by (simp add: updPeer_updPeer comp_def)
  have "keepaliveInit E p w = (Returns (),
      if direction (heap w p) = OUTGOING then enqueue p (pktOf E MsgKeepalive) ?w else ?w)"
    using tick send upd by (simp add: keepaliveInit_def wgAdd_def setPeer_def)
  then show ?thesis
    using q quiet_enqueue [OF q] side by (cases "direction (heap w p) = OUTGOING") (simp_all add: ran_eq side_enqueue)
qed

text \<open>A KEEPALIVE is read: the session is established, and all the node has for the peer is sent.\<close>

lemma side_keepaliveReset:
  assumes "quiet p w"
  shows "\<exists>w'. resetKeepaliveTimeout p w = (Returns (), w') \<and> quiet p w' \<and> sideOf p w' = sideOf p w"
proof -
  let ?w = "updPeer p (\<lambda>x. x\<lparr>keepaliveTimer := Some (keepaliveTimeout (peerKeepalive x))\<rparr>) w"
  have "quiet p ?w" using quietD(3) [OF assms] by (intro quiet_updPeer assms) (simp add: chansMade_def)
  moreover have "sideOf p ?w = sideOf p w" by (simp add: sideOf_def Let_def txQueue_def)
  ultimately show ?thesis using assms by (simp add: resetKeepaliveTimeout_def setPeer_def)
qed

definition subscribeMsgs :: "(VNI, bool) gomap \<Rightarrow> message list" where
  "subscribeMsgs vs = map (\<lambda>v. MsgSubscribe \<lparr>subscribeVNI = v\<rparr>) (gkeys vs)"

definition announceMsgs :: "routeTable \<Rightarrow> message list" where
  "announceMsgs rt = map (\<lambda>(v, d, h). updateMsg ADD v d h) (announced rt)"

lemma keepalive_step:
  assumes "quiet p w" "sdAlive (sideOf p w) = Suc n"
    and "state (heap w p) = (if direction (heap w p) = INCOMING then HELLO_SENT else HELLO_RECEIVED)"
  shows "\<exists>w'. handled E p OnKeepalive w = Some w' \<and> quiet p w' \<and> sideOf p w' =
     (sideOf p w)\<lparr>sdAlive := n, sdState := ESTABLISHED, sdTx := txQueue w p @
        (if direction (heap w p) = OUTGOING then packets E (subscribeMsgs (mySubscriptions w)) else []) @
        packets E (announceMsgs (myAnnouncements w)) @
        (if direction (heap w p) = INCOMING then [pktOf E MsgKeepalive] else [])\<rparr>"
proof -
  let ?w = "updPeer p (rxKeepalive_update (\<lambda>_. Some n)) w"
  let ?out = "(if direction (heap w p) = OUTGOING then packets E (subscribeMsgs (mySubscriptions w)) else []) @
    packets E (announceMsgs (myAnnouncements w))"
  let ?w1 = "sendMany p ?out (updPeer p (\<lambda>x. x\<lparr>state := ESTABLISHED\<rparr>) ?w)"
  have rx: "rxKeepalive (heap w p) = Some (Suc n)"
    using assms(2) quietD(3) [OF assms(1)] by (auto simp: sideOf_def Let_def chansMade_def)
  have q: "quiet p ?w" using quietD(3) [OF assms(1)] by (intro quiet_updPeer assms(1)) (simp add: chansMade_def)
  have q1: "quiet p ?w1"
    by (rule quiet_sendMany [OF quiet_updPeer [OF q]]) (use quietD(3) [OF q] in \<open>simp add: chansMade_def\<close>)
  have est: "setState E p ESTABLISHED ?w = (Returns (), ?w1)"
    using setState_established [of ?w p E] quietD(4) [OF q] assms(3) by (simp add: subscribeMsgs_def announceMsgs_def)
  have "sideOf p ?w = (sideOf p w)\<lparr>sdAlive := n\<rparr>" "txQueue ?w p = txQueue w p"
    by (simp_all add: sideOf_def Let_def txQueue_def)
  then have side1: "sideOf p ?w1 = (sideOf p w)\<lparr>sdAlive := n, sdState := ESTABLISHED, sdTx := txQueue w p @ ?out\<rparr>"
    by (simp add: side_sendMany side_state txQueue_def)
  obtain w2 where w2: "resetKeepaliveTimeout p ?w1 = (Returns (), w2)" "quiet p w2" "sideOf p w2 = sideOf p ?w1"
    using side_keepaliveReset [OF q1] by blast
  have fields: "state (heap w2 p) = ESTABLISHED" "txQueue w2 p = txQueue w p @ ?out"
    using arg_cong [OF w2(3), of sdState] arg_cong [OF w2(3), of sdTx] side1 by simp_all
  have send: "sendMessage E p MsgKeepalive w2 = (Returns None, enqueue p (pktOf E MsgKeepalive) w2)"
    using sendMessage_run [of w2 p E MsgKeepalive] quietD(4) [OF w2(2)] fields(1)
      encodable_pktOf [OF encodable_keepalive, of E] by simp
  let ?w3 = "if direction (heap w p) = INCOMING then enqueue p (pktOf E MsgKeepalive) w2 else w2"
  have "processRxKeepalive E p ?w = (Returns (), ?w3)"
    using assms(3) est w2(1) send
    by (cases "direction (heap w p)") (simp_all add: processRxKeepalive_def Let_def)
  then have "handled E p OnKeepalive w = Some ?w3"
    using rx by (simp add: handled_def handleSelect_def setPeer_def)
  moreover have "quiet p ?w3" using w2(2) quiet_enqueue [OF w2(2)] by simp
  moreover have "sideOf p ?w3 = (sideOf p w)\<lparr>sdAlive := n, sdState := ESTABLISHED, sdTx := txQueue w p @
        ?out @ (if direction (heap w p) = INCOMING then [pktOf E MsgKeepalive] else [])\<rparr>"
    using w2(3) side1 fields(2) by (simp add: side_enqueue)
  ultimately show ?thesis by simp
qed

text \<open>Messages go over, seen from both sides.\<close>

definition sideInto :: "message \<Rightarrow> side \<Rightarrow> side" where
  "sideInto msg s = (case msg of
     MsgHello m \<Rightarrow> s\<lparr>sdHello := sdHello s @ [m]\<rparr>
   | MsgKeepalive \<Rightarrow> s\<lparr>sdAlive := Suc (sdAlive s)\<rparr>
   | MsgUpdate m \<Rightarrow> s\<lparr>sdUpd := sdUpd s @ [m]\<rparr>
   | _ \<Rightarrow> s)"

lemma side_deliverInto:
  assumes "quiet q w"
  shows "sideOf q (updPeer q (deliverInto m) w) = sideInto m (sideOf q w)"
  using quietD(3) [OF assms]
  by (cases m) (auto simp: sideOf_def Let_def deliverInto_def sideInto_def chansMade_def txQueue_def)

lemma side_deliverAll:
  assumes "quiet q w"
  shows "quiet q (updPeer q (fold (deliverInto \<circ> received) ms) w) \<and>
     sideOf q (updPeer q (fold (deliverInto \<circ> received) ms) w) = fold (sideInto \<circ> received) ms (sideOf q w)"
  using assms
proof (induction ms arbitrary: w)
  case Nil
  have "updPeer q (\<lambda>x. x) w = w" by (simp add: updPeer_def)
  then show ?case using Nil by (simp add: id_def)
next
  case (Cons m ms)
  let ?w = "updPeer q (deliverInto (received m)) w"
  have q: "quiet q ?w" by (rule quiet_updPeer [OF Cons.prems]) (use quietD(3) [OF Cons.prems] in simp)
  show ?case
    using Cons.IH [OF q] by (simp add: updPeer_updPeer comp_def side_deliverInto [OF Cons.prems])
qed

lemma transfers_step:
  assumes "proto_codec (cdc EB)" "cdc EA = cdc EB" "list_all (encodable EA) ms" "length buf = 65535"
    and "quiet p a" "quiet q b" "txQueue a p = map (pktOf EA) ms"
    and "state (heap b q) \<noteq> CLOSED" "state (heap b q) \<noteq> RETRY"
  shows "\<exists>buf' a' b'. transfers (length ms) EB p q (buf, a, b) = Some (buf', a', b') \<and> length buf' = 65535 \<and>
     quiet p a' \<and> quiet q b' \<and> sideOf p a' = (sideOf p a)\<lparr>sdTx := []\<rparr> \<and>
     sideOf q b' = fold (sideInto \<circ> received) ms (sideOf q b)"
proof -
  let ?a = "updPeer p (txChan_update (\<lambda>_. Some [])) a"
  have "reads EA EB q b" using assms(1,2,8,9) quietD(3) [OF assms(6)] by (simp add: reads_def)
  moreover have "txChan (heap a p) = Some (map (pktOf EA) ms)"
    using assms(7) quietD(4) [OF assms(5)] by (auto simp: txQueue_def)
  ultimately obtain buf' where "length buf' = 65535" "transfers (length ms) EB p q (buf, a, b) =
     Some (buf', ?a, updPeer q (fold (deliverInto \<circ> received) ms) b)"
    using transfers_run [OF _ assms(3,4), of EB q b a p] by blast
  moreover have "quiet p ?a" using quietD(3) [OF assms(5)] by (intro quiet_updPeer assms(5)) (simp add: chansMade_def)
  moreover have "sideOf p ?a = (sideOf p a)\<lparr>sdTx := []\<rparr>" by (simp add: sideOf_def Let_def txQueue_def)
  ultimately show ?thesis using side_deliverAll [OF assms(6)] by blast
qed

definition announcedUpdates :: "routeTable \<Rightarrow> msgUpdate list" where
  "announcedUpdates rt = map (\<lambda>(v, d, h). \<lparr>updAction = ADD, updVNI = v, updDestination = d, updNextHop = h\<rparr>) (announced rt)"

lemma sideInto_updates:
  "fold (sideInto \<circ> received) (announceMsgs rt) s = s\<lparr>sdUpd := sdUpd s @ announcedUpdates rt\<rparr>"
proof -
  have "fold (sideInto \<circ> received) (map (\<lambda>(v, d, h). updateMsg ADD v d h) xs) s = s\<lparr>sdUpd := sdUpd s @
      map (\<lambda>(v, d, h). \<lparr>updAction = ADD, updVNI = v, updDestination = d, updNextHop = h\<rparr>) xs\<rparr>" for xs
    by (induction xs arbitrary: s) (auto simp: received_def sideInto_def updateMsg_def)
  then show ?thesis by (simp add: announceMsgs_def announcedUpdates_def)
qed

section \<open>The exchange\<close>

text \<open>
  The rounds of the goroutines of both sides, in the order of the messages: HELLO from the client,
  HELLO from the server, KEEPALIVE from the client, KEEPALIVE from the server, which is queued
  behind the server's announcements.
\<close>

definition handshake :: "'a env \<Rightarrow> 'b env \<Rightarrow> nat \<Rightarrow> nat \<Rightarrow> byte list \<Rightarrow> byte list \<Rightarrow> 'a world \<Rightarrow> 'b world
    \<Rightarrow> ('a world \<times> 'b world) option" where
  "handshake EA EB p q bufA bufB a b = do {
     a1 \<leftarrow> ran (handleConnected EA p) a;
     b1 \<leftarrow> ran (handleConnected EB q) b;
     (bufB, a2, b2) \<leftarrow> transfers 1 EB p q (bufB, a1, b1);
     b3 \<leftarrow> handled EB q OnHello b2;
     b4 \<leftarrow> ran (keepaliveInit EB q) b3;
     (bufA, b5, a3) \<leftarrow> transfers 1 EA q p (bufA, b4, a2);
     a4 \<leftarrow> handled EA p OnHello a3;
     a5 \<leftarrow> ran (keepaliveInit EA p) a4;
     (bufB, a6, b6) \<leftarrow> transfers 1 EB p q (bufB, a5, b5);
     b7 \<leftarrow> handled EB q OnKeepalive b6;
     (bufA, b8, a7) \<leftarrow> transfers (length (txQueue b7 q)) EA q p (bufA, b7, a6);
     a8 \<leftarrow> handled EA p OnKeepalive a7;
     Some (a8, b8) }"

text \<open>One side before the exchange.\<close>

definition fresh :: "ConnectionDirection \<Rightarrow> nat \<Rightarrow> 'c world \<Rightarrow> bool" where
  "fresh dir p w \<longleftrightarrow> quiet p w \<and> direction (heap w p) = dir \<and> state (heap w p) = CONNECTING \<and>
     1 \<le> peerKeepalive (heap w p) \<and> txChan (heap w p) = Some [] \<and> rxHello (heap w p) = Some [] \<and>
     rxKeepalive (heap w p) = Some 0 \<and> rxUpdate (heap w p) = Some []"

lemma freshD:
  assumes "fresh dir p w"
  shows "quiet p w" "sideOf p w = \<lparr>sdDir = dir, sdState = CONNECTING, sdKeep = peerKeepalive (heap w p), sdTx = [],
     sdHello = [], sdAlive = 0, sdUpd = [], sdAnn = myAnnouncements w, sdSubs = mySubscriptions w, sdSrv = mbIsServer w\<rparr>"
    "1 \<le> peerKeepalive (heap w p)"
  using assms by (simp_all add: fresh_def sideOf_def Let_def txQueue_def)

lemma sideOf_iff:
  assumes "sideOf p w = \<lparr>sdDir = dir, sdState = st, sdKeep = ka, sdTx = tx, sdHello = hs, sdAlive = n, sdUpd = us,
     sdAnn = rt, sdSubs = vs, sdSrv = b\<rparr>"
  shows "direction (heap w p) = dir" "state (heap w p) = st" "peerKeepalive (heap w p) = ka" "txQueue w p = tx"
    "myAnnouncements w = rt" "mySubscriptions w = vs" "mbIsServer w = b"
  using arg_cong [OF assms, of sdDir] arg_cong [OF assms, of sdState] arg_cong [OF assms, of sdKeep]
    arg_cong [OF assms, of sdTx] arg_cong [OF assms, of sdAnn] arg_cong [OF assms, of sdSubs] arg_cong [OF assms, of sdSrv]
  by simp_all

text \<open>The client's HELLO and the server's answer.\<close>

definition helloMsg :: "32 word \<Rightarrow> bool \<Rightarrow> message" where
  "helloMsg ka srv = MsgHello \<lparr>helloKeepaliveInterval = ka, helloIsServer = srv\<rparr>"

lemma client_hello:
  assumes "fresh OUTGOING p a" "fresh INCOMING q b" "proto_codec (cdc EB)" "cdc EA = cdc EB" "length buf = 65535"
    and "encodable EA (helloMsg (peerKeepalive (heap a p)) False)"
  shows "\<exists>a1 b1 buf' a2 b2. ran (handleConnected EA p) a = Some a1 \<and> ran (handleConnected EB q) b = Some b1 \<and>
     transfers 1 EB p q (buf, a1, b1) = Some (buf', a2, b2) \<and> length buf' = 65535 \<and> quiet p a2 \<and> quiet q b2 \<and>
     sideOf p a2 = (sideOf p a)\<lparr>sdState := HELLO_SENT\<rparr> \<and>
     sideOf q b2 = (sideOf q b)\<lparr>sdHello := [\<lparr>helloKeepaliveInterval = peerKeepalive (heap a p), helloIsServer = False\<rparr>]\<rparr>"
proof -
  let ?m = "helloMsg (peerKeepalive (heap a p)) False"
  note fa = freshD [OF assms(1)] and fb = freshD [OF assms(2)]
  have ra: "state (heap a p) = CONNECTING" "direction (heap a p) = OUTGOING" "txQueue a p = []"
    "state (heap b q) = CONNECTING" "direction (heap b q) = INCOMING"
    using sideOf_iff [OF fa(2)] sideOf_iff [OF fb(2)] by simp_all
  obtain a1 where a1: "ran (handleConnected EA p) a = Some a1" "quiet p a1"
      "sideOf p a1 = (sideOf p a)\<lparr>sdTx := [pktOf EA ?m], sdState := HELLO_SENT\<rparr>"
    using connected_step [OF fa(1), of EA "pktOf EA ?m"] encodable_pktOf [OF assms(6)] ra by (auto simp: helloMsg_def)
  let ?w = "b\<lparr>spawned := (spawned b @ [GoRxLoop q]) @ [GoTxLoop q]\<rparr>"
  have b1: "ran (handleConnected EB q) b = Some ?w" "quiet q ?w" "sideOf q ?w = sideOf q b"
    using ra(5) fb(1) by (simp_all add: ran_def handleConnected_def goStart_def)
  have "txQueue a1 p = map (pktOf EA) [?m]" using arg_cong [OF a1(3), of sdTx] by simp
  then obtain buf' a2 b2 where t: "transfers 1 EB p q (buf, a1, ?w) = Some (buf', a2, b2)" "length buf' = 65535"
      "quiet p a2" "quiet q b2" "sideOf p a2 = (sideOf p a1)\<lparr>sdTx := []\<rparr>"
      "sideOf q b2 = fold (sideInto \<circ> received) [?m] (sideOf q ?w)"
    using transfers_step [OF assms(3,4) _ assms(5) a1(2) b1(2), of "[?m]"] assms(6) ra(4) by auto
  have "sideOf p a2 = (sideOf p a)\<lparr>sdState := HELLO_SENT\<rparr>"
    unfolding t(5) a1(3) fa(2) by simp
  moreover have "sideOf q b2 = (sideOf q b)\<lparr>sdHello := [\<lparr>helloKeepaliveInterval = peerKeepalive (heap a p), helloIsServer = False\<rparr>]\<rparr>"
    unfolding t(6) b1(3) fb(2) by (simp add: helloMsg_def received_def sideInto_def)
  ultimately show ?thesis using a1(1) b1(1) t(1-4) by blast
qed

text \<open>The server answers; both know the interval, and the client starts the keepalives.\<close>

lemma server_hello:
  assumes "quiet p a" "quiet q b" "proto_codec (cdc EA)" "cdc EB = cdc EA" "length buf = 65535"
    and "sideOf p a = \<lparr>sdDir = OUTGOING, sdState = HELLO_SENT, sdKeep = ka, sdTx = [], sdHello = [], sdAlive = 0,
      sdUpd = [], sdAnn = ra, sdSubs = sa, sdSrv = va\<rparr>"
    and "sideOf q b = \<lparr>sdDir = INCOMING, sdState = CONNECTING, sdKeep = kb, sdTx = [],
      sdHello = [\<lparr>helloKeepaliveInterval = ka, helloIsServer = False\<rparr>], sdAlive = 0,
      sdUpd = [], sdAnn = rb, sdSubs = sb, sdSrv = vb\<rparr>"
    and "1 \<le> ka" "1 \<le> kb" "encodable EB (helloMsg (min ka kb) vb)" "encodable EA (helloMsg (min ka kb) va)"
  shows "\<exists>b3 b4 buf' b5 a3 a4 a5. handled EB q OnHello b = Some b3 \<and> ran (keepaliveInit EB q) b3 = Some b4 \<and>
     transfers 1 EA q p (buf, b4, a) = Some (buf', b5, a3) \<and> length buf' = 65535 \<and>
     handled EA p OnHello a3 = Some a4 \<and> ran (keepaliveInit EA p) a4 = Some a5 \<and> quiet p a5 \<and> quiet q b5 \<and>
     sideOf p a5 = (sideOf p a)\<lparr>sdState := HELLO_RECEIVED, sdKeep := min ka kb, sdTx := [pktOf EA MsgKeepalive]\<rparr> \<and>
     sideOf q b5 = (sideOf q b)\<lparr>sdState := HELLO_SENT, sdKeep := min ka kb, sdHello := []\<rparr>"
proof -
  let ?ka = "min ka kb" and ?m = "helloMsg (min ka kb) vb"
  have pos: "1 \<le> ?ka" using assms(8,9) by (simp add: min_def)
  note fa = sideOf_iff [OF assms(6)] and fb = sideOf_iff [OF assms(7)]
  obtain b3 where b3: "handled EB q OnHello b = Some b3" "quiet q b3"
      "sideOf q b3 = (sideOf q b)\<lparr>sdHello := [], sdKeep := ?ka, sdState := HELLO_SENT, sdTx := [pktOf EB ?m]\<rparr>"
    using hello_step [OF assms(2), of "\<lparr>helloKeepaliveInterval = ka, helloIsServer = False\<rparr>" "[]" ?ka EB "pktOf EB ?m"]
      encodable_pktOf [OF assms(10)] fb assms(7,8) by (auto simp: helloMsg_def)
  have f3: "direction (heap b3 q) = INCOMING" "peerKeepalive (heap b3 q) = ?ka" "state (heap b3 q) = HELLO_SENT"
    using sideOf_iff [OF b3(3) [unfolded assms(7), simplified]] by simp_all
  obtain b4 where b4: "ran (keepaliveInit EB q) b3 = Some b4" "quiet q b4" "sideOf q b4 = sideOf q b3"
    using keepalive_start_step [OF b3(2), of EB] f3 pos by auto
  have "txQueue b4 q = map (pktOf EB) [?m]" using arg_cong [OF b4(3), of sdTx] arg_cong [OF b3(3), of sdTx] by simp
  then obtain buf' b5 a3 where t: "transfers 1 EA q p (buf, b4, a) = Some (buf', b5, a3)" "length buf' = 65535"
      "quiet q b5" "quiet p a3" "sideOf q b5 = (sideOf q b4)\<lparr>sdTx := []\<rparr>"
      "sideOf p a3 = fold (sideInto \<circ> received) [?m] (sideOf p a)"
    using transfers_step [OF assms(3,4) _ assms(5) b4(2) assms(1), of "[?m]"] assms(10) fa(2) by auto
  have s3: "sideOf p a3 = \<lparr>sdDir = OUTGOING, sdState = HELLO_SENT, sdKeep = ka, sdTx = [],
      sdHello = [\<lparr>helloKeepaliveInterval = ?ka, helloIsServer = False\<rparr>], sdAlive = 0,
      sdUpd = [], sdAnn = ra, sdSubs = sa, sdSrv = va\<rparr>"
    unfolding t(6) assms(6) by (simp add: helloMsg_def received_def sideInto_def)
  note g3 = sideOf_iff [OF s3]
  obtain a4 where a4: "handled EA p OnHello a3 = Some a4" "quiet p a4"
      "sideOf p a4 = (sideOf p a3)\<lparr>sdHello := [], sdKeep := ?ka, sdState := HELLO_RECEIVED\<rparr>"
    using hello_step [OF t(4), of "\<lparr>helloKeepaliveInterval = ?ka, helloIsServer = False\<rparr>" "[]" ?ka EA "pktOf EA (helloMsg ?ka va)"]
      encodable_pktOf [OF assms(11)] g3 s3 pos by (auto simp: helloMsg_def)
  note g4 = sideOf_iff [OF a4(3) [unfolded s3, simplified]]
  obtain a5 where a5: "ran (keepaliveInit EA p) a4 = Some a5" "quiet p a5"
      "sideOf p a5 = (sideOf p a4)\<lparr>sdTx := [pktOf EA MsgKeepalive]\<rparr>"
    using keepalive_start_step [OF a4(2), of EA] g4 pos by auto
  have "sideOf p a5 = (sideOf p a)\<lparr>sdState := HELLO_RECEIVED, sdKeep := ?ka, sdTx := [pktOf EA MsgKeepalive]\<rparr>"
    unfolding a5(3) a4(3) s3 assms(6) by simp
  moreover have "sideOf q b5 = (sideOf q b)\<lparr>sdState := HELLO_SENT, sdKeep := ?ka, sdHello := []\<rparr>"
    unfolding t(5) b4(3) b3(3) assms(7) by simp
  ultimately show ?thesis using b3(1) b4(1) t(1-3) a4(1) a5(1,2) by blast
qed

text \<open>The KEEPALIVEs establish both sides.\<close>

lemma both_keepalives:
  assumes "quiet p a" "quiet q b" "proto_codec (cdc EA)" "cdc EB = cdc EA" "length bufA = 65535" "length bufB = 65535"
    and "sideOf p a = \<lparr>sdDir = OUTGOING, sdState = HELLO_RECEIVED, sdKeep = ka, sdTx = [pktOf EA MsgKeepalive], sdHello = [],
      sdAlive = 0, sdUpd = [], sdAnn = ra, sdSubs = sa, sdSrv = va\<rparr>"
    and "sideOf q b = \<lparr>sdDir = INCOMING, sdState = HELLO_SENT, sdKeep = ka, sdTx = [], sdHello = [], sdAlive = 0,
      sdUpd = [], sdAnn = rb, sdSubs = sb, sdSrv = vb\<rparr>"
    and "list_all (encodable EB) (announceMsgs rb)"
  shows "\<exists>bufB' a6 b6 b7 bufA' b8 a7 a8. transfers 1 EB p q (bufB, a, b) = Some (bufB', a6, b6) \<and>
     handled EB q OnKeepalive b6 = Some b7 \<and>
     transfers (length (txQueue b7 q)) EA q p (bufA, b7, a6) = Some (bufA', b8, a7) \<and>
     handled EA p OnKeepalive a7 = Some a8 \<and> quiet p a8 \<and> quiet q b8 \<and>
     sideOf p a8 = (sideOf p a)\<lparr>sdState := ESTABLISHED, sdUpd := announcedUpdates rb,
       sdTx := packets EA (subscribeMsgs sa @ announceMsgs ra)\<rparr> \<and>
     sideOf q b8 = (sideOf q b)\<lparr>sdState := ESTABLISHED\<rparr>"
proof -
  note fa = sideOf_iff [OF assms(7)] and fb = sideOf_iff [OF assms(8)]
  let ?ms = "announceMsgs rb @ [MsgKeepalive]"
  have cb: "proto_codec (cdc EB)" "cdc EA = cdc EB" using assms(3,4) by simp_all
  obtain bufB' a6 b6 where t: "transfers 1 EB p q (bufB, a, b) = Some (bufB', a6, b6)"
      "quiet p a6" "quiet q b6" "sideOf p a6 = (sideOf p a)\<lparr>sdTx := []\<rparr>"
      "sideOf q b6 = fold (sideInto \<circ> received) [MsgKeepalive] (sideOf q b)"
    using transfers_step [OF cb _ assms(6) assms(1,2), of "[MsgKeepalive]"] fa fb by (auto simp: encodable_keepalive)
  have s6: "sideOf q b6 = (sideOf q b)\<lparr>sdAlive := 1\<rparr>" unfolding t(5) assms(8) by (simp add: received_def sideInto_def)
  note g6 = sideOf_iff [OF s6 [unfolded assms(8), simplified]]
  have "packets EB (announceMsgs rb) = map (pktOf EB) (announceMsgs rb)" by (rule packets_pktOf [OF assms(9)])
  then obtain b7 where b7: "handled EB q OnKeepalive b6 = Some b7" "quiet q b7"
      "sideOf q b7 = (sideOf q b6)\<lparr>sdAlive := 0, sdState := ESTABLISHED, sdTx := map (pktOf EB) ?ms\<rparr>"
    using keepalive_step [OF t(3), of 0 EB] s6 g6 by auto
  have tx: "txQueue b7 q = map (pktOf EB) ?ms" using arg_cong [OF b7(3), of sdTx] by simp
  have a6: "state (heap a6 p) = HELLO_RECEIVED" using arg_cong [OF t(4), of sdState] fa by simp
  have "list_all (encodable EB) ?ms" using assms(9) by (simp add: encodable_keepalive)
  then obtain bufA' b8 a7 where u: "transfers (length (txQueue b7 q)) EA q p (bufA, b7, a6) = Some (bufA', b8, a7)"
      "quiet q b8" "quiet p a7" "sideOf q b8 = (sideOf q b7)\<lparr>sdTx := []\<rparr>"
      "sideOf p a7 = fold (sideInto \<circ> received) ?ms (sideOf p a6)"
    using transfers_step [OF assms(3,4) _ assms(5) b7(2) t(2), of ?ms] tx a6 by auto
  have s7: "sideOf p a7 = \<lparr>sdDir = OUTGOING, sdState = HELLO_RECEIVED, sdKeep = ka, sdTx = [], sdHello = [],
      sdAlive = 1, sdUpd = announcedUpdates rb, sdAnn = ra, sdSubs = sa, sdSrv = va\<rparr>"
    unfolding u(5) t(4) assms(7) fold_append comp_def [of _ "fold _ _"] sideInto_updates
    by (simp add: received_def sideInto_def)
  note g7 = sideOf_iff [OF s7]
  obtain a8 where a8: "handled EA p OnKeepalive a7 = Some a8" "quiet p a8"
      "sideOf p a8 = (sideOf p a7)\<lparr>sdAlive := 0, sdState := ESTABLISHED, sdTx := packets EA (subscribeMsgs sa @ announceMsgs ra)\<rparr>"
    using keepalive_step [OF u(3), of 0 EA] s7 g7 by auto
  have "sideOf p a8 = (sideOf p a)\<lparr>sdState := ESTABLISHED, sdUpd := announcedUpdates rb,
      sdTx := packets EA (subscribeMsgs sa @ announceMsgs ra)\<rparr>"
    unfolding a8(3) s7 assms(7) by simp
  moreover have "sideOf q b8 = (sideOf q b)\<lparr>sdState := ESTABLISHED\<rparr>"
    unfolding u(4) b7(3) s6 assms(8) by simp
  ultimately show ?thesis using t(1) b7(1) u(1,2) a8(1,2) by blast
qed

text \<open>
  C14. A client and a server that have just connected run their goroutines in the order of the
  messages, over any two codecs that agree: HELLO, HELLO, KEEPALIVE, KEEPALIVE pass, no goroutine blocks or panics, both sides are
  \<open>ESTABLISHED\<close> with the smaller of the two keepalive intervals, the client has received
  every announcement of the server as an update, in the order of the server's table, and has queued its subscriptions and its own
  announcements, and nothing is left in the server's queue.
\<close>

theorem handshake_establishes:
  assumes "proto_codec (cdc EA)" "cdc EB = cdc EA" "\<forall>ka srv. encodable EA (helloMsg ka srv)"
    and "fresh OUTGOING p a" "fresh INCOMING q b" "length bufA = 65535" "length bufB = 65535"
    and "list_all (encodable EB) (announceMsgs (myAnnouncements b))"
  shows "\<exists>a' b'. handshake EA EB p q bufA bufB a b = Some (a', b') \<and>
     state (heap a' p) = ESTABLISHED \<and> state (heap b' q) = ESTABLISHED \<and>
     peerKeepalive (heap a' p) = min (peerKeepalive (heap a p)) (peerKeepalive (heap b q)) \<and>
     peerKeepalive (heap b' q) = min (peerKeepalive (heap a p)) (peerKeepalive (heap b q)) \<and>
     rxUpdate (heap a' p) = Some (announcedUpdates (myAnnouncements b)) \<and>
     txQueue a' p = packets EA (subscribeMsgs (mySubscriptions a) @ announceMsgs (myAnnouncements a)) \<and>
     txQueue b' q = []"
proof -
  let ?ka = "peerKeepalive (heap a p)" and ?kb = "peerKeepalive (heap b q)"
  note fa = freshD [OF assms(4)] and fb = freshD [OF assms(5)]
  have cb: "proto_codec (cdc EB)" "cdc EA = cdc EB" using assms(1,2) by simp_all
  have eb: "encodable EB (helloMsg ka srv)" for ka srv using assms(2,3) by (simp add: encodable_def)
  obtain a1 b1 bufB1 a2 b2 where h1: "ran (handleConnected EA p) a = Some a1" "ran (handleConnected EB q) b = Some b1"
      "transfers 1 EB p q (bufB, a1, b1) = Some (bufB1, a2, b2)" "length bufB1 = 65535" "quiet p a2" "quiet q b2"
      "sideOf p a2 = (sideOf p a)\<lparr>sdState := HELLO_SENT\<rparr>"
      "sideOf q b2 = (sideOf q b)\<lparr>sdHello := [\<lparr>helloKeepaliveInterval = ?ka, helloIsServer = False\<rparr>]\<rparr>"
    using client_hello [OF assms(4,5) cb assms(7) assms(3) [rule_format]] by blast
  note s2 = h1(7) [unfolded fa(2), simplified] h1(8) [unfolded fb(2), simplified]
  obtain b3 b4 bufA1 b5 a3 a4 a5 where h2: "handled EB q OnHello b2 = Some b3" "ran (keepaliveInit EB q) b3 = Some b4"
      "transfers 1 EA q p (bufA, b4, a2) = Some (bufA1, b5, a3)" "length bufA1 = 65535"
      "handled EA p OnHello a3 = Some a4" "ran (keepaliveInit EA p) a4 = Some a5" "quiet p a5" "quiet q b5"
      "sideOf p a5 = (sideOf p a2)\<lparr>sdState := HELLO_RECEIVED, sdKeep := min ?ka ?kb, sdTx := [pktOf EA MsgKeepalive]\<rparr>"
      "sideOf q b5 = (sideOf q b2)\<lparr>sdState := HELLO_SENT, sdKeep := min ?ka ?kb, sdHello := []\<rparr>"
    using server_hello [OF h1(5,6) assms(1,2,6) s2 fa(3) fb(3) eb assms(3) [rule_format]] by blast
  note s5 = h2(9) [unfolded s2, simplified] h2(10) [unfolded s2, simplified]
  obtain bufB2 a6 b6 b7 bufA2 b8 a7 a8 where h3: "transfers 1 EB p q (bufB1, a5, b5) = Some (bufB2, a6, b6)"
      "handled EB q OnKeepalive b6 = Some b7"
      "transfers (length (txQueue b7 q)) EA q p (bufA1, b7, a6) = Some (bufA2, b8, a7)"
      "handled EA p OnKeepalive a7 = Some a8" "quiet p a8" "quiet q b8"
      "sideOf p a8 = (sideOf p a5)\<lparr>sdState := ESTABLISHED, sdUpd := announcedUpdates (myAnnouncements b),
         sdTx := packets EA (subscribeMsgs (mySubscriptions a) @ announceMsgs (myAnnouncements a))\<rparr>"
      "sideOf q b8 = (sideOf q b5)\<lparr>sdState := ESTABLISHED\<rparr>"
    using both_keepalives [OF h2(7,8) assms(1,2) h2(4) h1(4) s5 assms(8)] by blast
  note s8 = h3(7) [unfolded s5, simplified] h3(8) [unfolded s5, simplified]
  have "handshake EA EB p q bufA bufB a b = Some (a8, b8)"
    unfolding handshake_def using h1(1-3) h2(1-3,5,6) h3(1-4) by simp
  moreover have "rxUpdate (heap a8 p) = Some (announcedUpdates (myAnnouncements b))"
    using arg_cong [OF s8(1), of sdUpd] quietD(3) [OF h3(5)] by (auto simp: sideOf_def Let_def chansMade_def)
  ultimately show ?thesis using sideOf_iff [OF s8(1)] sideOf_iff [OF s8(2)] by auto
qed

text \<open>A HELLO is short, whatever its interval.\<close>

lemma varint_length: "n < 128 ^ Suc k \<Longrightarrow> length (varint n) \<le> Suc k"
proof (induction k arbitrary: n)
  case 0
  then show ?case by (simp add: varint.simps [of n])
next
  case (Suc k)
  have "n div 128 < 128 ^ Suc k" using Suc.prems by (simp add: div_less_iff_less_mult)
  then show ?case using Suc.IH [of "n div 128"] by (simp add: varint.simps [of n])
qed

lemma protoCodec_hello: "encodable exEnv (helloMsg ka srv)"
proof -
  have "unat ka < 2 ^ 32" using unsigned_less [of ka] by simp
  then have "unat ka < 128 ^ Suc 4" by simp
  then have "length (varint (unat ka)) \<le> 5" using varint_length [of "unat ka" 4] by simp
  moreover have "length (varint 8) = 1" "length (varint 16) = 1" "length (varint 1) = 1"
    by (simp_all add: varint.simps)
  ultimately have "length (encFields (helloFields \<lparr>pbKeepaliveInterval = ka, pbIsServer = srv\<rparr>)) \<le> 1188"
    by (simp add: helloFields_def varintField_def encFields_def encField_def)
  then show ?thesis
    by (simp add: encodable_def helloMsg_def message_ok_def encodeMessage_def Serialize_def serializeHello_def
        checkedBytes_def protoCodec_def exEnv_def maxMsgLen_def)
qed

definition exServer :: "unit world" where
  "exServer = exIncoming\<lparr>myAnnouncements := snd (AddNextHop 7 exDest exHop None newRouteTable)\<rparr>"

theorem handshake_establishes_witness:
  "\<exists>a b. handshake exEnv exEnv 2 2 (replicate 65535 0) (replicate 65535 0) exSubscribed exServer = Some (a, b) \<and>
     state (heap a 2) = ESTABLISHED \<and> state (heap b 2) = ESTABLISHED \<and>
     rxUpdate (heap a 2) = Some [\<lparr>updAction = ADD, updVNI = 7, updDestination = exDest, updNextHop = exHop\<rparr>] \<and>
     txQueue a 2 = [[1, 0, 2, 3, 8, 9]]"
proof -
  have "announced (snd (AddNextHop 7 exDest exHop None newRouteTable)) = [(7, exDest, exHop)]" by code_simp
  then have ann: "announced (myAnnouncements exServer) = [(7, exDest, exHop)]" by (simp add: exServer_def)
  have "update_ok \<lparr>updAction = ADD, updVNI = 7, updDestination = exDest, updNextHop = exHop\<rparr>" by code_simp
  then have enc: "list_all (encodable exEnv) (announceMsgs (myAnnouncements exServer))"
    using ann exPkt(1) by (simp add: announceMsgs_def encodable_def message_ok_def updateMsg_def)
  have fa: "fresh OUTGOING 2 exSubscribed"
    by (simp add: fresh_def quiet_def exSubscribed_def notSubscribed_def gsub_def chansMade_def exHeap_def exPeer_def noPeer_def)
  have fb: "fresh INCOMING 2 exServer"
    using exIncoming_facts by (simp add: fresh_def quiet_def exServer_def notSubscribed_def chansMade_def exPeer_def noPeer_def)
  have "encodeMessage protoCodec (MsgSubscribe \<lparr>subscribeVNI = 9\<rparr>) = Inr [1, 0, 2, 3, 8, 9]" by code_simp
  moreover have "announced newRouteTable = []" by (simp add: announced_def newRouteTable_def GetVNIs_def)
  ultimately have "packets exEnv (subscribeMsgs (mySubscriptions exSubscribed) @ announceMsgs (myAnnouncements exSubscribed)) =
      [[1, 0, 2, 3, 8, 9]]"
    by (simp add: subscribeMsgs_def announceMsgs_def exSubscribed_def packets_def exEnv_def)
  then show ?thesis
    using handshake_establishes [of exEnv exEnv 2 exSubscribed 2 exServer "replicate 65535 0" "replicate 65535 0"]
      protoCodec_hello fa fb enc ann protoCodec_laws
    by (auto simp: announcedUpdates_def exEnv_def)
qed

end
