(* ===== verification/HandshakeOrder.thy ===== *)
theory HandshakeOrder
  imports Handshake
begin

text \<open>
  How a session gets established, over whole runs of the machine: sets of connection states that
  the operations cannot leave, and the two messages that lead out of them.
\<close>

section \<open>States that are not left\<close>

text \<open>The direction and the state of peer \<open>p\<close> are among \<open>S\<close>.\<close>

definition within :: "(ConnectionDirection \<times> ConnectionState) set \<Rightarrow> nat \<Rightarrow> 'c world \<Rightarrow> bool" where
  "within S p w \<longleftrightarrow> (direction (heap w p), state (heap w p)) \<in> S"

lemma within_cong:
  "direction (heap w' p) = direction (heap w p) \<Longrightarrow> state (heap w' p) = state (heap w p) \<Longrightarrow> within S p w' = within S p w"
  by (simp add: within_def)

text \<open>The programs that change neither.\<close>

lemma keeps_within_setPeer:
  "(\<And>x. state (f x) = state x) \<Longrightarrow> (\<And>x. direction (f x) = direction x) \<Longrightarrow> keeps (within S p) (setPeer q f)"
  by (auto simp: keeps_def within_def setPeer_def)

lemma keeps_within_elementary [keeps_rules]:
  "keeps (within S p) (onRouteTable f)"
  "keeps (within S p) (onAnnouncements f)"
  "keeps (within S p) (onReceived q f)"
  "keeps (within S p) (onClient g)"
  "keeps (within S p) (goStart t)"
  "keeps (within S p) lockSubscribers" "keeps (within S p) unlockSubscribers" "keeps (within S p) rlockSubscribers"
  "keeps (within S p) (sendTx q pkt)"
  "keeps (within S p) (wgWait q)"
  "keeps (within S p) (GetState q)"
  "keeps (within S p) (wgAdd q)" "keeps (within S p) (wgDone q)"
  by (rule keepsI, auto simp: within_def state_defs sendTx_def wgWait_def GetState_def wgAdd_def wgDone_def split: option.split)+

lemma keeps_within_signal [keeps_rules]:
  "keeps (within S p) (signal txChanClose txChanClose_update q)"
  "keeps (within S p) (signal shutdown shutdown_update q)"
  "keeps (within S p) (signal keepaliveStop keepaliveStop_update q)"
  by (rule keepsI, auto simp: within_def signal_def split: option.split)+

lemma keeps_within_modify [keeps_rules]:
  "keeps (within S p) (modify (\<lambda>w. w\<lparr>mySubscriptions := m w\<rparr>))"
  "keeps (within S p) (modify (\<lambda>w. w\<lparr>subscribers := s w\<rparr>))"
  "keeps (within S p) (modify (\<lambda>w. w\<lparr>peers := ps w\<rparr>))"
  "keeps (within S p) (modify (\<lambda>w. w\<lparr>shuttingDown := b\<rparr>))"
  "keeps (within S p) (modify (\<lambda>w. w\<lparr>mbIsServer := b\<rparr>))"
  "keeps (within S p) (modify (\<lambda>w. w\<lparr>lis := l\<rparr>))"
  by (simp_all add: keeps_def within_def)

lemma keeps_within_peer [keeps_rules]:
  "keeps (within S p) (sendMessage E q msg)" "keeps (within S p) (SendUpdate E q u)"
  "keeps (within S p) (peerSubscribe E q v)" "keeps (within S p) (peerUnsubscribe E q v)"
  unfolding SendUpdate_def peerSubscribe_def peerUnsubscribe_def sendMessage_def
  by (intro keeps_rules)+

lemma keeps_within_distribute [keeps_rules]: "keeps (within S p) (distributeRouteToPeers E a v d h from)"
  unfolding distributeRouteToPeers_def Let_def by (intro keeps_rules)

lemma keeps_within_node [keeps_rules]:
  "keeps (within S p) (mbSubscribe E v)" "keeps (within S p) (mbUnsubscribe E v)"
  "keeps (within S p) (IsRouteAnnounced v d h)" "keeps (within S p) (AnnounceRoute E v d h)"
  "keeps (within S p) (WithdrawRoute E v d h)" "keeps (within S p) (AddRoutesForVni E v)"
  "keeps (within S p) (addReceivedRoute E q v d h)" "keeps (within S p) (removeReceivedRoute E q v d h)"
  unfolding mbSubscribe_def mbUnsubscribe_def IsRouteAnnounced_def AnnounceRoute_def
    WithdrawRoute_def AddRoutesForVni_def readdRoutes_def addReceivedRoute_def removeReceivedRoute_def
  by (intro keeps_rules)+

lemma keeps_within_removeSubscriber [keeps_rules]: "keeps (within S p) (removeSubscriber E q v)"
  unfolding removeSubscriber_def by (intro keeps_rules)

lemma keeps_within_routes [keeps_rules]:
  "keeps (within S p) (processRxUpdate E q u)" "keeps (within S p) (cleanup E q)" "keeps (within S p) (StartServer b)"
  "keeps (within S p) (resetKeepaliveTimeout q)" "keeps (within S p) (handleInit q)"
  "keeps (within S p) (processRxUnsubscribe E q n)"
  unfolding processRxUpdate_def cleanup_def StartServer_def resetKeepaliveTimeout_def handleInit_def
    processRxUnsubscribe_def Let_def
  by (intro keeps_rules keeps_within_setPeer; simp)+

text \<open>\<open>setState\<close> goes to a state that \<open>S\<close> has for the direction, or is about another peer.\<close>

lemma keeps_within_setState:
  assumes "q = p \<Longrightarrow> \<forall>(d, s) \<in> S. (d, st) \<in> S"
  shows "keeps (within S p) (setState E q st)"
proof -
  have "keeps (within S p) (setPeer q (\<lambda>x. x\<lparr>state := st\<rparr>))"
    using assms by (auto simp: keeps_def within_def setPeer_def)
  then show ?thesis unfolding setState_def announceTo_def by (intro keeps_rules)
qed

text \<open>
  A set of states that a peer starts in and that closing, resetting and connecting again do not
  leave: what it takes to get out is left to the two messages of the handshake.
\<close>

locale lasting =
  fixes S :: "(ConnectionDirection \<times> ConnectionState) set"
  assumes starts: "(d, CONNECTING) \<in> S"
    and closes: "(d, s) \<in> S \<Longrightarrow> (d, CLOSED) \<in> S"
    and retries: "(d, s) \<in> S \<Longrightarrow> (d, RETRY) \<in> S"
    and greets: "(OUTGOING, HELLO_SENT) \<in> S"
begin

lemma keeps_setState_lasting [keeps_rules]:
  "keeps (within S p) (setState E q CLOSED)" "keeps (within S p) (setState E q RETRY)"
  "keeps (within S p) (setState E q CONNECTING)"
  by (rule keeps_within_setState, use closes retries starts in auto)+

lemma lasting_Close [keeps_rules]: "keeps (within S p) (Close E q)"
  unfolding Close_def by (intro keeps_rules)

lemma lasting_removal [keeps_rules]:
  "keeps (within S p) (unsafeRemovePeer E a)" "keeps (within S p) (RemovePeer E a)" "keeps (within S p) (Shutdown E)"
  unfolding RemovePeer_def Shutdown_def unsafeRemovePeer_def by (intro keeps_rules)+

lemma lasting_reset [keeps_rules]:
  "keeps (within S p) (resetBegin E q)" "keeps (within S p) (resetFinish E q)" "keeps (within S p) (Reset E q)"
  "keeps (within S p) (resetStart E q)"
proof -
  show b: "keeps (within S p) (resetBegin E q)" unfolding resetBegin_def by (intro keeps_rules)
  show f: "keeps (within S p) (resetFinish E q)"
    unfolding resetFinish_def by (intro keeps_rules keeps_within_setPeer) simp_all
  show "keeps (within S p) (Reset E q)" "keeps (within S p) (resetStart E q)"
    unfolding Reset_def resetStart_def
    by (auto intro!: keeps_rules b f split: ConnectionDirection.split)
qed

lemma lasting_subscribe [keeps_rules]:
  "keeps (within S p) (addSubscriber E q v)" "keeps (within S p) (processRxSubscribe E q m)"
proof -
  show "keeps (within S p) (addSubscriber E q v)" for v unfolding addSubscriber_def by (intro keeps_rules)
  then show "keeps (within S p) (processRxSubscribe E q m)"
    unfolding processRxSubscribe_def by (intro keeps_rules keeps_within_setPeer) simp_all
qed

lemma lasting_newPeer: "keeps (within S p) (newMetalBondPeer c u a ip n1 n2 n3 ka dir)"
  by (rule keepsI) (simp add: newMetalBondPeer_def Let_def within_def starts)

lemma lasting_callApi: "keeps (within S p) (callApi E c)"
  unfolding callApi_def AddPeer_def acceptOnce_def
  by (cases c) (auto intro!: keeps_rules lasting_newPeer)

text \<open>The client's HELLO: only an outgoing connection goes to \<open>HELLO_SENT\<close> here.\<close>

lemma lasting_handleConnected:
  fixes E :: "'c env"
  shows "keeps (within S p) (handleConnected E q)"
proof (rule keepsI)
  fix w :: "'c world" assume w: "within S p w"
  show "within S p (snd (handleConnected E q w))"
  proof (cases "q = p \<and> direction (heap w q) = OUTGOING")
    case True
    let ?S = "S \<inter> {OUTGOING} \<times> UNIV"
    have "keeps (within ?S p) (handleConnected E q)"
      unfolding handleConnected_def using greets by (intro keeps_rules keeps_within_setState) auto
    moreover have "within ?S p w" using w True by (auto simp: within_def)
    ultimately have "within ?S p (snd (handleConnected E q w))" by (rule keepsD)
    then show ?thesis by (auto simp: within_def)
  next
    case False
    show ?thesis
    proof (cases "q = p")
      case True
      with False w show ?thesis by (simp add: handleConnected_def goStart_def within_def)
    next
      case False
      then have "keeps (within S p) (handleConnected E q)"
        unfolding handleConnected_def by (intro keeps_rules keeps_within_setState) simp_all
      then show ?thesis using w by (rule keepsD)
    qed
  qed
qed

lemma lasting_startThread: "keeps (within S p) (startThread E g)"
  unfolding startThread_def keepaliveInit_def
  by (cases g) (auto intro!: keeps_rules keeps_within_setPeer)

lemma lasting_deliver: "keeps (within S p) (deliver q msg)"
  unfolding deliver_def by (cases msg) (auto intro!: keeps_rules keeps_within_setPeer split: option.split)

lemma lasting_rounds:
  "keeps (within S p) (handleDial E q r)" "keeps (within S p) (rxLoopOnce E q buf rr)"
  "keeps (within S p) (txLoopOnce q c)" "keeps (within S p) (keepaliveSelect E q k)"
proof -
  show "keeps (within S p) (handleDial E q r)"
    unfolding handleDial_def by (auto intro!: keeps_rules keeps_within_setPeer split: dialResult.split)
  show "keeps (within S p) (rxLoopOnce E q buf rr)"
    unfolding rxLoopOnce_def by (auto intro!: keeps_rules lasting_deliver split: prod.split rxEnd.split)
  show "keeps (within S p) (txLoopOnce q c)"
    unfolding txLoopOnce_def by (auto intro!: keeps_rules keeps_within_setPeer split: option.split list.split nat.split)
  show "keeps (within S p) (keepaliveSelect E q k)"
    unfolding keepaliveSelect_def
    by (auto intro!: keeps_rules keeps_within_setPeer split: option.split nat.split keepaliveCase.split)
qed

text \<open>The \<open>select\<close> of \<open>handle\<close>, except for the two messages of the handshake read by \<open>p\<close> itself.\<close>

lemma lasting_handshake_other:
  assumes "q \<noteq> p"
  shows "keeps (within S p) (processRxHello E q m)" "keeps (within S p) (processRxKeepalive E q)"
  unfolding processRxHello_def processRxKeepalive_def Let_def
  using assms by (intro keeps_rules keeps_within_setPeer keeps_within_setState; simp)+

lemma lasting_handleSelect:
  assumes "q \<noteq> p \<or> c \<noteq> OnHello \<and> c \<noteq> OnKeepalive"
  shows "keeps (within S p) (handleSelect E q c)"
proof (cases "q = p")
  case True
  with assms show ?thesis unfolding handleSelect_def
    by (cases c) (auto intro!: keeps_rules keeps_within_setPeer split: option.split list.split nat.split)
next
  case False
  then show ?thesis unfolding handleSelect_def
    by (cases c) (auto intro!: keeps_rules keeps_within_setPeer lasting_handshake_other split: option.split list.split nat.split)
qed

lemma lasting_runThread:
  assumes "\<And>c. t = Selecting p \<Longrightarrow> i = InCase c \<Longrightarrow> keeps (within S p) (handleSelect E p c)"
  shows "keeps (within S p) (runThread E t i)"
proof (cases "\<exists>q c. t = Selecting q \<and> i = InCase c")
  case True
  then obtain q c where q: "t = Selecting q" "i = InCase c" by blast
  have "keeps (within S p) (handleSelect E q c)"
    using assms q lasting_handleSelect [of q p c E] by (cases "q = p") simp_all
  then show ?thesis unfolding runThread_def q by (auto intro!: keeps_rules)
next
  case False
  then show ?thesis unfolding runThread_def
    by (cases t; cases i) (auto intro!: keeps_rules lasting_rounds lasting_handleConnected)
qed

lemma exec_within:
  assumes "within S p (node s)"
    and "\<And>c. e = Round (Selecting p) (InCase c) \<Longrightarrow> within S p (snd (handleSelect E p c (node s)))"
  shows "within S p (node (exec E e s))"
proof -
  have run: "node (runAs f w rest) = snd (f w)" for f :: "('b, thread list) go" and w rest
    by (simp add: runAs_def split: prod.split outcome.split)
  have tail: "snd (Prog.bind f (\<lambda>a. ret (g a)) w) = snd (f w)" for f :: "('b, 'c) go" and g :: "'c \<Rightarrow> 'd" and w
    by (simp add: bind_def split: prod.split outcome.split)
  have spawn: "within S p (w\<lparr>spawned := gs\<rparr>) = within S p w" for w :: "'b world" and gs by (simp add: within_def)
  show ?thesis
  proof (cases e)
    case (Api c)
    have "keeps (within S p) (andThen (callApi E c) (ret ([] :: thread list)))"
      by (intro keeps_rules lasting_callApi)
    then show ?thesis using assms(1) keepsD by (auto simp: exec_def Api run)
  next
    case (Start g)
    show ?thesis
      using assms(1) keepsD [OF lasting_startThread [of p E g]] by (auto simp: exec_def Start run spawn)
  next
    case (Round t i)
    show ?thesis
    proof (cases "\<exists>c. t = Selecting p \<and> i = InCase c")
      case True
      then obtain c where c: "t = Selecting p" "i = InCase c" by blast
      then show ?thesis
        using assms(1) assms(2) [of c] by (auto simp: exec_def Round run runThread_def tail)
    next
      case False
      then have "keeps (within S p) (runThread E t i)" by (intro lasting_runThread) blast
      then show ?thesis using assms(1) keepsD by (auto simp: exec_def Round run)
    qed
  qed
qed

end

section \<open>Before the HELLO, before the KEEPALIVE\<close>

definition ungreeted :: "(ConnectionDirection \<times> ConnectionState) set" where
  "ungreeted = UNIV \<times> {CONNECTING, RETRY, CLOSED} \<union> {(OUTGOING, HELLO_SENT)}"

definition unestablished :: "(ConnectionDirection \<times> ConnectionState) set" where
  "unestablished = UNIV \<times> (- {ESTABLISHED})"

interpretation greeting: lasting ungreeted
  by unfold_locales (auto simp: ungreeted_def)

interpretation estab: lasting unestablished
  by unfold_locales (auto simp: unestablished_def)

text \<open>A KEEPALIVE before the HELLO resets the connection; a HELLO alone does not establish it.\<close>

lemma keepalive_ungreeted: "keeps (within ungreeted p) (handleSelect E p OnKeepalive)"
proof -
  have "keeps (within ungreeted p) (processRxKeepalive E p)"
    by (rule keepsI) (auto simp: processRxKeepalive_def Let_def within_def ungreeted_def goStart_def)
  then show ?thesis unfolding handleSelect_def
    by (auto intro!: keeps_rules keeps_within_setPeer split: option.split nat.split)
qed

lemma hello_unestablished: "keeps (within unestablished p) (handleSelect E p OnHello)"
proof -
  have "keeps (within unestablished p) (processRxHello E p m)" for m
    unfolding processRxHello_def
    by (intro keeps_rules keeps_within_setPeer keeps_within_setState estab.lasting_reset)
      (auto simp: unestablished_def)
  then show ?thesis unfolding handleSelect_def
    by (auto intro!: keeps_rules keeps_within_setPeer split: option.split list.split)
qed

text \<open>So each of the two sets is left with one message only, and that message has been received.\<close>

lemma leaves_ungreeted:
  assumes "within ungreeted p (node s)" "\<not> within ungreeted p (node (exec E e s))"
  shows "e = Round (Selecting p) (InCase OnHello) \<and> (\<exists>m ms. rxHello (heap (node s) p) = Some (m # ms))"
proof -
  obtain c where c: "e = Round (Selecting p) (InCase c)" "\<not> within ungreeted p (snd (handleSelect E p c (node s)))"
    using greeting.exec_within [OF assms(1), of e E] assms(2) by blast
  have hello: "c = OnHello"
    using c(2) assms(1) keepsD [OF greeting.lasting_handleSelect] keepsD [OF keepalive_ungreeted] by (cases "c = OnKeepalive") blast+
  have "\<exists>m ms. rxHello (heap (node s) p) = Some (m # ms)"
  proof (rule ccontr)
    assume "\<not> ?thesis"
    then have "handleSelect E p OnHello (node s) = (Returns None, node s)"
      by (auto simp: handleSelect_def split: option.split list.split)
    then show False using c(2) hello assms(1) by simp
  qed
  then show ?thesis using c(1) hello by simp
qed

lemma leaves_unestablished:
  assumes "within unestablished p (node s)" "\<not> within unestablished p (node (exec E e s))"
  shows "e = Round (Selecting p) (InCase OnKeepalive) \<and> (\<exists>n. rxKeepalive (heap (node s) p) = Some (Suc n)) \<and>
     \<not> within ungreeted p (node s)"
proof -
  obtain c where c: "e = Round (Selecting p) (InCase c)" "\<not> within unestablished p (snd (handleSelect E p c (node s)))"
    using estab.exec_within [OF assms(1), of e E] assms(2) by blast
  have alive: "c = OnKeepalive"
    using c(2) assms(1) keepsD [OF estab.lasting_handleSelect] keepsD [OF hello_unestablished] by (cases "c = OnHello") blast+
  have "\<exists>n. rxKeepalive (heap (node s) p) = Some (Suc n)"
  proof (rule ccontr)
    assume "\<not> ?thesis"
    then have "handleSelect E p OnKeepalive (node s) = (Returns None, node s)"
      by (auto simp: handleSelect_def split: option.split nat.split)
    then show False using c(2) alive assms(1) by simp
  qed
  moreover have "\<not> within ungreeted p (node s)"
  proof
    assume "within ungreeted p (node s)"
    then have "within ungreeted p (snd (handleSelect E p OnKeepalive (node s)))" by (rule keepsD [OF keepalive_ungreeted])
    then have "within unestablished p (snd (handleSelect E p OnKeepalive (node s)))"
      by (auto simp: within_def ungreeted_def unestablished_def)
    then show False using c(2) alive by simp
  qed
  ultimately show ?thesis using c(1) alive by simp
qed

section \<open>Runs\<close>

lemma first_change:
  assumes "P s" "\<not> P (fold f es s)"
  obtains es1 e es2 where "es = es1 @ e # es2" "P (fold f es1 s)" "\<not> P (f e (fold f es1 s))"
proof -
  have "\<exists>es1 e es2. es = es1 @ e # es2 \<and> P (fold f es1 s) \<and> \<not> P (f e (fold f es1 s))"
    using assms
  proof (induction es rule: rev_induct)
    case (snoc e es)
    show ?case
    proof (cases "P (fold f es s)")
      case True
      then show ?thesis using snoc.prems by (intro exI [of _ es] exI [of _ e] exI [of _ "[]"]) simp
    next
      case False
      then obtain es1 e' es2 where "es = es1 @ e' # es2" "P (fold f es1 s)" "\<not> P (f e' (fold f es1 s))"
        using snoc by blast
      then show ?thesis by (intro exI [of _ es1] exI [of _ e'] exI [of _ "es2 @ [e]"]) simp
    qed
  qed simp
  then show thesis using that by blast
qed

text \<open>
  C15. Over every run of the node, whatever calls are made and whatever arrives: when the
  connection to a peer is \<open>ESTABLISHED\<close>, the peer's goroutine \<open>handle\<close> has before read a HELLO that
  the peer sent, and after it a KEEPALIVE.
\<close>

theorem established_after_handshake:
  assumes "state (heap (node (fold (exec E) es (initSys cfg cl))) p) = ESTABLISHED"
  shows "\<exists>es1 es2 es3 m ms n.
     es = es1 @ Round (Selecting p) (InCase OnHello) # es2 @ Round (Selecting p) (InCase OnKeepalive) # es3 \<and>
     rxHello (heap (node (fold (exec E) es1 (initSys cfg cl))) p) = Some (m # ms) \<and>
     rxKeepalive (heap (node (fold (exec E) (es1 @ Round (Selecting p) (InCase OnHello) # es2) (initSys cfg cl))) p) = Some (Suc n)"
proof -
  let ?s = "initSys cfg cl"
  have init: "within unestablished p (node ?s)" "within ungreeted p (node ?s)"
    by (simp_all add: initSys_def initWorld_def within_def unestablished_def ungreeted_def noPeer_def World.MetalBond.extend_def)
  have "\<not> within unestablished p (node (fold (exec E) es ?s))" using assms by (simp add: within_def unestablished_def)
  with init(1) obtain es0 e es3 where 0: "es = es0 @ e # es3" "within unestablished p (node (fold (exec E) es0 ?s))"
      "\<not> within unestablished p (node (exec E e (fold (exec E) es0 ?s)))"
    by (rule first_change [where P = "\<lambda>s. within unestablished p (node s)"])
  from leaves_unestablished [OF 0(2,3)] obtain n where n: "e = Round (Selecting p) (InCase OnKeepalive)"
      "rxKeepalive (heap (node (fold (exec E) es0 ?s)) p) = Some (Suc n)" "\<not> within ungreeted p (node (fold (exec E) es0 ?s))"
    by blast
  from init(2) n(3) obtain es1 e' es2 where 1: "es0 = es1 @ e' # es2" "within ungreeted p (node (fold (exec E) es1 ?s))"
      "\<not> within ungreeted p (node (exec E e' (fold (exec E) es1 ?s)))"
    by (rule first_change [where P = "\<lambda>s. within ungreeted p (node s)"])
  from leaves_ungreeted [OF 1(2,3)] obtain m ms where m: "e' = Round (Selecting p) (InCase OnHello)"
      "rxHello (heap (node (fold (exec E) es1 ?s)) p) = Some (m # ms)"
    by blast
  show ?thesis
    using 0(1) 1(1) n(1,2) m
    by (intro exI [of _ es1] exI [of _ es2] exI [of _ es3] exI [of _ m] exI [of _ ms] exI [of _ n]) simp
qed

text \<open>A run of a server in which a client connects and says HELLO and KEEPALIVE.\<close>

definition exJoin :: "event list" where
  "exJoin = [Api (Accepted (Some (0, ''a'')) ''id'' 1 1 1), Start (GoHandle 0), Round (Dialling 0) (InDial DialFailed),
     Round (Connected 0) InNone, Start (GoRxLoop 0)]"

definition exAccepted :: metalBondPeer where
  "exAccepted = noPeer\<lparr>conn := Some 0, peerId := ''id'', remoteAddr := ''a'', peerKeepalive := 5,
    txChanCapacity := 1, rxChanEventCapacity := 1, rxChanDataUpdateCapacity := 1\<rparr>"

definition exHandled :: metalBondPeer where
  "exHandled = exAccepted\<lparr>shutdown := Some 0, keepaliveStop := Some 0, txChanClose := Some 0, txChan := Some [],
    rxHello := Some [], rxKeepalive := Some 0, rxSubscribe := Some [], rxUnsubscribe := Some [], rxUpdate := Some [], wg := 1\<rparr>"

definition exServing :: "metalBondPeer \<Rightarrow> goroutine list \<Rightarrow> unit world" where
  "exServing x gs = (initWorld \<lparr>cfgKeepaliveInterval = 5\<rparr> ())\<lparr>peers := [(''a'', 0)],
     heap := (\<lambda>_. noPeer)(0 := x), nextRef := 1, spawned := gs\<rparr>"

lemma exServing_simps [simp]:
  "heap (exServing x gs) 0 = x" "spawned (exServing x gs) = gs" "(exServing x gs)\<lparr>spawned := gs'\<rparr> = exServing x gs'"
  "updPeer 0 f (exServing x gs) = exServing (f x) gs"
  by (simp_all add: exServing_def updPeer_def)

lemma exJoin_run:
  "fold (exec exEnv) exJoin (initSys \<lparr>cfgKeepaliveInterval = 5\<rparr> ()) =
     \<lparr>node = exServing (exHandled\<lparr>wg := 2\<rparr>) [GoTxLoop 0], threads = [Reading 0 (replicate 65535 0), Selecting 0], crashed = False\<rparr>"
proof -
  have fields: "mbKeepalive (initWorld \<lparr>cfgKeepaliveInterval = 5\<rparr> ()) = 5" "\<not> shuttingDown (initWorld \<lparr>cfgKeepaliveInterval = 5\<rparr> ())"
     "nextRef (initWorld \<lparr>cfgKeepaliveInterval = 5\<rparr> ()) = 0" "peers (initWorld \<lparr>cfgKeepaliveInterval = 5\<rparr> ()) = []"
     "heap (initWorld \<lparr>cfgKeepaliveInterval = 5\<rparr> ()) = (\<lambda>_. noPeer)" "spawned (initWorld \<lparr>cfgKeepaliveInterval = 5\<rparr> ()) = []"
    by (simp_all add: initWorld_def NewMetalBond_def World.MetalBond.extend_def)
  have "callApi exEnv (Accepted (Some (0, ''a'')) ''id'' 1 1 1) (initWorld \<lparr>cfgKeepaliveInterval = 5\<rparr> ()) =
      (Returns (), exServing exAccepted [GoHandle 0])"
    by (simp add: callApi_def acceptOnce_def newMetalBondPeer_def Let_def fields exServing_def exAccepted_def noPeer_def
        Prog.bind_def andThen_def)
  then have 1: "exec exEnv (Api (Accepted (Some (0, ''a'')) ''id'' 1 1 1)) (initSys \<lparr>cfgKeepaliveInterval = 5\<rparr> ()) =
      \<lparr>node = exServing exAccepted [GoHandle 0], threads = [], crashed = False\<rparr>"
    by (simp add: exec_def initSys_def runAs_def)
  have "startThread exEnv (GoHandle 0) (exServing exAccepted []) = (Returns [Dialling 0], exServing exHandled [])"
    by (simp add: startThread_def handleInit_def wgAdd_def setPeer_def Prog.bind_def andThen_def exAccepted_def exHandled_def noPeer_def)
  then have 2: "exec exEnv (Start (GoHandle 0)) \<lparr>node = exServing exAccepted [GoHandle 0], threads = [], crashed = False\<rparr> =
      \<lparr>node = exServing exHandled [], threads = [Dialling 0], crashed = False\<rparr>"
    by (simp add: exec_def runAs_def)
  have "conn exHandled = Some 0" "direction exHandled = INCOMING" by (simp_all add: exHandled_def exAccepted_def noPeer_def)
  then have "runThread exEnv (Dialling 0) (InDial DialFailed) (exServing exHandled []) = (Returns [Connected 0], exServing exHandled [])"
    "runThread exEnv (Connected 0) InNone (exServing exHandled []) =
      (Returns [Selecting 0], exServing exHandled [GoRxLoop 0, GoTxLoop 0])"
    by (simp_all add: runThread_def handleDial_def handleConnected_def goStart_def)
  then have 3: "exec exEnv (Round (Dialling 0) (InDial DialFailed)) \<lparr>node = exServing exHandled [], threads = [Dialling 0], crashed = False\<rparr> =
      \<lparr>node = exServing exHandled [], threads = [Connected 0], crashed = False\<rparr>"
    "exec exEnv (Round (Connected 0) InNone) \<lparr>node = exServing exHandled [], threads = [Connected 0], crashed = False\<rparr> =
      \<lparr>node = exServing exHandled [GoRxLoop 0, GoTxLoop 0], threads = [Selecting 0], crashed = False\<rparr>"
    by (simp_all add: exec_def runAs_def)
  have "exHandled\<lparr>wg := Suc (wg exHandled)\<rparr> = exHandled\<lparr>wg := 2\<rparr>" by (simp add: exHandled_def)
  then have "startThread exEnv (GoRxLoop 0) (exServing exHandled [GoTxLoop 0]) =
      (Returns [Reading 0 (replicate 65535 0)], exServing (exHandled\<lparr>wg := 2\<rparr>) [GoTxLoop 0])"
    by (simp add: startThread_def wgAdd_def setPeer_def)
  then have 4: "exec exEnv (Start (GoRxLoop 0)) \<lparr>node = exServing exHandled [GoRxLoop 0, GoTxLoop 0], threads = [Selecting 0], crashed = False\<rparr> =
      \<lparr>node = exServing (exHandled\<lparr>wg := 2\<rparr>) [GoTxLoop 0], threads = [Reading 0 (replicate 65535 0), Selecting 0], crashed = False\<rparr>"
    by (simp add: exec_def runAs_def)
  show ?thesis by (simp add: exJoin_def 1 2 3 4)
qed

lemma exec_read:
  assumes "rxLoopOnce E p buf r w = (Returns (Some buf'), w')"
  shows "Reading p buf \<in> set ts \<Longrightarrow> exec E (Round (Reading p buf) (InRead r)) \<lparr>node = w, threads = ts, crashed = False\<rparr> =
     \<lparr>node = w', threads = Reading p buf' # remove1 (Reading p buf) ts, crashed = False\<rparr>"
  using assms by (simp add: exec_def runAs_def runThread_def)

lemma exec_select:
  assumes "handled E p c w = Some w'"
  shows "Selecting p \<in> set ts \<Longrightarrow> exec E (Round (Selecting p) (InCase c)) \<lparr>node = w, threads = ts, crashed = False\<rparr> =
     \<lparr>node = w', threads = Selecting p # remove1 (Selecting p) ts, crashed = False\<rparr>"
proof -
  have "handleSelect E p c w = (Returns (Some True), w')"
    using assms by (auto simp: handled_def split: prod.splits outcome.splits option.splits bool.splits)
  then show "Selecting p \<in> set ts \<Longrightarrow> ?thesis" by (simp add: exec_def runAs_def runThread_def)
qed

lemma exJoin_established:
  "\<exists>es. state (heap (node (fold (exec exEnv) es (initSys \<lparr>cfgKeepaliveInterval = 5\<rparr> ()))) 0) = ESTABLISHED"
proof -
  let ?w = "exServing (exHandled\<lparr>wg := 2\<rparr>) [GoTxLoop 0]" and ?buf = "replicate 65535 0 :: byte list"
  let ?m = "helloMsg 9 False"
  have codec: "proto_codec (cdc exEnv)" by (simp add: exEnv_def protoCodec_laws)
  have q: "quiet 0 ?w"
    by (simp add: quiet_def notSubscribed_def chansMade_def gsub_def exHandled_def)
      (simp add: exServing_def initWorld_def NewMetalBond_def World.MetalBond.extend_def)
  have side: "sideOf 0 ?w = \<lparr>sdDir = INCOMING, sdState = CONNECTING, sdKeep = 5, sdTx = [], sdHello = [], sdAlive = 0,
      sdUpd = [], sdAnn = newRouteTable, sdSubs = [], sdSrv = False\<rparr>"
    by (simp add: sideOf_def Let_def txQueue_def exHandled_def exAccepted_def noPeer_def)
      (simp add: exServing_def initWorld_def NewMetalBond_def World.MetalBond.extend_def)
  have "reads exEnv exEnv 0 ?w" using codec quietD(3) [OF q] sideOf_iff(2) [OF side] by (simp add: reads_def)
  then obtain buf1 where r1: "rxLoopOnce exEnv 0 ?buf (ReadData (pktOf exEnv ?m)) ?w =
      (Returns (Some buf1), updPeer 0 (deliverInto (received ?m)) ?w)" "length buf1 = 65535"
    using rxLoopOnce_run [OF _ protoCodec_hello] by (metis length_replicate)
  let ?w1 = "updPeer 0 (deliverInto (received ?m)) ?w"
  have q1: "quiet 0 ?w1" using quiet_updPeer [OF q] quietD(3) [OF q] by (metis deliverInto_frame(6))
  have side1: "sideOf 0 ?w1 = \<lparr>sdDir = INCOMING, sdState = CONNECTING, sdKeep = 5, sdTx = [],
      sdHello = [\<lparr>helloKeepaliveInterval = 9, helloIsServer = False\<rparr>], sdAlive = 0,
      sdUpd = [], sdAnn = newRouteTable, sdSubs = [], sdSrv = False\<rparr>"
    unfolding side_deliverInto [OF q] side by (simp add: sideInto_def received_def helloMsg_def)
  note f1 = sideOf_iff [OF side1]
  have "encodeMessage (cdc exEnv) (MsgHello \<lparr>helloKeepaliveInterval = 5, helloIsServer = mbIsServer ?w1\<rparr>) =
      Inr (pktOf exEnv (helloMsg 5 False))"
    using encodable_pktOf [OF protoCodec_hello] f1(7) unfolding helloMsg_def by simp
  then obtain w2 where w2: "handled exEnv 0 OnHello ?w1 = Some w2" "quiet 0 w2"
      "sideOf 0 w2 = (sideOf 0 ?w1)\<lparr>sdHello := [], sdKeep := 5, sdState := HELLO_SENT, sdTx := [pktOf exEnv (helloMsg 5 False)]\<rparr>"
    using hello_step [OF q1, of "\<lparr>helloKeepaliveInterval = 9, helloIsServer = False\<rparr>" "[]" 5 exEnv "pktOf exEnv (helloMsg 5 False)"]
      side1 f1 by (auto simp: min_def)
  note f2 = sideOf_iff [OF w2(3) [unfolded side1, simplified]]
  have "reads exEnv exEnv 0 w2" using codec quietD(3) [OF w2(2)] f2(2) by (simp add: reads_def)
  then obtain buf2 where r2: "rxLoopOnce exEnv 0 buf1 (ReadData (pktOf exEnv MsgKeepalive)) w2 =
      (Returns (Some buf2), updPeer 0 (deliverInto (received MsgKeepalive)) w2)"
    using rxLoopOnce_run [OF _ encodable_keepalive r1(2)] by blast
  let ?w3 = "updPeer 0 (deliverInto (received MsgKeepalive)) w2"
  have q3: "quiet 0 ?w3" using quiet_updPeer [OF w2(2)] quietD(3) [OF w2(2)] by (metis deliverInto_frame(6))
  have side3: "sideOf 0 ?w3 = (sideOf 0 w2)\<lparr>sdAlive := 1\<rparr>"
    unfolding side_deliverInto [OF w2(2)] w2(3) side1 by (simp add: sideInto_def received_def)
  note f3 = sideOf_iff [OF side3 [unfolded w2(3) side1, simplified]]
  obtain w4 tx where w4: "handled exEnv 0 OnKeepalive ?w3 = Some w4"
      "sideOf 0 w4 = (sideOf 0 ?w3)\<lparr>sdAlive := 0, sdState := ESTABLISHED, sdTx := tx\<rparr>"
    using keepalive_step [OF q3, of 0 exEnv] side3 f3 by auto
  have "state (heap w4 0) = ESTABLISHED" using arg_cong [OF w4(2), of sdState] by simp
  then show ?thesis
    by (intro exI [of _ "exJoin @ [Round (Reading 0 ?buf) (InRead (ReadData (pktOf exEnv ?m))), Round (Selecting 0) (InCase OnHello),
        Round (Reading 0 buf1) (InRead (ReadData (pktOf exEnv MsgKeepalive))), Round (Selecting 0) (InCase OnKeepalive)]"])
      (simp add: exJoin_run exec_read [OF r1(1)] exec_select [OF w2(1)] exec_read [OF r2] exec_select [OF w4(1)]
        del: exServing_simps(4))
qed

theorem established_after_handshake_witness:
  "\<exists>es es1 es2 es3. state (heap (node (fold (exec exEnv) es (initSys \<lparr>cfgKeepaliveInterval = 5\<rparr> ()))) 0) = ESTABLISHED \<and>
     es = es1 @ Round (Selecting 0) (InCase OnHello) # es2 @ Round (Selecting 0) (InCase OnKeepalive) # es3"
proof -
  obtain es where es: "state (heap (node (fold (exec exEnv) es (initSys \<lparr>cfgKeepaliveInterval = 5\<rparr> ()))) 0) = ESTABLISHED"
    using exJoin_established by blast
  from established_after_handshake [OF es] es show ?thesis by blast
qed

end
