(* ===== verification/GoStrings.thy ===== *)
theory GoStrings
  imports Netip "HOL-Library.Sublist" "HOL-Library.Code_Target_Nat"
begin

text \<open>
  The parts of Go's \<open>strings\<close>, \<open>strconv\<close> and \<open>net/netip\<close> that the command line and the HTTP
  server use: splitting, substring tests, decimal numbers, and the text form of addresses and
  prefixes. A string is a list of bytes. Parsers return \<open>None\<close> for every error.
\<close>

section \<open>strings\<close>

text \<open>\<open>strings.Split\<close> with a separator of one character.\<close>

fun splitOn :: "char \<Rightarrow> string \<Rightarrow> string list" where
  "splitOn c [] = [[]]"
| "splitOn c (x # xs) =
     (if x = c then [] # splitOn c xs
      else case splitOn c xs of [] \<Rightarrow> [[x]] | p # ps \<Rightarrow> (x # p) # ps)"

fun joinWith :: "char \<Rightarrow> string list \<Rightarrow> string" where
  "joinWith c [] = []"
| "joinWith c [p] = p"
| "joinWith c (p # ps) = p @ c # joinWith c ps"

lemma splitOn_not_Nil: "splitOn c s \<noteq> []"
  by (cases s) (auto split: list.split)

lemma splitOn_free: "c \<notin> set p \<Longrightarrow> splitOn c p = [p]"
  by (induction p) auto

lemma splitOn_append: "c \<notin> set p \<Longrightarrow> splitOn c (p @ c # s) = p # splitOn c s"
  by (induction p) auto

lemma splitOn_joinWith:
  "ps \<noteq> [] \<Longrightarrow> list_all (\<lambda>p. c \<notin> set p) ps \<Longrightarrow> splitOn c (joinWith c ps) = ps"
  by (induction c ps rule: joinWith.induct) (simp_all add: splitOn_free splitOn_append)

lemma joinWith_splitOn: "joinWith c (splitOn c s) = s"
proof (induction s)
  case (Cons x s)
  then show ?case
    using splitOn_not_Nil [of c s]
    by (cases "splitOn c s"; cases "tl (splitOn c s)") auto
qed simp

text \<open>
  \<open>strings.ToLower\<close> on the bytes of ASCII letters; a character outside ASCII has no lower case
  form in ASCII that the callers look for.
\<close>

definition toLowerChar :: "char \<Rightarrow> char" where
  "toLowerChar c = (let n = of_char c :: nat in if 65 \<le> n \<and> n \<le> 90 then char_of (n + 32) else c)"

definition toLower :: "string \<Rightarrow> string" where
  "toLower s = map toLowerChar s"

fun containsStr :: "string \<Rightarrow> string \<Rightarrow> bool" where
  "containsStr [] sub \<longleftrightarrow> sub = []"
| "containsStr (c # s) sub \<longleftrightarrow> take (length sub) (c # s) = sub \<or> containsStr s sub"

lemma containsStr_sublist: "containsStr s sub \<longleftrightarrow> sublist sub s"
proof (induction s)
  case (Cons c s)
  have "prefix sub (c # s) \<longleftrightarrow> take (length sub) (c # s) = sub"
    by (metis append_eq_conv_conj prefix_def take_is_prefix)
  with Cons show ?case by (simp add: sublist_Cons_right)
qed simp

section \<open>strconv\<close>

definition isDigit :: "char \<Rightarrow> bool" where
  "isDigit c \<longleftrightarrow> 48 \<le> (of_char c :: nat) \<and> (of_char c :: nat) \<le> 57"

definition digitVal :: "char \<Rightarrow> nat" where
  "digitVal c = of_char c - 48"

fun parseDigits :: "nat \<Rightarrow> nat \<Rightarrow> string \<Rightarrow> nat option" where
  "parseDigits maxVal acc [] = Some acc"
| "parseDigits maxVal acc (c # s) =
     (if \<not> isDigit c then None
      else let n = acc * 10 + digitVal c in if maxVal < n then None else parseDigits maxVal n s)"

definition ParseUint :: "string \<Rightarrow> nat \<Rightarrow> nat option" where
  "ParseUint s bits = (if s = [] then None else parseDigits (2 ^ bits - 1) 0 s)"

text \<open>\<open>strconv.ParseInt\<close>: an optional sign, and the two bounds of the signed width.\<close>

definition ParseInt :: "string \<Rightarrow> nat \<Rightarrow> int option" where
  "ParseInt s bits =
     (case s of
        [] \<Rightarrow> None
      | c # r \<Rightarrow>
          (let neg = (c = CHR ''-''); digits = (if c = CHR ''+'' \<or> c = CHR ''-'' then r else s) in
           case ParseUint digits bits of
             None \<Rightarrow> None
           | Some un \<Rightarrow>
               if \<not> neg \<and> 2 ^ (bits - 1) \<le> un then None
               else if neg \<and> 2 ^ (bits - 1) < un then None
               else Some (if neg then - int un else int un)))"

text \<open>Decimal output.\<close>

fun formatNat :: "nat \<Rightarrow> string" where
  "formatNat n = (if n < 10 then [char_of (48 + n)]
     else formatNat (n div 10) @ [char_of (48 + n mod 10)])"

declare formatNat.simps [simp del]

lemma digit_char: "d < 10 \<Longrightarrow> isDigit (char_of (48 + d)) \<and> digitVal (char_of (48 + d)) = d"
  by (simp add: isDigit_def digitVal_def)

lemma parseDigits_append:
  "parseDigits maxVal acc (s @ t) = Option.bind (parseDigits maxVal acc s) (\<lambda>a. parseDigits maxVal a t)"
  by (induction s arbitrary: acc) (simp_all add: Let_def)

lemma parseDigits_formatNat: "n \<le> maxVal \<Longrightarrow> parseDigits maxVal 0 (formatNat n) = Some n"
proof (induction n rule: formatNat.induct)
  case (1 n)
  show ?case
  proof (cases "n < 10")
    case True
    then show ?thesis using 1 digit_char [of n] by (simp add: formatNat.simps)
  next
    case False
    have "parseDigits maxVal 0 (formatNat (n div 10)) = Some (n div 10)" using 1 False by simp
    then show ?thesis
      using 1 False digit_char [of "n mod 10"]
      by (simp add: formatNat.simps [of n] parseDigits_append)
  qed
qed

lemma formatNat_digits: "list_all isDigit (formatNat n)"
  by (induction n rule: formatNat.induct) (subst formatNat.simps, simp add: digit_char)

lemma formatNat_not_Nil: "formatNat n \<noteq> []"
  by (subst formatNat.simps) simp

lemma ParseUint_formatNat: "n < 2 ^ bits \<Longrightarrow> ParseUint (formatNat n) bits = Some n"
  by (simp add: ParseUint_def formatNat_not_Nil parseDigits_formatNat)

lemma parseDigits_bound: "parseDigits maxVal acc s = Some n \<Longrightarrow> acc \<le> maxVal \<Longrightarrow> n \<le> maxVal"
  by (induction s arbitrary: acc) (auto simp: Let_def split: if_splits)

lemma ParseUint_bound:
  assumes "ParseUint s bits = Some n"
  shows "n < 2 ^ bits"
proof -
  have "parseDigits (2 ^ bits - 1) 0 s = Some n"
    using assms by (simp add: ParseUint_def split: if_splits)
  then have "n \<le> 2 ^ bits - 1" by (rule parseDigits_bound) simp
  moreover have "(0 :: nat) < 2 ^ bits" by simp
  ultimately show ?thesis by linarith
qed

lemma ParseInt_bound:
  assumes "ParseInt s bits = Some n"
  shows "- (2 ^ (bits - 1)) \<le> n" and "n < 2 ^ (bits - 1)"
proof -
  obtain un where "n = int un \<and> un < 2 ^ (bits - 1) \<or> n = - int un \<and> un \<le> 2 ^ (bits - 1)"
    using assms by (auto simp: ParseInt_def Let_def not_le not_less split: list.splits option.splits if_splits)
  moreover have "int un < 2 ^ (bits - 1)" if "un < 2 ^ (bits - 1)" using that by simp
  moreover have "int un \<le> 2 ^ (bits - 1)" if "un \<le> 2 ^ (bits - 1)" using that by simp
  moreover have "(0 :: int) < 2 ^ (bits - 1)" by simp
  ultimately show "- (2 ^ (bits - 1)) \<le> n" "n < 2 ^ (bits - 1)" by linarith+
qed

section \<open>Parsing addresses\<close>

text \<open>
  The four fields of an IPv4 address: the character before, the value and the number of digits
  of the current field, and the fields so far.
\<close>

fun ipv4Loop :: "char option \<Rightarrow> nat \<Rightarrow> nat \<Rightarrow> nat list \<Rightarrow> string \<Rightarrow> nat list option" where
  "ipv4Loop prev val digLen fields [] = (if length fields < 3 then None else Some (fields @ [val]))"
| "ipv4Loop prev val digLen fields (c # s) =
     (if isDigit c then
        if digLen = 1 \<and> val = 0 then None else
        let v = val * 10 + digitVal c in
        if 255 < v then None else ipv4Loop (Some c) v (Suc digLen) fields s
      else if c = CHR ''.'' then
        if prev = None \<or> s = [] \<or> prev = Some (CHR ''.'') then None else
        if length fields = 3 then None else ipv4Loop (Some c) 0 0 (fields @ [val]) s
      else None)"

definition bytesVal :: "nat list \<Rightarrow> nat" where
  "bytesVal bs = foldl (\<lambda>a b. a * 256 + b) 0 bs"

definition parseIPv4 :: "string \<Rightarrow> Addr option" where
  "parseIPv4 s = map_option (\<lambda>fields. Addr4 (word_of_nat (bytesVal fields))) (ipv4Loop None 0 0 [] s)"

definition hexVal :: "char \<Rightarrow> nat option" where
  "hexVal c = (let n = of_char c :: nat in
     if 48 \<le> n \<and> n \<le> 57 then Some (n - 48)
     else if 97 \<le> n \<and> n \<le> 102 then Some (n - 87)
     else if 65 \<le> n \<and> n \<le> 70 then Some (n - 55)
     else None)"

text \<open>One hexadecimal group: its value, its number of digits, and the rest.\<close>

fun hexScan :: "nat \<Rightarrow> nat \<Rightarrow> string \<Rightarrow> (nat \<times> nat \<times> string) option" where
  "hexScan off acc [] = Some (acc, off, [])"
| "hexScan off acc (c # s) =
     (case hexVal c of
        None \<Rightarrow> Some (acc, off, c # s)
      | Some v \<Rightarrow>
          let a = acc * 16 + v in
          if 3 < off then None else if 65535 < a then None else hexScan (Suc off) a s)"

text \<open>
  The loop over the groups of an IPv6 address, at most as many as are left of eight: the bytes
  so far, the position of the ellipsis, and the rest of the string.
\<close>

fun ipv6Loop :: "nat \<Rightarrow> nat list \<Rightarrow> nat option \<Rightarrow> string \<Rightarrow> (nat list \<times> nat option \<times> string) option" where
  "ipv6Loop 0 ip ellipsis s = Some (ip, ellipsis, s)"
| "ipv6Loop (Suc n) ip ellipsis s =
     (case hexScan 0 0 s of
        None \<Rightarrow> None
      | Some (acc, off, rest) \<Rightarrow>
          if off = 0 then None
          else if rest \<noteq> [] \<and> hd rest = CHR ''.'' then
            if ellipsis = None \<and> length ip \<noteq> 12 then None
            else if 16 < length ip + 4 then None
            else map_option (\<lambda>fields. (ip @ fields, ellipsis, [])) (ipv4Loop None 0 0 [] s)
          else
            let ip' = ip @ [acc div 256, acc mod 256] in
            case rest of
              [] \<Rightarrow> Some (ip', ellipsis, [])
            | c # r \<Rightarrow>
                if c \<noteq> CHR '':'' \<or> r = [] then None
                else if hd r = CHR '':'' then
                  if ellipsis \<noteq> None then None
                  else if tl r = [] then Some (ip', Some (length ip'), [])
                  else ipv6Loop n ip' (Some (length ip')) (tl r)
                else ipv6Loop n ip' ellipsis r)"

text \<open>The ellipsis stands for the zero bytes that are missing.\<close>

definition expandEllipsis :: "nat list \<Rightarrow> nat option \<Rightarrow> nat list option" where
  "expandEllipsis ip ellipsis =
     (if length ip < 16 then
        map_option (\<lambda>e. take e ip @ replicate (16 - length ip) 0 @ drop e ip) ellipsis
      else if ellipsis \<noteq> None then None
      else Some ip)"

definition parseIPv6 :: "string \<Rightarrow> Addr option" where
  "parseIPv6 s0 =
     (let zoned = CHR ''%'' \<in> set s0;
          s = takeWhile (\<lambda>c. c \<noteq> CHR ''%'') s0;
          zone = tl (dropWhile (\<lambda>c. c \<noteq> CHR ''%'') s0) in
      if zoned \<and> zone = [] then None else
      let z = (if zoned then zone else []);
          lead = take 2 s = ''::'' in
      if lead \<and> drop 2 s = [] then Some (Addr6 0 z) else
      case ipv6Loop 8 [] (if lead then Some 0 else None) (if lead then drop 2 s else s) of
        None \<Rightarrow> None
      | Some (ip, ellipsis, rest) \<Rightarrow>
          if rest \<noteq> [] then None
          else map_option (\<lambda>bytes. Addr6 (word_of_nat (bytesVal bytes)) z) (expandEllipsis ip ellipsis))"

text \<open>The first of \<open>.\<close>, \<open>:\<close> and \<open>%\<close> decides.\<close>

definition ParseAddr :: "string \<Rightarrow> Addr option" where
  "ParseAddr s =
     (case dropWhile (\<lambda>c. c \<noteq> CHR ''.'' \<and> c \<noteq> CHR '':'' \<and> c \<noteq> CHR ''%'') s of
        [] \<Rightarrow> None
      | c # _ \<Rightarrow> if c = CHR ''.'' then parseIPv4 s else if c = CHR '':'' then parseIPv6 s else None)"

definition ParsePrefix :: "string \<Rightarrow> Prefix option" where
  "ParsePrefix s =
     (if CHR ''/'' \<notin> set s then None else
      let bitsStr = rev (takeWhile (\<lambda>c. c \<noteq> CHR ''/'') (rev s));
          ipStr = butlast (rev (dropWhile (\<lambda>c. c \<noteq> CHR ''/'') (rev s))) in
      case ParseAddr ipStr of
        None \<Rightarrow> None
      | Some ip \<Rightarrow>
          if withoutZone ip \<noteq> ip then None
          else if 1 < length bitsStr \<and> \<not> (isDigit (hd bitsStr) \<and> hd bitsStr \<noteq> CHR ''0'') then None
          else case ParseInt bitsStr 64 of
            None \<Rightarrow> None
          | Some bits \<Rightarrow> if bits < 0 \<or> int (BitLen ip) < bits then None else Some (PrefixFrom ip bits))"

section \<open>Printing addresses\<close>

definition string4 :: "nat list \<Rightarrow> string" where
  "string4 bs = joinWith (CHR ''.'') (map formatNat bs)"

fun formatHex :: "nat \<Rightarrow> string" where
  "formatHex n = (let d = n mod 16; c = char_of (if d < 10 then 48 + d else 87 + d) in
     if n < 16 then [c] else formatHex (n div 16) @ [c])"

declare formatHex.simps [simp del]

definition groups :: "128 word \<Rightarrow> nat list" where
  "groups w = map (\<lambda>i. unat w div 65536 ^ (7 - i) mod 65536) [0..<8]"

text \<open>The longest run of at least two zero groups, the first one of that length.\<close>

definition zeroRun :: "nat list \<Rightarrow> nat \<times> nat" where
  "zeroRun gs = fold (\<lambda>i (s, e).
     let j = i + length (takeWhile (\<lambda>g. g = 0) (drop i gs)) in
     if 2 \<le> j - i \<and> e - s < j - i then (i, j) else (s, e)) [0..<8] (255, 255)"

definition string6 :: "nat list \<Rightarrow> string" where
  "string6 gs = (let (s, e) = zeroRun gs; colons = (\<lambda>gs. joinWith (CHR '':'') (map formatHex gs)) in
     if s = 255 then colons gs else colons (take s gs) @ ''::'' @ colons (drop e gs))"

definition zoneSuffix :: "string \<Rightarrow> string" where
  "zoneSuffix z = (if z = [] then [] else CHR ''%'' # z)"

definition Addr_String :: "Addr \<Rightarrow> string" where
  "Addr_String a = (case a of
     AddrZero \<Rightarrow> ''invalid IP''
   | Addr4 w \<Rightarrow> string4 (map unat (be_bytes 4 (unat w)))
   | Addr6 w z \<Rightarrow>
       if take 6 (groups w) = [0, 0, 0, 0, 0, 65535]
       then ''::ffff:'' @ string4 (map unat (be_bytes 4 (unat w))) @ zoneSuffix z
       else string6 (groups w) @ zoneSuffix z)"

definition Prefix_String :: "Prefix \<Rightarrow> string" where
  "Prefix_String p = (if bitsPlusOne p = 0 then ''invalid Prefix''
     else Addr_String (prefixIP p) @ CHR ''/'' # formatNat (nat (Bits p)))"

section \<open>IPv4 text reads back\<close>

lemma isDigit_distinct: "isDigit c \<Longrightarrow> c \<noteq> CHR ''.'' \<and> c \<noteq> CHR '':'' \<and> c \<noteq> CHR ''%'' \<and> c \<noteq> CHR ''/'' \<and>
    c \<noteq> CHR ''+'' \<and> c \<noteq> CHR ''-'' \<and> c \<noteq> CHR ''#''"
  by (auto simp: isDigit_def)

lemma formatNat_set: "c \<in> set (formatNat n) \<Longrightarrow> isDigit c"
  using formatNat_digits [of n] by (simp add: list_all_iff)

lemma ipv4Loop_field:
  "n \<le> 255 \<Longrightarrow> ipv4Loop prev 0 0 fields (formatNat n @ s) =
     ipv4Loop (Some (last (formatNat n))) n (length (formatNat n)) fields s"
proof (induction n arbitrary: s rule: formatNat.induct)
  case (1 n)
  show ?case
  proof (cases "n < 10")
    case True
    then show ?thesis using digit_char [of n] by (simp add: formatNat.simps [of n])
  next
    case False
    have "n div 10 \<noteq> 0" "n div 10 \<le> 255" using False 1 by simp_all
    then show ?thesis
      using 1 False digit_char [of "n mod 10"] by (simp add: formatNat.simps [of n])
  qed
qed

lemma ipv4Loop_string4:
  assumes "a \<le> 255" "b \<le> 255" "c \<le> 255" "d \<le> 255"
  shows "ipv4Loop None 0 0 [] (string4 [a, b, c, d]) = Some [a, b, c, d]"
proof -
  have dot: "\<not> isDigit (CHR ''.'')" by (simp add: isDigit_def)
  have last: "last (formatNat n) \<noteq> CHR ''.''" for n
    using formatNat_set [of "last (formatNat n)" n] formatNat_not_Nil isDigit_distinct by auto
  have "ipv4Loop prev 0 0 fields (formatNat d) = ipv4Loop (Some (last (formatNat d))) d (length (formatNat d)) fields []"
    for prev fields using ipv4Loop_field [of d prev fields "[]"] assms by simp
  then show ?thesis
    using assms last by (simp add: string4_def ipv4Loop_field dot formatNat_not_Nil)
qed

lemma bytesVal_map_unat: "bytesVal (map unat bs) = be_val bs"
  by (induction bs rule: rev_induct) (simp_all add: bytesVal_def)

lemma length4: "length bs = 4 \<Longrightarrow> \<exists>a b c d. bs = [a, b, c, d]"
  by (auto simp: length_Suc_conv eval_nat_numeral)

lemma string4_first_dot:
  "dropWhile (\<lambda>c. c \<noteq> CHR ''.'' \<and> c \<noteq> CHR '':'' \<and> c \<noteq> CHR ''%'') (string4 (a # b # bs)) =
     CHR ''.'' # string4 (b # bs)"
proof -
  have "dropWhile (\<lambda>c. c \<noteq> CHR ''.'' \<and> c \<noteq> CHR '':'' \<and> c \<noteq> CHR ''%'') (formatNat a @ CHR ''.'' # s) = CHR ''.'' # s" for s
    using isDigit_distinct formatNat_set [of _ a] by (subst dropWhile_append2) auto
  then show ?thesis by (simp add: string4_def)
qed

lemma ParseAddr_Addr4: "ParseAddr (Addr_String (Addr4 w)) = Some (Addr4 w)"
proof -
  let ?bs = "be_bytes 4 (unat w)"
  obtain a b c d where bs: "?bs = [a, b, c, d]" using length4 [of ?bs] by auto
  have le: "unat x \<le> 255" for x :: byte using unat_byte_less [of x] by simp
  have "bytesVal [unat a, unat b, unat c, unat d] = be_val ?bs"
    using bytesVal_map_unat [of ?bs] by (simp add: bs)
  also have "\<dots> = unat w"
  proof -
    have "unat w < 2 ^ 32" using unsigned_less [of w] by simp
    then show ?thesis by (simp add: be_val_be_bytes)
  qed
  finally have val: "bytesVal [unat a, unat b, unat c, unat d] = unat w" .
  have "Addr_String (Addr4 w) = string4 [unat a, unat b, unat c, unat d]"
    by (simp add: Addr_String_def bs)
  then show ?thesis
    by (simp add: ParseAddr_def string4_first_dot parseIPv4_def ipv4Loop_string4 le val)
qed

lemma set_joinWith: "set (joinWith c ps) \<subseteq> insert c (\<Union> (set ` set ps))"
  by (induction c ps rule: joinWith.induct) auto

lemma Addr4_chars: "x \<in> set (Addr_String (Addr4 w)) \<Longrightarrow> isDigit x \<or> x = CHR ''.''"
  using set_joinWith [of "CHR ''.''" "map formatNat (map unat (be_bytes 4 (unat w)))"]
  by (auto simp: Addr_String_def string4_def dest: formatNat_set)

lemma Addr4_no_separator: "CHR ''/'' \<notin> set (Addr_String (Addr4 w))" "CHR ''#'' \<notin> set (Addr_String (Addr4 w))"
  using Addr4_chars isDigit_distinct by fastforce+

lemma ParseInt_formatNat: "n < 2 ^ (bits - 1) \<Longrightarrow> ParseInt (formatNat n) bits = Some (int n)"
proof -
  assume n: "n < 2 ^ (bits - 1)"
  obtain c r where cr: "formatNat n = c # r" using formatNat_not_Nil by (cases "formatNat n") auto
  have "c \<noteq> CHR ''+''" "c \<noteq> CHR ''-''" using isDigit_distinct [OF formatNat_set [of c n]] cr by auto
  moreover have "ParseUint (c # r) bits = Some n"
    using ParseUint_formatNat [of n bits] n cr
    by (metis less_le_trans one_le_numeral power_increasing diff_le_self)
  ultimately show ?thesis using n by (simp add: ParseInt_def cr)
qed

lemma formatNat_lead: "10 \<le> n \<Longrightarrow> isDigit (hd (formatNat n)) \<and> hd (formatNat n) \<noteq> CHR ''0''"
proof (induction n rule: formatNat.induct)
  case (1 n)
  have f: "formatNat n = formatNat (n div 10) @ [char_of (48 + n mod 10)]"
    using 1 by (simp add: formatNat.simps [of n])
  show ?case
  proof (cases "n div 10 < 10")
    case True
    have "digitVal (CHR ''0'') = 0" by (simp add: digitVal_def)
    then have "char_of (48 + n div 10) \<noteq> CHR ''0''"
      using digit_char [OF True] 1(2) by (metis div_le_mono div_self not_one_le_zero numeral_eq_one_iff one_neq_zero zero_neq_numeral)
    then show ?thesis
      using True digit_char [OF True] by (simp add: f formatNat.simps [of "n div 10"])
  next
    case False
    then show ?thesis using 1 formatNat_not_Nil [of "n div 10"] by (simp add: f)
  qed
qed

lemma until_first: "y \<notin> set xs \<Longrightarrow>
    takeWhile (\<lambda>c. c \<noteq> y) (xs @ y # ys) = xs \<and> dropWhile (\<lambda>c. c \<noteq> y) (xs @ y # ys) = y # ys"
  by (induction xs) auto

end
