(* ===== verification/NetipText.thy ===== *)
theory NetipText
  imports GoStrings
begin

text \<open>
  The text form of every address and prefix reads back: IPv4, IPv6 with and without a compressed
  run of zero groups, IPv4 addresses inside IPv6, and zones.
\<close>

section \<open>Hexadecimal groups\<close>

lemma hex_digit: "d < 16 \<Longrightarrow> hexVal (char_of (if d < 10 then 48 + d else 87 + d)) = Some d"
  by (auto simp: hexVal_def Let_def)

lemma formatHex_length: "n < 16 ^ Suc k \<Longrightarrow> 0 < length (formatHex n) \<and> length (formatHex n) \<le> Suc k"
proof (induction k arbitrary: n)
  case 0
  then show ?case by (simp add: formatHex.simps [of n] Let_def)
next
  case (Suc k)
  have "n div 16 < 16 ^ Suc k" using Suc.prems by (simp add: div_less_iff_less_mult)
  then show ?case using Suc.IH [of "n div 16"] by (simp add: formatHex.simps [of n] Let_def)
qed

lemma formatHex_not_Nil [simp]: "formatHex n \<noteq> []"
  by (subst formatHex.simps) (simp add: Let_def)

lemma formatHex_hex: "c \<in> set (formatHex n) \<Longrightarrow> hexVal c \<noteq> None"
proof (induction n rule: formatHex.induct)
  case (1 n)
  then show ?case using hex_digit [of "n mod 16"]
    by (subst (asm) (2) formatHex.simps) (auto simp: Let_def split: if_splits)
qed

lemma hexScan_group:
  "n < 65536 \<Longrightarrow> hexScan 0 0 (formatHex n @ s) = hexScan (length (formatHex n)) n s"
proof (induction n arbitrary: s rule: formatHex.induct)
  case (1 n)
  let ?c = "char_of (if n mod 16 < 10 then 48 + n mod 16 else 87 + n mod 16) :: char"
  have c: "hexVal ?c = Some (n mod 16)" using hex_digit [of "n mod 16"] by simp
  show ?case
  proof (cases "n < 16")
    case True
    then have f: "formatHex n = [?c]" by (simp add: formatHex.simps [of n] Let_def)
    show ?thesis unfolding f using True c by (simp add: Let_def)
  next
    case False
    then have f: "formatHex n = formatHex (n div 16) @ [?c]" by (simp add: formatHex.simps [of n] Let_def)
    have "n div 16 < 16 ^ Suc 2" using 1(2) by (simp add: div_less_iff_less_mult)
    then have "length (formatHex (n div 16)) \<le> 3" using formatHex_length [of "n div 16" 2] by simp
    then show ?thesis
      using 1(1) [OF _ _ False, of "n mod 16" ?c "?c # s"] 1(2) c unfolding f by (simp add: Let_def)
  qed
qed

lemma hexScan_stop:
  assumes "n < 65536" "s = [] \<or> hexVal (hd s) = None"
  shows "hexScan 0 0 (formatHex n @ s) = Some (n, length (formatHex n), s)"
  using assms hexScan_group [of n s] by (cases s) simp_all

section \<open>Groups separated by colons\<close>

definition colons :: "nat list \<Rightarrow> string" where
  "colons gs = joinWith (CHR '':'') (map formatHex gs)"

definition groupBytes :: "nat list \<Rightarrow> nat list" where
  "groupBytes gs = concat (map (\<lambda>g. [g div 256, g mod 256]) gs)"

lemma colons_simps [simp]:
  "colons [] = []" "colons [g] = formatHex g" "colons (g # h # gs) = formatHex g @ CHR '':'' # colons (h # gs)"
  by (simp_all add: colons_def)

lemma groupBytes_simps [simp]:
  "groupBytes [] = []" "groupBytes (g # gs) = [g div 256, g mod 256] @ groupBytes gs"
  "groupBytes (gs @ hs) = groupBytes gs @ groupBytes hs" "length (groupBytes gs) = 2 * length gs"
  by (simp_all add: groupBytes_def) (induction gs, simp_all)

lemma colon_no_digit [simp]: "hexVal (CHR '':'') = None" "hexVal (CHR ''.'') = None"
  by (simp_all add: hexVal_def)

lemma colons_hd: "gs \<noteq> [] \<Longrightarrow> \<exists>c s. colons gs = c # s \<and> hexVal c \<noteq> None"
proof -
  assume "gs \<noteq> []"
  then obtain g gs' where g: "gs = g # gs'" by (cases gs) auto
  obtain c s where c: "formatHex g = c # s" using formatHex_not_Nil by (cases "formatHex g") auto
  then have "hexVal c \<noteq> None" using formatHex_hex [of c g] by simp
  then show ?thesis using c g by (cases gs') auto
qed

lemma colons_not_Nil: "gs \<noteq> [] \<Longrightarrow> colons gs \<noteq> [] \<and> hd (colons gs) \<noteq> CHR '':''"
  using colons_hd [of gs] by auto

text \<open>One group and what follows it.\<close>

lemma ipv6Loop_last:
  "g < 65536 \<Longrightarrow> ipv6Loop (Suc n) ip e (formatHex g) = Some (ip @ [g div 256, g mod 256], e, [])"
  using hexScan_stop [of g "[]"] by simp

lemma ipv6Loop_group:
  assumes "g < 65536" "s \<noteq> []"
  shows "ipv6Loop (Suc n) ip e (formatHex g @ CHR '':'' # s) =
     (if hd s = CHR '':'' then
        if e \<noteq> None then None
        else if tl s = [] then Some (ip @ [g div 256, g mod 256], Some (length ip + 2), [])
        else ipv6Loop n (ip @ [g div 256, g mod 256]) (Some (length ip + 2)) (tl s)
      else ipv6Loop n (ip @ [g div 256, g mod 256]) e s)"
  using assms hexScan_stop [of g "CHR '':'' # s"] by (simp add: Let_def)

lemma ipv6Loop_colons:
  "gs \<noteq> [] \<Longrightarrow> list_all (\<lambda>g. g < 65536) gs \<Longrightarrow> length gs \<le> n \<Longrightarrow>
     ipv6Loop n ip e (colons gs) = Some (ip @ groupBytes gs, e, [])"
proof (induction gs arbitrary: n ip)
  case (Cons g gs)
  obtain m where n: "n = Suc m" using Cons.prems by (cases n) auto
  show ?case
  proof (cases gs)
    case Nil
    then show ?thesis using Cons.prems ipv6Loop_last [of g m ip e] n by simp
  next
    case (Cons h hs)
    then have "ipv6Loop m (ip @ [g div 256, g mod 256]) e (colons gs) = Some (ip @ groupBytes (g # gs), e, [])"
      using Cons.IH Cons.prems n by simp
    then show ?thesis
      using Cons Cons.prems(2) colons_not_Nil [of gs] n ipv6Loop_group [of g "colons gs" m ip e] by simp
  qed
qed simp

lemma ipv6Loop_ellipsis:
  "as \<noteq> [] \<Longrightarrow> list_all (\<lambda>g. g < 65536) (as @ bs) \<Longrightarrow> length as + length bs \<le> n \<Longrightarrow>
     ipv6Loop n ip None (colons as @ ''::'' @ colons bs) =
       Some (ip @ groupBytes (as @ bs), Some (length ip + 2 * length as), [])"
proof (induction as arbitrary: n ip)
  case (Cons g as)
  obtain m where n: "n = Suc m" using Cons.prems by (cases n) auto
  let ?ip = "ip @ [g div 256, g mod 256]"
  show ?case
  proof (cases as)
    case Nil
    have step: "ipv6Loop (Suc m) ip None (formatHex g @ CHR '':'' # CHR '':'' # colons bs) =
        (if colons bs = [] then Some (?ip, Some (length ip + 2), []) else ipv6Loop m ?ip (Some (length ip + 2)) (colons bs))"
      using Cons.prems(2) ipv6Loop_group [of g "CHR '':'' # colons bs" m ip None] by simp
    show ?thesis
    proof (cases "bs = []")
      case True
      then show ?thesis using step Nil n by simp
    next
      case False
      then have "ipv6Loop m ?ip (Some (length ip + 2)) (colons bs) = Some (?ip @ groupBytes bs, Some (length ip + 2), [])"
        using Cons.prems Nil n by (intro ipv6Loop_colons) simp_all
      then show ?thesis using step Nil n False colons_not_Nil [of bs] by simp
    qed
  next
    case (Cons h hs)
    then have IH: "ipv6Loop m ?ip None (colons as @ ''::'' @ colons bs) =
        Some (?ip @ groupBytes (as @ bs), Some (length ?ip + 2 * length as), [])"
      using Cons.IH Cons.prems n by simp
    have "colons as @ ''::'' @ colons bs \<noteq> [] \<and> hd (colons as @ ''::'' @ colons bs) \<noteq> CHR '':''"
      using colons_not_Nil [of as] Cons by simp
    then show ?thesis
      using Cons Cons.prems(2) n IH ipv6Loop_group [of g "colons as @ ''::'' @ colons bs" m ip None] by simp
  qed
qed simp

section \<open>The compressed run\<close>

lemma zeroRun_spec:
  assumes "zeroRun gs = (s, e)" "length gs = 8"
  shows "s = 255 \<and> e = 255 \<or> s + 2 \<le> e \<and> e \<le> 8 \<and> (\<forall>i. s \<le> i \<and> i < e \<longrightarrow> gs ! i = 0)"
proof -
  let ?step = "\<lambda>i (s, e). let j = i + length (takeWhile (\<lambda>g. g = 0) (drop i gs)) in
     if 2 \<le> j - i \<and> e - s < j - i then (i, j) else (s, e :: nat)"
  let ?P = "\<lambda>(s, e). s = 255 \<and> e = 255 \<or> s + 2 \<le> e \<and> e \<le> 8 \<and> (\<forall>i. s \<le> i \<and> i < e \<longrightarrow> gs ! i = 0)"
  have one: "?P (?step i x)" if "?P x" "i < 8" for i x
  proof -
    obtain s e where x: "x = (s, e)" by (cases x)
    let ?l = "length (takeWhile (\<lambda>g. g = 0) (drop i gs))"
    have le: "?l \<le> 8 - i" using length_takeWhile_le [of "\<lambda>g. g = 0" "drop i gs"] assms(2) by simp
    have "gs ! k = 0" if "i \<le> k" "k < i + ?l" for k
    proof -
      have "takeWhile (\<lambda>g. g = 0) (drop i gs) ! (k - i) = 0"
        using that nth_mem [of "k - i" "takeWhile (\<lambda>g. g = 0) (drop i gs)"] set_takeWhileD by fastforce
      then show ?thesis using that le assms(2) by (simp add: takeWhile_nth)
    qed
    then show ?thesis using that(1,2) x le by (auto simp: Let_def)
  qed
  have inv: "?P (fold ?step is x)" if "?P x" "set is \<subseteq> {..<8}" for "is" x
    using that
  proof (induction "is" arbitrary: x)
    case (Cons i "is")
    then have "?P (?step i x)" using one [of x i] by simp
    then show ?case using Cons.IH [of "?step i x"] Cons.prems(2) by simp
  qed simp
  have "?P (fold ?step [0..<8] (255, 255))" by (rule inv) auto
  then show ?thesis using assms(1) by (simp add: zeroRun_def)
qed

lemma groupBytes_zeros: "groupBytes (replicate k 0) = replicate (2 * k) 0"
  by (induction k) simp_all

text \<open>The bytes between the two ends are the zeros of the run.\<close>

lemma expand_run:
  assumes "length gs = 8" "s + 2 \<le> e" "e \<le> 8" "\<forall>i. s \<le> i \<and> i < e \<longrightarrow> gs ! i = 0"
  shows "expandEllipsis (groupBytes (take s gs @ drop e gs)) (Some (2 * s)) = Some (groupBytes gs)"
proof -
  have "drop s (take e gs) = replicate (e - s) 0"
    using assms by (intro nth_equalityI) simp_all
  then have gs: "gs = take s gs @ replicate (e - s) 0 @ drop e gs"
    by (metis append_take_drop_id assms(2) add_leD1 min.absorb1 take_take drop_take append_assoc)
  have len: "length (groupBytes (take s gs)) = 2 * s" using assms by simp
  have "groupBytes gs = groupBytes (take s gs) @ replicate (2 * (e - s)) 0 @ groupBytes (drop e gs)"
    by (subst gs) (simp only: groupBytes_simps groupBytes_zeros)
  moreover have "16 - length (groupBytes (take s gs @ drop e gs)) = 2 * (e - s)"
    "length (groupBytes (take s gs @ drop e gs)) < 16"
    using assms by simp_all
  ultimately show ?thesis
    by (simp add: expandEllipsis_def len del: groupBytes_simps(4))
qed

section \<open>The value of the groups\<close>

lemma foldl_groupBytes: "foldl (\<lambda>a b. a * 256 + b) x (groupBytes gs) = foldl (\<lambda>a g. a * 65536 + g) x gs"
proof (induction gs arbitrary: x)
  case (Cons g gs)
  have "(x * 256 + g div 256) * 256 + g mod 256 = x * 65536 + g" by (simp add: algebra_simps)
  then have "foldl (\<lambda>a b. a * 256 + b) x (groupBytes (g # gs)) = foldl (\<lambda>a b. a * 256 + b) (x * 65536 + g) (groupBytes gs)"
    by (simp only: groupBytes_simps foldl_append foldl.simps)
  then show ?case by (simp only: Cons foldl.simps)
qed simp

lemma groups_value:
  fixes n :: nat
  shows "foldl (\<lambda>a g. a * 65536 + g) 0 (map (\<lambda>i. n div 65536 ^ (k - i) mod 65536) [0..<Suc k]) = n mod 65536 ^ Suc k"
proof (induction k arbitrary: n)
  case (Suc k)
  have "n div 65536 ^ (Suc k - i) = (n div 65536) div 65536 ^ (k - i)" if "i \<le> k" for i
    using that by (simp add: Suc_diff_le div_mult2_eq)
  then have shift: "map (\<lambda>i. n div 65536 ^ (Suc k - i) mod 65536) [0..<Suc k] =
      map (\<lambda>i. (n div 65536) div 65536 ^ (k - i) mod 65536) [0..<Suc k]"
    by (intro map_cong refl) (simp add: less_Suc_eq_le del: upt_Suc)
  have "map (\<lambda>i. n div 65536 ^ (Suc k - i) mod 65536) [0..<Suc (Suc k)] =
      map (\<lambda>i. n div 65536 ^ (Suc k - i) mod 65536) [0..<Suc k] @ [n mod 65536]"
    by simp
  then have "foldl (\<lambda>a g. a * 65536 + g) 0 (map (\<lambda>i. n div 65536 ^ (Suc k - i) mod 65536) [0..<Suc (Suc k)]) =
      (n div 65536) mod 65536 ^ Suc k * 65536 + n mod 65536"
    unfolding shift using Suc.IH [of "n div 65536"] by (simp del: upt_Suc)
  also have "\<dots> = n mod 65536 ^ Suc (Suc k)"
    using mod_mult2_eq [of n 65536 "65536 ^ Suc k"] by (simp add: algebra_simps)
  finally show ?case .
qed simp

lemma bytesVal_groups: "bytesVal (groupBytes (groups w)) = unat w"
proof -
  have "unat w < 2 ^ 128" using unsigned_less [of w] by simp
  moreover have "groups w = map (\<lambda>i. unat w div 65536 ^ (7 - i) mod 65536) [0..<Suc 7]" by (simp add: groups_def)
  ultimately show ?thesis using groups_value [of "unat w" 7] by (simp add: bytesVal_def foldl_groupBytes)
qed

lemma groups_facts: "length (groups w) = 8" "list_all (\<lambda>g. g < 65536) (groups w)"
  by (simp_all add: groups_def list_all_iff)

section \<open>Addresses\<close>

lemma hexVal_plain: "hexVal c \<noteq> None \<Longrightarrow> c \<noteq> CHR ''.'' \<and> c \<noteq> CHR '':'' \<and> c \<noteq> CHR ''%'' \<and> c \<noteq> CHR ''/'' \<and> c \<noteq> CHR ''#''"
  by (auto simp: hexVal_def)

lemma colons_chars: "c \<in> set (colons gs) \<Longrightarrow> hexVal c \<noteq> None \<or> c = CHR '':''"
  using set_joinWith [of "CHR '':''" "map formatHex gs"] formatHex_hex by (auto simp: colons_def)

lemma string6_cases:
  assumes "length gs = 8" "list_all (\<lambda>g. g < 65536) gs"
  obtains (full) "string6 gs = colons gs"
    | (run) s e where "s + 2 \<le> e" "e \<le> 8" "\<forall>i. s \<le> i \<and> i < e \<longrightarrow> gs ! i = 0"
        "string6 gs = colons (take s gs) @ ''::'' @ colons (drop e gs)"
proof -
  obtain s e where z: "zeroRun gs = (s, e)" by (cases "zeroRun gs")
  from zeroRun_spec [OF z assms(1)] show ?thesis
    using full run z by (auto simp: string6_def colons_def Let_def)
qed

text \<open>What \<open>parseIPv6\<close> does after the zone has been split off.\<close>

definition readGroups :: "string \<Rightarrow> nat list option" where
  "readGroups s =
     (if take 2 s = ''::'' \<and> drop 2 s = [] then Some (replicate 16 0) else
      case ipv6Loop 8 [] (if take 2 s = ''::'' then Some 0 else None) (if take 2 s = ''::'' then drop 2 s else s) of
        None \<Rightarrow> None
      | Some (ip, ellipsis, rest) \<Rightarrow> if rest \<noteq> [] then None else expandEllipsis ip ellipsis)"

lemma parseIPv6_zone:
  assumes "CHR ''%'' \<notin> set s" "readGroups s = Some bs"
  shows "parseIPv6 (s @ zoneSuffix z) = Some (Addr6 (word_of_nat (bytesVal bs)) z)"
proof -
  have zero: "bytesVal (replicate 16 0) = 0" by (simp add: bytesVal_def eval_nat_numeral)
  have free: "takeWhile (\<lambda>c. c \<noteq> CHR ''%'') s = s" "dropWhile (\<lambda>c. c \<noteq> CHR ''%'') s = []"
    using assms(1) by (auto simp: takeWhile_eq_all_conv dropWhile_eq_Nil_conv)
  have split: "takeWhile (\<lambda>c. c \<noteq> CHR ''%'') (s @ zoneSuffix z) = s"
    "tl (dropWhile (\<lambda>c. c \<noteq> CHR ''%'') (s @ zoneSuffix z)) = z" "CHR ''%'' \<in> set (s @ zoneSuffix z) \<longleftrightarrow> z \<noteq> []"
    using until_first [OF assms(1), of z] assms(1) free by (simp_all add: zoneSuffix_def)
  show ?thesis
    using assms(2) zero unfolding parseIPv6_def Let_def split
    by (auto simp: readGroups_def split: if_splits option.splits)
qed

lemma readGroups_string6:
  assumes "length gs = 8" "list_all (\<lambda>g. g < 65536) gs"
  shows "readGroups (string6 gs) = Some (groupBytes gs)"
  using assms
proof (cases gs rule: string6_cases)
  case full
  have ne: "gs \<noteq> []" using assms(1) by auto
  then obtain c s where "colons gs = c # s" "hexVal c \<noteq> None" using colons_hd by blast
  then have "take 2 (colons gs) \<noteq> ''::''" using hexVal_plain [of c] by (auto simp: eval_nat_numeral)
  moreover have "ipv6Loop 8 [] None (colons gs) = Some (groupBytes gs, None, [])"
    using ipv6Loop_colons [OF ne assms(2), of 8 "[]" None] assms(1) by simp
  ultimately show ?thesis using full assms(1) by (simp add: readGroups_def expandEllipsis_def)
next
  case (run s e)
  let ?as = "take s gs" and ?bs = "drop e gs"
  have lens: "length ?as = s" "length ?bs = 8 - e" using run assms(1) by simp_all
  have all: "list_all (\<lambda>g. g < 65536) (?as @ ?bs)"
    using assms(2) by (auto simp: list_all_iff dest: in_set_takeD in_set_dropD)
  have exp: "expandEllipsis (groupBytes (?as @ ?bs)) (Some (2 * s)) = Some (groupBytes gs)"
    using expand_run [OF assms(1) run(1-3)] .
  show ?thesis
  proof (cases "s = 0")
    case True
    show ?thesis
    proof (cases "e = 8")
      case e: True
      have "gs = replicate 8 0" using run(3) True e assms(1) by (intro nth_equalityI) simp_all
      then have "groupBytes gs = replicate 16 0" using groupBytes_zeros [of 8] by simp
      then show ?thesis using run(4) True e assms(1) by (simp add: readGroups_def)
    next
      case False
      then have "?bs \<noteq> []" using run(2) assms(1) by simp
      then have "ipv6Loop 8 [] (Some 0) (colons ?bs) = Some (groupBytes ?bs, Some 0, [])"
        using ipv6Loop_colons [of ?bs 8 "[]" "Some 0"] all lens by simp
      then show ?thesis
        using run(4) True exp colons_not_Nil [OF \<open>?bs \<noteq> []\<close>] by (simp add: readGroups_def)
    qed
  next
    case False
    then have ne: "?as \<noteq> []" using assms(1) by auto
    then obtain c t where c: "colons ?as = c # t" "hexVal c \<noteq> None" using colons_hd by blast
    then have "take 2 (string6 gs) \<noteq> ''::''" using hexVal_plain [of c] run(4) by (auto simp: eval_nat_numeral)
    moreover have "ipv6Loop 8 [] None (string6 gs) = Some (groupBytes (?as @ ?bs), Some (2 * s), [])"
      unfolding run(4) using ipv6Loop_ellipsis [OF ne all, of 8 "[]"] lens run(1,2) by simp
    ultimately show ?thesis using exp by (simp add: readGroups_def)
  qed
qed

text \<open>IPv4 inside IPv6: the last group is followed by a dot, and four decimal fields are read.\<close>

lemma hexScan_decimal:
  assumes "n \<le> 255"
  shows "\<exists>acc off. hexScan 0 0 (formatNat n @ CHR ''.'' # s) = Some (acc, off, CHR ''.'' # s) \<and> 0 < off"
proof -
  have scan: "\<exists>acc'. hexScan off acc (ds @ CHR ''.'' # s) = Some (acc', off + length ds, CHR ''.'' # s)"
    if "list_all isDigit ds" "off + length ds \<le> 3" "acc < 16 ^ off" for ds off acc
    using that
  proof (induction ds arbitrary: off acc)
    case (Cons d ds)
    obtain v where v: "hexVal d = Some v" "v < 16" using Cons.prems(1) by (auto simp: isDigit_def hexVal_def Let_def)
    have lt: "acc * 16 + v < 16 ^ Suc off" using Cons.prems(3) v(2) by simp
    moreover have "(16 :: nat) ^ Suc off \<le> 16 ^ 3" using Cons.prems(2) by (intro power_increasing) simp_all
    ultimately have "acc * 16 + v \<le> 65535" by simp
    then show ?case using Cons.IH [of "Suc off" "acc * 16 + v"] Cons.prems v lt by (simp add: Let_def)
  qed simp
  have "length (formatNat n) \<le> 3"
    using assms by (simp add: formatNat.simps [of n] formatNat.simps [of "n div 10"] formatNat.simps [of "n div 10 div 10"])
  then show ?thesis
    using scan [of "formatNat n" 0 0] formatNat_digits [of n] formatNat_not_Nil [of n] by auto
qed

lemma readGroups_mapped:
  assumes "a \<le> 255" "b \<le> 255" "c \<le> 255" "d \<le> 255"
  shows "readGroups (''::ffff:'' @ string4 [a, b, c, d]) = Some (replicate 10 0 @ [255, 255, a, b, c, d])"
proof -
  let ?s = "string4 [a, b, c, d]"
  obtain t where t: "?s = formatNat a @ CHR ''.'' # t" by (simp add: string4_def)
  obtain acc off where scan: "hexScan 0 0 ?s = Some (acc, off, CHR ''.'' # t)" "0 < off"
    unfolding t using hexScan_decimal [OF assms(1), of t] by blast
  obtain x y where x: "formatNat a = x # y" using formatNat_not_Nil by (cases "formatNat a") auto
  then have "x \<noteq> CHR '':''" using isDigit_distinct [OF formatNat_set [of x a]] by simp
  then have hd: "?s \<noteq> []" "hd ?s \<noteq> CHR '':''" using t x by simp_all
  have ffff: "formatHex 65535 = ''ffff''" by code_simp
  have "ipv6Loop 8 [] (Some 0) (''ffff'' @ CHR '':'' # ?s) = ipv6Loop 7 [255, 255] (Some 0) ?s"
    using ipv6Loop_group [of 65535 ?s 7 "[]" "Some 0"] hd unfolding ffff by simp
  also have "\<dots> = Some ([255, 255] @ [a, b, c, d], Some 0, [])"
  proof -
    have "ipv6Loop (Suc 6) [255, 255] (Some 0) ?s = Some ([255, 255] @ [a, b, c, d], Some 0, [])"
      unfolding ipv6Loop.simps(2) using scan ipv4Loop_string4 [OF assms] by simp
    then show ?thesis by simp
  qed
  finally show ?thesis using hd by (simp add: readGroups_def expandEllipsis_def)
qed

lemma mapped_value:
  assumes "take 6 (groups w) = [0, 0, 0, 0, 0, 65535]" "map unat (be_bytes 4 (unat w)) = [a, b, c, d]"
  shows "bytesVal (replicate 10 0 @ [255, 255, a, b, c, d]) = unat w"
proof -
  let ?n = "unat w"
  have "groups w = [0, 0, 0, 0, 0, 65535] @ drop 6 (groups w)" by (metis append_take_drop_id assms(1))
  moreover have "[0..<8] = [0, 1, 2, 3, 4, 5, 6, 7 :: nat]" by code_simp
  then have "drop 6 (groups w) = [?n div 65536 mod 65536, ?n mod 65536]" by (simp add: groups_def)
  ultimately have gs: "groups w = [0, 0, 0, 0, 0, 65535, ?n div 65536 mod 65536, ?n mod 65536]" by simp
  have n: "?n = (65535 * 65536 + ?n div 65536 mod 65536) * 65536 + ?n mod 65536"
    using bytesVal_groups [of w] unfolding bytesVal_def foldl_groupBytes gs by simp
  have "bytesVal [a, b, c, d] = ?n mod 256 ^ 4"
    using bytesVal_map_unat [of "be_bytes 4 ?n"] be_val_be_bytes [of 4 ?n] by (simp only: assms(2))
  then have "((a * 256 + b) * 256 + c) * 256 + d = ?n mod 4294967296" by (simp add: bytesVal_def)
  moreover have "bytesVal (replicate 10 0 @ [255, 255, a, b, c, d]) = 65535 * 4294967296 + (((a * 256 + b) * 256 + c) * 256 + d)"
  proof -
    have "replicate 10 (0 :: nat) = [0, 0, 0, 0, 0, 0, 0, 0, 0, 0]" by code_simp
    then show ?thesis by (simp add: bytesVal_def)
  qed
  moreover have "?n mod 4294967296 = (?n div 65536 mod 65536) * 65536 + ?n mod 65536"
    using mod_mult2_eq [of ?n 65536 65536] by simp
  moreover have "65535 * 4294967296 + m = N" if "N = (65535 * 65536 + x) * 65536 + y" "m = x * 65536 + y" for N x y m :: nat
    using that by simp
  ultimately show ?thesis using n by presburger
qed

lemma colons_first:
  "\<exists>h t'. colons gs @ CHR '':'' # t = h @ CHR '':'' # t' \<and> (\<forall>c \<in> set h. hexVal c \<noteq> None)"
proof (cases gs)
  case Nil
  then show ?thesis by (intro exI [of _ "[]"] exI [of _ t]) simp
next
  case (Cons g hs)
  have "\<exists>t'. colons gs @ CHR '':'' # t = formatHex g @ CHR '':'' # t'" using Cons by (cases hs) simp_all
  then show ?thesis using formatHex_hex by blast
qed

lemma readGroups_addr:
  "\<exists>s bs. Addr_String (Addr6 w z) = s @ zoneSuffix z \<and> readGroups s = Some bs \<and> bytesVal bs = unat w \<and>
     (\<forall>c \<in> set s. hexVal c \<noteq> None \<or> c = CHR '':'' \<or> c = CHR ''.'') \<and>
     (\<exists>h t. s = h @ CHR '':'' # t \<and> (\<forall>c \<in> set h. hexVal c \<noteq> None))"
proof (cases "take 6 (groups w) = [0, 0, 0, 0, 0, 65535]")
  case True
  obtain a b c d where bs: "be_bytes 4 (unat w) = [a, b, c, d]" using length4 [of "be_bytes 4 (unat w)"] by auto
  let ?fs = "[unat a, unat b, unat c, unat d]"
  have le: "unat x \<le> 255" for x :: byte using unat_byte_less [of x] by simp
  have "readGroups (''::ffff:'' @ string4 ?fs) = Some (replicate 10 0 @ [255, 255] @ ?fs)"
    using readGroups_mapped [OF le le le le, of a b c d] by simp
  moreover have "bytesVal (replicate 10 0 @ [255, 255] @ ?fs) = unat w"
    using mapped_value [OF True, of "unat a" "unat b" "unat c" "unat d"] bs by simp
  moreover have "\<forall>c \<in> set (string4 ?fs). isDigit c \<or> c = CHR ''.''"
    using set_joinWith [of "CHR ''.''" "map formatNat ?fs"] by (auto simp: string4_def dest: formatNat_set)
  then have "\<forall>c \<in> set (''::ffff:'' @ string4 ?fs). hexVal c \<noteq> None \<or> c = CHR '':'' \<or> c = CHR ''.''"
    by (auto simp: isDigit_def hexVal_def)
  moreover have "''::ffff:'' @ string4 ?fs = [] @ CHR '':'' # '':ffff:'' @ string4 ?fs" by simp
  moreover have "Addr_String (Addr6 w z) = (''::ffff:'' @ string4 ?fs) @ zoneSuffix z"
    using True bs by (simp add: Addr_String_def)
  ultimately show ?thesis by (intro exI conjI) (assumption | simp)+
next
  case False
  let ?gs = "groups w"
  have str: "Addr_String (Addr6 w z) = string6 ?gs @ zoneSuffix z" using False by (simp add: Addr_String_def)
  have "\<forall>c \<in> set (string6 ?gs). hexVal c \<noteq> None \<or> c = CHR '':''"
    by (cases rule: string6_cases [OF groups_facts [of w]]) (auto dest: colons_chars)
  moreover have "\<exists>h t. string6 ?gs = h @ CHR '':'' # t \<and> (\<forall>c \<in> set h. hexVal c \<noteq> None)"
  proof (cases rule: string6_cases [OF groups_facts [of w]])
    case 1
    obtain g h gs where "?gs = g # h # gs" using groups_facts(1) [of w] by (auto simp: length_Suc_conv numeral_eq_Suc)
    then show ?thesis using 1 formatHex_hex by auto
  next
    case (2 s e)
    then show ?thesis using colons_first [of "take s ?gs" "CHR '':'' # colons (drop e ?gs)"] by simp
  qed
  ultimately show ?thesis
    using str readGroups_string6 [OF groups_facts] bytesVal_groups [of w]
    by (intro exI [of _ "string6 ?gs"] exI [of _ "groupBytes ?gs"]) auto
qed

text \<open>Every valid address reads back.\<close>

lemma ParseAddr_Addr6: "ParseAddr (Addr_String (Addr6 w z)) = Some (Addr6 w z)"
proof -
  obtain s bs h t where s: "Addr_String (Addr6 w z) = s @ zoneSuffix z" "readGroups s = Some bs" "bytesVal bs = unat w"
      "\<forall>c \<in> set s. hexVal c \<noteq> None \<or> c = CHR '':'' \<or> c = CHR ''.''" "s = h @ CHR '':'' # t" "\<forall>c \<in> set h. hexVal c \<noteq> None"
    using readGroups_addr [of w z] by blast
  have "CHR ''%'' \<notin> set s" using s(4) hexVal_plain [of "CHR ''%''"] by auto
  then have "parseIPv6 (s @ zoneSuffix z) = Some (Addr6 w z)" using parseIPv6_zone s(2,3) by simp
  moreover have "dropWhile (\<lambda>c. c \<noteq> CHR ''.'' \<and> c \<noteq> CHR '':'' \<and> c \<noteq> CHR ''%'') (h @ CHR '':'' # t @ zoneSuffix z) =
      CHR '':'' # t @ zoneSuffix z"
    using s(6) hexVal_plain by (subst dropWhile_append2) auto
  ultimately show ?thesis using s(1,5) by (simp add: ParseAddr_def)
qed

lemma ParseAddr_String: "a \<noteq> AddrZero \<Longrightarrow> ParseAddr (Addr_String a) = Some a"
  by (cases a) (simp_all add: ParseAddr_Addr4 ParseAddr_Addr6)

lemma Addr_String_chars:
  assumes "c \<in> set (Addr_String a)" "a \<noteq> AddrZero" "withoutZone a = a"
  shows "hexVal c \<noteq> None \<or> c = CHR '':'' \<or> c = CHR ''.''"
proof (cases a)
  case (Addr4 w)
  then show ?thesis using Addr4_chars [of c w] assms(1) by (auto simp: isDigit_def hexVal_def)
next
  case (Addr6 w z)
  then have "z = []" using assms(3) by (simp add: withoutZone_def)
  then show ?thesis using readGroups_addr [of w z] assms(1) Addr6 by (auto simp: zoneSuffix_def)
qed (use assms in simp)

section \<open>Prefixes\<close>

text \<open>The text of a valid prefix, and that it reads back as this prefix.\<close>

lemma Prefix_String_valid:
  assumes "0 \<le> Bits p"
  shows "Prefix_String p = Addr_String (prefixIP p) @ CHR ''/'' # formatNat (nat (Bits p))"
  using assms by (auto simp: Prefix_String_def Bits_def)

lemma Prefix_String_chars:
  assumes "c \<in> set (Prefix_String p)" "prefix_ok p" "0 \<le> Bits p"
  shows "hexVal c \<noteq> None \<or> c = CHR '':'' \<or> c = CHR ''.'' \<or> c = CHR ''/''"
proof -
  have "isDigit c \<Longrightarrow> hexVal c \<noteq> None" by (simp add: isDigit_def hexVal_def Let_def)
  then show ?thesis
    using assms Addr_String_chars [of c "prefixIP p"] formatNat_set [of c "nat (Bits p)"]
    by (auto simp: Prefix_String_valid prefix_ok_def)
qed

lemma PrefixFrom_valid:
  assumes "prefix_ok p" "0 \<le> Bits p"
  shows "PrefixFrom (prefixIP p) (Bits p) = p"
proof -
  have "Bits p \<le> 128" using assms(1) BitLen_le [of "prefixIP p"] by (simp add: prefix_ok_def)
  then have "uint (word_of_int (Bits p) :: 32 word) = Bits p" using assms(2) by (simp add: unsigned_of_int take_bit_int_eq_self)
  then show ?thesis using PrefixFrom_Bits [OF assms(1)] by simp
qed

lemma ParsePrefix_String:
  assumes "prefix_ok p" "0 \<le> Bits p"
  shows "ParsePrefix (Prefix_String p) = Some p"
proof -
  let ?ip = "prefixIP p" and ?b = "nat (Bits p)"
  let ?a = "Addr_String ?ip" and ?n = "formatNat ?b"
  have ip: "?ip \<noteq> AddrZero" "withoutZone ?ip = ?ip" "?b \<le> BitLen ?ip" using assms by (simp_all add: prefix_ok_def nat_le_iff)
  have "c \<noteq> CHR ''/''" if "c \<in> set (rev ?n)" for c using that isDigit_distinct formatNat_set [of c ?b] by auto
  then have tail: "takeWhile (\<lambda>c. c \<noteq> CHR ''/'') (rev (?a @ CHR ''/'' # ?n)) = rev ?n"
    "dropWhile (\<lambda>c. c \<noteq> CHR ''/'') (rev (?a @ CHR ''/'' # ?n)) = CHR ''/'' # rev ?a"
    using until_first [of "CHR ''/''" "rev ?n"] by auto
  have lead: "\<not> (1 < length ?n \<and> \<not> (isDigit (hd ?n) \<and> hd ?n \<noteq> CHR ''0''))"
    using formatNat_lead [of ?b] by (cases "?b < 10") (simp_all add: formatNat.simps [of ?b])
  have "?b < 2 ^ (64 - 1)" using ip(3) BitLen_le [of ?ip] by simp
  then have "ParseInt ?n 64 = Some (int ?b)" by (rule ParseInt_formatNat)
  moreover have "PrefixFrom ?ip (Bits p) = p" by (rule PrefixFrom_valid [OF assms])
  ultimately show ?thesis
    using lead ip assms(2) ParseAddr_String [OF ip(1)]
    by (simp add: Prefix_String_valid [OF assms(2)] ParsePrefix_def Let_def tail [simplified])
qed

end
