(* ===== verification/CommandLine.thy ===== *)
theory CommandLine
  imports Machine Netlink NetipText
begin

text \<open>
  The program \<open>src/cmd/metalbond/main.go\<close> and the conversion of route types in
  \<open>src/pb/util.go\<close>. The flags are what the flag library fills in; a \<open>log.Fatalf\<close>, which ends
  the process, is an error returned by the function that makes it; a \<open>panic\<close> is one.
  Logging (and the flags for it) and the goroutine counter are left out, and so is the HTTP
  server's goroutine, which \<open>StartHTTPServer\<close> only starts.
\<close>

section \<open>Flags\<close>

record serverFlags =
  srvListen :: string
  srvKeepalive :: "32 word"
  srvHttp :: string
  srvTxChanCapacity :: int
  srvRxChanEventCapacity :: int
  srvRxChanDataUpdateCapacity :: int

record clientFlags =
  cliServer :: "string list"
  cliSubscribe :: "32 word list"
  cliAnnounce :: "string list"
  cliInstallRoutes :: "string list"
  cliTun :: string
  cliIPv4only :: bool
  cliKeepalive :: "32 word"
  cliHttp :: string
  cliCleanup :: bool
  cliTxChanCapacity :: int
  cliRxChanEventCapacity :: int
  cliRxChanDataUpdateCapacity :: int

text \<open>
  The capacities of the three kinds of channels: the defaults unless a flag is positive. The
  third is taken from its flag when the \<^emph>\<open>second\<close> flag is positive.
\<close>

definition serverCapacities :: "serverFlags \<Rightarrow> int \<times> int \<times> int" where
  "serverCapacities f =
     (if 0 < srvTxChanCapacity f then srvTxChanCapacity f else 2048,
      if 0 < srvRxChanEventCapacity f then srvRxChanEventCapacity f else 10,
      if 0 < srvRxChanEventCapacity f then srvRxChanDataUpdateCapacity f else 100)"

definition clientCapacities :: "clientFlags \<Rightarrow> int \<times> int \<times> int" where
  "clientCapacities f =
     (if 0 < cliTxChanCapacity f then cliTxChanCapacity f else 100,
      if 0 < cliRxChanEventCapacity f then cliRxChanEventCapacity f else 10,
      if 0 < cliRxChanEventCapacity f then cliRxChanDataUpdateCapacity f else 50)"

section \<open>Route types\<close>

definition ConvertCmdLineStrToEnumValue :: "string \<Rightarrow> NextHopType" where
  "ConvertCmdLineStrToEnumValue routeType =
     (if containsStr (toLower routeType) ''std'' then NextHopType_STANDARD
      else if containsStr (toLower routeType) ''lb'' then NextHopType_LOADBALANCER_TARGET
      else if containsStr (toLower routeType) ''nat'' then NextHopType_NAT
      else NextHopType_STANDARD)"

section \<open>Mappings of VNIs to route tables\<close>

definition parseMapping :: "string \<Rightarrow> error + (VNI \<times> int)" where
  "parseMapping mapping =
     (let parts = splitOn (CHR ''#'') mapping in
      if length parts \<noteq> 2 then Inl (Errorf ''malformed VNI Table mapping: %s'') else
      case ParseUint (parts ! 0) 24 of
        None \<Rightarrow> Inl (Errorf ''cannot parse VNI: %s'')
      | Some vni \<Rightarrow>
          (case ParseUint (parts ! 1) 24 of
             None \<Rightarrow> Inl (Errorf ''cannot parse table: %s'')
           | Some table \<Rightarrow> Inr (word_of_nat vni, int table)))"

fun parseMappings :: "string list \<Rightarrow> (VNI, int) gomap \<Rightarrow> error + (VNI, int) gomap" where
  "parseMappings [] m = Inr m"
| "parseMappings (x # xs) m =
     (case parseMapping x of Inl e \<Rightarrow> Inl e | Inr (vni, table) \<Rightarrow> parseMappings xs (gput vni table m))"

section \<open>Announcements\<close>

definition parseAnnouncement :: "string \<Rightarrow> error + (VNI \<times> Destination \<times> NextHop)" where
  "parseAnnouncement announcement =
     (let parts = splitOn (CHR ''#'') announcement in
      if length parts \<noteq> 4 \<and> length parts \<noteq> 3 \<and> length parts \<noteq> 6
      then Inl (Errorf ''malformed announcement: %s'') else
      let routeType = (if 3 < length parts then ConvertCmdLineStrToEnumValue (parts ! 3)
                       else NextHopType_STANDARD) in
      case ParseUint (parts ! 0) 24 of
        None \<Rightarrow> Inl (Errorf ''invalid VNI: %s'')
      | Some vni \<Rightarrow>
      case ParsePrefix (parts ! 1) of
        None \<Rightarrow> Inl (Errorf ''invalid prefix: %s'')
      | Some pfx \<Rightarrow>
      let dest = \<lparr>destIPVersion = (if Is4 (prefixIP pfx) then IPV4 else IPV6), destPrefix = pfx\<rparr> in
      case ParseAddr (parts ! 2) of
        None \<Rightarrow> Inl (Errorf ''invalid nexthop address: %s - %v'')
      | Some hopIP \<Rightarrow>
      let hop = \<lparr>TargetAddress = hopIP, TargetVNI = 0, nhType = routeType,
                 NATPortRangeFrom = 0, NATPortRangeTo = 0\<rparr> in
      if routeType \<noteq> NextHopType_NAT then Inr (word_of_nat vni, dest, hop)
      else if length parts \<le> 4 then Inl (Errorf ''malformed announcement for NAT: %s'')
      else
        case ParseInt (parts ! 4) 16 of
          None \<Rightarrow> Inl (Errorf ''invalid NAT from: %s'')
        | Some from \<Rightarrow>
        case ParseInt (parts ! 5) 16 of
          None \<Rightarrow> Inl (Errorf ''invalid NAT from: %s'')
        | Some to \<Rightarrow> Inr (word_of_nat vni, dest,
            hop\<lparr>NATPortRangeFrom := word_of_int from, NATPortRangeTo := word_of_int to\<rparr>))"

section \<open>The client command\<close>

text \<open>
  The client is a netlink client when routes are to be installed, and else the dummy. Its state
  is kept with the kernel's.
\<close>

type_synonym 'k mainClient = "NetlinkClient option \<times> 'k"

definition onNetlink :: "('k nl \<Rightarrow> error option \<times> 'k nl) \<Rightarrow> 'k mainClient \<Rightarrow> error option \<times> 'k mainClient" where
  "onNetlink f = (\<lambda>(oc, k). case oc of
     None \<Rightarrow> (None, (None, k))
   | Some c \<Rightarrow> (let (e, (c', k')) = f (c, k) in (e, (Some c', k'))))"

definition mainOps :: "'k netlinkLib \<Rightarrow> sorter \<Rightarrow> 'k mainClient Client" where
  "mainOps K srt = \<lparr>AddRoute = \<lambda>v d h. onNetlink (nlAddRoute K srt v d h),
     RemoveRoute = \<lambda>v d h. onNetlink (nlRemoveRoute K v d h)\<rparr>"

definition makeClient :: "'k netlinkLib \<Rightarrow> clientFlags \<Rightarrow> 'k \<Rightarrow> (error + NetlinkClient option) \<times> 'k" where
  "makeClient K f k =
     (if cliInstallRoutes f = [] then (Inr None, k) else
      case parseMappings (cliInstallRoutes f) [] of
        Inl e \<Rightarrow> (Inl e, k)
      | Inr vnitablemap \<Rightarrow>
          (case NewNetlinkClient K \<lparr>VNITableMap = vnitablemap, LinkName = cliTun f, IPv4Only = cliIPv4only f\<rparr> k of
             (Inl e, k') \<Rightarrow> (Inl (Wrapf ''Cannot create MetalBond Client: %v'' e), k')
           | (Inr c, k') \<Rightarrow> (Inr (Some c), k')))"

text \<open>The two loops that end the process on the first error.\<close>

definition subscribeAll :: "'c env \<Rightarrow> VNI list \<Rightarrow> ('c, error option) go" where
  "subscribeAll E vnis = forReturn vnis (\<lambda>vni.
     bind (mbSubscribe E vni) (\<lambda>r. case r of
       Some e \<Rightarrow> ret (Some (Wrapf ''Subscription failed: %v'' e))
     | None \<Rightarrow> ret None))"

definition announceAll :: "'c env \<Rightarrow> string list \<Rightarrow> ('c, error option) go" where
  "announceAll E announcements = forReturn announcements (\<lambda>announcement.
     case parseAnnouncement announcement of
       Inl e \<Rightarrow> ret (Some e)
     | Inr (vni, dest, hop) \<Rightarrow>
         bind (AnnounceRoute E vni dest hop) (\<lambda>r. case r of
           Some e \<Rightarrow> ret (Some (Wrapf ''failed to announce route: %v'' e))
         | None \<Rightarrow> ret None))"

text \<open>\<open>uuid\<close> is the identifier each new peer gets.\<close>

definition addPeers :: "(string \<Rightarrow> string) \<Rightarrow> int \<times> int \<times> int \<Rightarrow> string list \<Rightarrow> ('c, unit) go" where
  "addPeers uuid caps servers = (let (tx, rxEvent, rxData) = caps in
     forEach servers (\<lambda>server.
       bind (AddPeer (uuid server) server [] tx rxEvent rxData) (\<lambda>r. if r \<noteq> None then panic else ret ())))"

definition clientStart :: "'c env \<Rightarrow> (string \<Rightarrow> string) \<Rightarrow> clientFlags \<Rightarrow> ('c, error option) go" where
  "clientStart E uuid f =
     bind (subscribeAll E (cliSubscribe f)) (\<lambda>r. if r \<noteq> None then ret r else
     bind (announceAll E (cliAnnounce f)) (\<lambda>r. if r \<noteq> None then ret r else
     andThen (addPeers uuid (clientCapacities f) (cliServer f)) (ret None)))"

text \<open>
  The client command up to the wait for its connections: it makes the client, then the node
  with it, then starts. \<open>Inl\<close> is the end of the process before there is a node.
\<close>

definition clientMain :: "'k netlinkLib \<Rightarrow> sorter \<Rightarrow> codec \<Rightarrow> (string \<Rightarrow> string) \<Rightarrow> clientFlags \<Rightarrow> 'k
    \<Rightarrow> error + (error option outcome \<times> 'k mainClient world)" where
  "clientMain K srt C uuid f k =
     (case makeClient K f k of
        (Inl e, k') \<Rightarrow> Inl e
      | (Inr oc, k') \<Rightarrow> Inr (clientStart \<lparr>cdc = C, ops = mainOps K srt\<rparr> uuid f
          (initWorld \<lparr>cfgKeepaliveInterval = cliKeepalive f\<rparr> (oc, k'))))"

text \<open>The end of the client: shut down, and remove the installed routes if asked to.\<close>

definition clientStop :: "'k netlinkLib \<Rightarrow> 'k mainClient env \<Rightarrow> clientFlags \<Rightarrow> ('k mainClient, unit) go" where
  "clientStop K E f =
     andThen (Shutdown E)
     (if cliCleanup f then andThen (onClient (onNetlink (nlCleanup K))) (ret ()) else ret ())"

section \<open>Waiting for the connections\<close>

text \<open>
  \<open>states i\<close> is what \<open>PeerState\<close> answers in round \<open>i\<close>, \<open>now i\<close> the time read at its end. A result
  of \<open>True\<close> means that all servers are connected, \<open>False\<close> is the panic at the deadline.
\<close>

definition allConnected :: "(string \<Rightarrow> ConnectionState \<times> error option) \<Rightarrow> string list \<Rightarrow> bool" where
  "allConnected answer servers \<longleftrightarrow>
     list_all (\<lambda>server. snd (answer server) = None \<and> fst (answer server) = ESTABLISHED) servers"

partial_function (option) waitConnected ::
    "(nat \<Rightarrow> string \<Rightarrow> ConnectionState \<times> error option) \<Rightarrow> (nat \<Rightarrow> int) \<Rightarrow> string list \<Rightarrow> int \<Rightarrow> nat \<Rightarrow> bool option" where
  "waitConnected states now servers deadline i =
     (if allConnected (states i) servers then Some True
      else if deadline < now i then Some False
      else waitConnected states now servers deadline (Suc i))"

section \<open>The server command\<close>

text \<open>The result are the capacities for the peers that the accept loop makes.\<close>

definition serverStart :: "bool \<Rightarrow> serverFlags \<Rightarrow> ('c, int \<times> int \<times> int) go" where
  "serverStart listening f =
     bind (StartServer listening) (\<lambda>r. if r \<noteq> None then panic else ret (serverCapacities f))"

text \<open>
  The server command: a node with the dummy client, which listens and, on a signal, shuts down. What
  the node does in between (theory \<open>Machine\<close>) is \<open>serving\<close>.
\<close>

definition serverMain :: "codec \<Rightarrow> bool \<Rightarrow> (int \<times> int \<times> int \<Rightarrow> (unit, unit) go) \<Rightarrow> serverFlags
    \<Rightarrow> unit outcome \<times> unit world" where
  "serverMain C listening serving f =
     bind (serverStart listening f) (\<lambda>caps. andThen (serving caps) (Shutdown \<lparr>cdc = C, ops = DummyClient\<rparr>))
       (initWorld \<lparr>cfgKeepaliveInterval = srvKeepalive f\<rparr> ())"

section \<open>The program\<close>

text \<open>
  The whole client command. \<open>waiting\<close> is what the node does until the wait for the connections
  ends, with the result of the wait; \<open>serving\<close> is what it does from then on until the signal.
\<close>

datatype 'k run =
    Fatal error
  | ServerRun "unit outcome \<times> unit world"
  | ClientRun "unit outcome \<times> 'k mainClient world"
  | UnknownCommand string

definition clientCommand :: "'k netlinkLib \<Rightarrow> sorter \<Rightarrow> codec \<Rightarrow> (string \<Rightarrow> string) \<Rightarrow> ('k mainClient, bool) go
    \<Rightarrow> ('k mainClient, unit) go \<Rightarrow> clientFlags \<Rightarrow> 'k \<Rightarrow> 'k run" where
  "clientCommand K srt C uuid waiting serving f k =
     (case clientMain K srt C uuid f k of
        Inl e \<Rightarrow> Fatal e
      | Inr (Returns (Some e), w) \<Rightarrow> Fatal e
      | Inr (Returns None, w) \<Rightarrow> ClientRun (bind waiting (\<lambda>connected.
          if \<not> connected then panic else
          andThen serving (clientStop K \<lparr>cdc = C, ops = mainOps K srt\<rparr> f)) w)
      | Inr (Panics, w) \<Rightarrow> ClientRun (Panics, w)
      | Inr (Blocks, w) \<Rightarrow> ClientRun (Blocks, w))"

text \<open>
  The \<open>switch\<close> over the command that the flag library found, and the version that the pages of the
  HTTP server show.
\<close>

definition mainCommand :: "'k netlinkLib \<Rightarrow> sorter \<Rightarrow> codec \<Rightarrow> (string \<Rightarrow> string) \<Rightarrow> bool
    \<Rightarrow> (int \<times> int \<times> int \<Rightarrow> (unit, unit) go) \<Rightarrow> ('k mainClient, bool) go \<Rightarrow> ('k mainClient, unit) go
    \<Rightarrow> string \<Rightarrow> serverFlags \<Rightarrow> clientFlags \<Rightarrow> 'k \<Rightarrow> 'k run" where
  "mainCommand K srt C uuid listening serverServing waiting clientServing cmd sf cf k =
     (if cmd = ''server'' then ServerRun (serverMain C listening serverServing sf)
      else if cmd = ''client'' then clientCommand K srt C uuid waiting clientServing cf k
      else UnknownCommand cmd)"

definition mainVersion :: "string \<Rightarrow> string" where
  "mainVersion version = (if version = [] then ''development'' else version)"

section \<open>Waiting ends\<close>

lemma clock_advances:
  fixes now :: "nat \<Rightarrow> int"
  assumes "start \<le> now 0" "\<And>i. now i + 1000000000 \<le> now (Suc i)"
  shows "start + 1000000000 * int i \<le> now i"
proof (induction i)
  case (Suc i)
  then show ?case using assms(2) [of i] by simp
qed (use assms(1) in simp)

lemma waitConnected_run:
  assumes "allConnected (states k) servers \<or> deadline < now k" "i \<le> k"
    "\<And>j. i \<le> j \<Longrightarrow> j < k \<Longrightarrow> \<not> allConnected (states j) servers \<and> \<not> deadline < now j"
  shows "waitConnected states now servers deadline i = Some (allConnected (states k) servers)"
  using assms(2,3)
proof (induction "k - i" arbitrary: i)
  case 0
  then show ?case using assms(1) by (subst waitConnected.simps) auto
next
  case (Suc n)
  then have "waitConnected states now servers deadline (Suc i) = Some (allConnected (states k) servers)" by simp
  moreover have "\<not> allConnected (states i) servers" "\<not> deadline < now i"
    using Suc.hyps(2) Suc.prems(2) [of i] by auto
  ultimately show ?case by (subst waitConnected.simps) simp
qed


definition exAnswers :: "nat \<Rightarrow> string \<Rightarrow> ConnectionState \<times> error option" where
  "exAnswers i server = (if i < 3 then CONNECTING else ESTABLISHED, None)"


section \<open>Announcements\<close>

lemma formatNat_no_hash: "CHR ''#'' \<notin> set (formatNat n)"
  using formatNat_set isDigit_distinct by blast

lemma routeTypes [simp]:
  "ConvertCmdLineStrToEnumValue ''STD'' = NextHopType_STANDARD"
  "ConvertCmdLineStrToEnumValue ''LB'' = NextHopType_LOADBALANCER_TARGET"
  "ConvertCmdLineStrToEnumValue ''NAT'' = NextHopType_NAT"
  by code_simp+

lemma parseAnnouncement_parts:
  assumes "length ps = 3 \<or> length ps = 4 \<or> length ps = 6" "list_all (\<lambda>p. CHR ''#'' \<notin> set p) ps"
    "ps ! 0 = formatNat vni" "vni < 2 ^ 24" "ParsePrefix (ps ! 1) = Some pfx" "ParseAddr (ps ! 2) = Some a"
  shows "parseAnnouncement (joinWith (CHR ''#'') ps) =
     (let routeType = (if 3 < length ps then ConvertCmdLineStrToEnumValue (ps ! 3) else NextHopType_STANDARD);
          dest = \<lparr>destIPVersion = (if Is4 (prefixIP pfx) then IPV4 else IPV6), destPrefix = pfx\<rparr>;
          hop = \<lparr>TargetAddress = a, TargetVNI = 0, nhType = routeType, NATPortRangeFrom = 0, NATPortRangeTo = 0\<rparr> in
      if routeType \<noteq> NextHopType_NAT then Inr (word_of_nat vni, dest, hop)
      else if length ps \<le> 4 then Inl (Errorf ''malformed announcement for NAT: %s'')
      else case ParseInt (ps ! 4) 16 of
          None \<Rightarrow> Inl (Errorf ''invalid NAT from: %s'')
        | Some from \<Rightarrow>
        case ParseInt (ps ! 5) 16 of
          None \<Rightarrow> Inl (Errorf ''invalid NAT from: %s'')
        | Some to \<Rightarrow> Inr (word_of_nat vni, dest,
            hop\<lparr>NATPortRangeFrom := word_of_int from, NATPortRangeTo := word_of_int to\<rparr>))"
proof -
  have ne: "ps \<noteq> []" using assms(1) by auto
  have "\<not> (length ps \<noteq> 4 \<and> length ps \<noteq> 3 \<and> length ps \<noteq> 6)" using assms(1) by auto
  moreover have "ParseUint (ps ! 0) 24 = Some vni" using assms(3,4) by (simp add: ParseUint_formatNat)
  ultimately show ?thesis
    unfolding parseAnnouncement_def splitOn_joinWith [OF ne assms(2)] Let_def
    by (simp only: if_False assms(5,6) option.case)
qed

lemma Prefix_no_hash: "prefix_ok p \<Longrightarrow> 0 \<le> Bits p \<Longrightarrow> CHR ''#'' \<notin> set (Prefix_String p)"
  using Prefix_String_chars [of "CHR ''#''" p] hexVal_plain [of "CHR ''#''"] by auto

text \<open>
  C30. An announcement written as the program's help text says, with a VNI below
  \<open>2\<^sup>2\<^sup>4\<close>, an IPv4 or IPv6 prefix in its standard text form, a next hop address in any form the library
  reads, and a route type, is read back as exactly this route. NAT port ranges are read back
  when their ports are below 32768.
\<close>

theorem announcement_roundtrip:
  assumes "vni < 2 ^ 24" "prefix_ok p \<and> 0 \<le> Bits p" "ParseAddr hs = Some a" "CHR ''#'' \<notin> set hs" "from < 32768" "to < 32768"
    and "head = [formatNat vni, Prefix_String p, hs]"
    and "dest = \<lparr>destIPVersion = (if Is4 (prefixIP p) then IPV4 else IPV6), destPrefix = p\<rparr>"
    and "hop = (\<lambda>t f g. \<lparr>TargetAddress = a, TargetVNI = 0, nhType = t, NATPortRangeFrom = f, NATPortRangeTo = g\<rparr>)"
  shows "parseAnnouncement (joinWith (CHR ''#'') head) = Inr (word_of_nat vni, dest, hop NextHopType_STANDARD 0 0) \<and>
     parseAnnouncement (joinWith (CHR ''#'') (head @ [''STD''])) =
       Inr (word_of_nat vni, dest, hop NextHopType_STANDARD 0 0) \<and>
     parseAnnouncement (joinWith (CHR ''#'') (head @ [''LB''])) =
       Inr (word_of_nat vni, dest, hop NextHopType_LOADBALANCER_TARGET 0 0) \<and>
     parseAnnouncement (joinWith (CHR ''#'') (head @ [''NAT'', formatNat from, formatNat to])) =
       Inr (word_of_nat vni, dest, hop NextHopType_NAT (word_of_nat from) (word_of_nat to))"
proof -
  have head: "list_all (\<lambda>p. CHR ''#'' \<notin> set p) head"
    using assms(2,4,7) Prefix_no_hash formatNat_no_hash by simp
  have ints: "ParseInt (formatNat m) 16 = Some (int m)" if "m < 32768" for m
    using that by (intro ParseInt_formatNat) simp
  note parts = parseAnnouncement_parts [OF _ _ _ assms(1) _ _, of _ p a]
  have "parseAnnouncement (joinWith (CHR ''#'') head) = Inr (word_of_nat vni, dest, hop NextHopType_STANDARD 0 0)"
    using parts [of head] head assms(2,3,7-9) by (simp add: ParsePrefix_String)
  moreover have "parseAnnouncement (joinWith (CHR ''#'') (head @ [''STD''])) =
      Inr (word_of_nat vni, dest, hop NextHopType_STANDARD 0 0)"
    using parts [of "head @ [''STD'']"] head assms(2,3,7-9) by (simp add: ParsePrefix_String)
  moreover have "parseAnnouncement (joinWith (CHR ''#'') (head @ [''LB''])) =
      Inr (word_of_nat vni, dest, hop NextHopType_LOADBALANCER_TARGET 0 0)"
    using parts [of "head @ [''LB'']"] head assms(2,3,7-9) by (simp add: ParsePrefix_String)
  moreover have "parseAnnouncement (joinWith (CHR ''#'') (head @ [''NAT'', formatNat from, formatNat to])) =
      Inr (word_of_nat vni, dest, hop NextHopType_NAT (word_of_nat from) (word_of_nat to))"
    using parts [of "head @ [''NAT'', formatNat from, formatNat to]"] head assms(2,3,5-9)
    by (simp add: ParsePrefix_String ints formatNat_no_hash)
  ultimately show ?thesis by blast
qed

theorem announcement_roundtrip_witness:
  "parseAnnouncement (joinWith (CHR ''#'') ([formatNat 23, Prefix_String (PrefixFrom (Addr6 0x20010DB8000000000000000000000000 []) 32),
       ''fd00::1''] @ [''NAT'', formatNat 1024, formatNat 2047])) =
     Inr (23, \<lparr>destIPVersion = IPV6, destPrefix = PrefixFrom (Addr6 0x20010DB8000000000000000000000000 []) 32\<rparr>,
       \<lparr>TargetAddress = Addr6 0xFD000000000000000000000000000001 [], TargetVNI = 0, nhType = NextHopType_NAT,
        NATPortRangeFrom = 1024, NATPortRangeTo = 2047\<rparr>) \<and>
   joinWith (CHR ''#'') ([formatNat 23, Prefix_String (PrefixFrom (Addr6 0x20010DB8000000000000000000000000 []) 32), ''fd00::1''] @
       [''NAT'', formatNat 1024, formatNat 2047]) = ''23#2001:db8::/32#fd00::1#NAT#1024#2047''"
proof -
  let ?p = "PrefixFrom (Addr6 0x20010DB8000000000000000000000000 []) 32"
  have "ParseAddr ''fd00::1'' = Some (Addr6 0xFD000000000000000000000000000001 [])" by code_simp
  moreover have "CHR ''#'' \<notin> set ''fd00::1''" by simp
  moreover have "prefix_ok ?p \<and> 0 \<le> Bits ?p" by (simp add: prefix_ok_PrefixFrom Bits_PrefixFrom)
  moreover have "\<not> Is4 (prefixIP ?p)" by (simp add: Is4_def PrefixFrom_def)
  moreover have "joinWith (CHR ''#'') ([formatNat 23, Prefix_String ?p, ''fd00::1''] @ [''NAT'', formatNat 1024, formatNat 2047]) =
      ''23#2001:db8::/32#fd00::1#NAT#1024#2047''" by code_simp
  ultimately show ?thesis
    using announcement_roundtrip [of 23 ?p "''fd00::1''" _ 1024 2047] by auto
qed

text \<open>
  A NAT announcement with a port from 32768 to 65535, although a port number, is
  refused: the ports are read as signed 16-bit numbers. A negative number is accepted instead,
  and becomes a port by wrapping around.
\<close>

lemma nat_ports_signed:
  assumes "vni < 2 ^ 24" "ParsePrefix ps = Some pfx" "CHR ''#'' \<notin> set ps" "ParseAddr hs = Some a" "CHR ''#'' \<notin> set hs"
    and "32768 \<le> port" "port < 65536" "0 < k" "k \<le> 32768" "to < 32768"
  shows "parseAnnouncement (joinWith (CHR ''#'') [formatNat vni, ps, hs, ''NAT'', formatNat port, formatNat to]) =
       Inl (Errorf ''invalid NAT from: %s'') \<and>
     (\<exists>v d h. parseAnnouncement (joinWith (CHR ''#'') [formatNat vni, ps, hs, ''NAT'', CHR ''-'' # formatNat k, formatNat to]) =
       Inr (v, d, h) \<and> unat (NATPortRangeFrom h) = 65536 - k)"
proof -
  note parts = parseAnnouncement_parts [OF _ _ _ assms(1) _ _, of _ pfx a]
  have "ParseInt (formatNat port) 16 = None"
  proof -
    obtain c r where cr: "formatNat port = c # r" using formatNat_not_Nil by (cases "formatNat port") auto
    have "c \<noteq> CHR ''+''" "c \<noteq> CHR ''-''" using isDigit_distinct [OF formatNat_set [of c port]] cr by auto
    moreover have "ParseUint (c # r) 16 = Some port" using ParseUint_formatNat [of port 16] assms(7) cr by simp
    ultimately show ?thesis using assms(6) by (simp add: ParseInt_def cr)
  qed
  then have "parseAnnouncement (joinWith (CHR ''#'') [formatNat vni, ps, hs, ''NAT'', formatNat port, formatNat to]) =
      Inl (Errorf ''invalid NAT from: %s'')"
    using parts [of "[formatNat vni, ps, hs, ''NAT'', formatNat port, formatNat to]"] assms(2-5)
    by (simp add: formatNat_no_hash)
  moreover have neg: "ParseInt (CHR ''-'' # formatNat k) 16 = Some (- int k)"
    using ParseUint_formatNat [of k 16] assms(9) by (simp add: ParseInt_def)
  have to: "ParseInt (formatNat to) 16 = Some (int to)" using assms(10) by (intro ParseInt_formatNat) simp
  have "unat (word_of_int (- int k) :: 16 word) = 65536 - k"
  proof -
    have "(word_of_int (- int k) :: 16 word) = word_of_nat (65536 - k)"
      using assms(9) by (simp add: of_nat_diff)
    moreover have "65536 - k < 2 ^ 16" using assms(8) by simp
    ultimately show ?thesis by (simp add: unat_of_nat)
  qed
  moreover have "\<exists>v d h. parseAnnouncement
      (joinWith (CHR ''#'') [formatNat vni, ps, hs, ''NAT'', CHR ''-'' # formatNat k, formatNat to]) = Inr (v, d, h) \<and>
      NATPortRangeFrom h = word_of_int (- int k)"
    using parts [of "[formatNat vni, ps, hs, ''NAT'', CHR ''-'' # formatNat k, formatNat to]"] assms(2-5)
    by (simp add: formatNat_no_hash neg to)
  ultimately show ?thesis by metis
qed

lemma nat_ports_signed_witness:
  "parseAnnouncement (joinWith (CHR ''#'') [formatNat 23, ''10.0.23.0/24'', ''2001:db8::1'', ''NAT'', formatNat 40000, formatNat 1000]) =
     Inl (Errorf ''invalid NAT from: %s'')"
proof -
  have "ParsePrefix ''10.0.23.0/24'' = Some (PrefixFrom (Addr4 0x0A001700) 24)" by code_simp
  moreover have "ParseAddr ''2001:db8::1'' = Some (Addr6 0x20010DB8000000000000000000000001 [])" by code_simp
  ultimately show ?thesis
    using nat_ports_signed [of 23 "''10.0.23.0/24''" _ "''2001:db8::1''" _ 40000 1 1000] by simp
qed

lemma ParseAddr_valid: "ParseAddr s = Some a \<Longrightarrow> a \<noteq> AddrZero"
  by (auto simp: ParseAddr_def parseIPv4_def parseIPv6_def Let_def split: list.splits if_splits option.splits)

lemma ParsePrefix_valid:
  assumes "ParsePrefix s = Some p"
  shows "prefix_ok p" "0 \<le> Bits p"
proof -
  obtain ip bits where "ParseAddr (butlast (rev (dropWhile (\<lambda>c. c \<noteq> CHR ''/'') (rev s)))) = Some ip"
    and p: "p = PrefixFrom ip bits" "\<not> (bits < 0 \<or> int (BitLen ip) < bits)"
    using assms by (auto simp: ParsePrefix_def Let_def split: if_splits option.splits)
  then have "ip \<noteq> AddrZero" using ParseAddr_valid by blast
  then show "prefix_ok p" "0 \<le> Bits p" using p by (simp_all add: prefix_ok_PrefixFrom Bits_PrefixFrom)
qed

lemma routeType_range:
  "ConvertCmdLineStrToEnumValue s \<in> {NextHopType_STANDARD, NextHopType_NAT, NextHopType_LOADBALANCER_TARGET}"
  by (simp add: ConvertCmdLineStrToEnumValue_def)

text \<open>
  C31. Whatever an accepted announcement looks like, what it announces is well formed:
  a VNI of 24 bits, a valid prefix without zone, the IP version of that prefix, a next hop
  address, a known route type, and ports only for NAT. So the update that announces it has the
  form the protocol carries.
\<close>

theorem announcement_wellformed:
  assumes "parseAnnouncement s = Inr (v, d, h)"
  shows "unat v < 2 ^ 24 \<and> prefix_ok (destPrefix d) \<and> 0 \<le> Bits (destPrefix d) \<and>
     destIPVersion d = (if Is4 (prefixIP (destPrefix d)) then IPV4 else IPV6) \<and>
     TargetAddress h \<noteq> AddrZero \<and> TargetVNI h = 0 \<and>
     nhType h \<in> {NextHopType_STANDARD, NextHopType_NAT, NextHopType_LOADBALANCER_TARGET} \<and>
     (nhType h \<noteq> NextHopType_NAT \<longrightarrow> NATPortRangeFrom h = 0 \<and> NATPortRangeTo h = 0)"
proof -
  let ?ps = "splitOn (CHR ''#'') s"
  let ?t = "if 3 < length ?ps then ConvertCmdLineStrToEnumValue (?ps ! 3) else NextHopType_STANDARD"
  obtain vni pfx a where parsed: "ParseUint (?ps ! 0) 24 = Some vni" "ParsePrefix (?ps ! 1) = Some pfx"
      "ParseAddr (?ps ! 2) = Some a"
    using assms by (auto simp: parseAnnouncement_def Let_def split: if_splits option.splits)
  have v: "v = word_of_nat vni"
    and d: "d = \<lparr>destIPVersion = (if Is4 (prefixIP pfx) then IPV4 else IPV6), destPrefix = pfx\<rparr>"
    and h: "TargetAddress h = a" "TargetVNI h = 0" "nhType h = ?t"
      "?t \<noteq> NextHopType_NAT \<longrightarrow> NATPortRangeFrom h = 0 \<and> NATPortRangeTo h = 0"
    using assms parsed by (auto simp: parseAnnouncement_def Let_def split: if_splits option.splits)
  have "unat v < 2 ^ 24" using ParseUint_bound [OF parsed(1)] by (simp add: v unat_of_nat)
  moreover have "?t \<in> {NextHopType_STANDARD, NextHopType_NAT, NextHopType_LOADBALANCER_TARGET}"
    using routeType_range [of "?ps ! 3"] by simp
  ultimately show ?thesis
    using ParsePrefix_valid [OF parsed(2)] ParseAddr_valid [OF parsed(3)] d h by simp
qed

theorem announcement_wellformed_witness:
  "parseAnnouncement ''23#10.0.23.0/24#fe80::1'' = Inr (23, \<lparr>destIPVersion = IPV4, destPrefix = PrefixFrom (Addr4 0x0A001700) 24\<rparr>,
     \<lparr>TargetAddress = Addr6 0xFE800000000000000000000000000001 [], TargetVNI = 0, nhType = NextHopType_STANDARD,
      NATPortRangeFrom = 0, NATPortRangeTo = 0\<rparr>) \<and> prefix_ok (PrefixFrom (Addr4 0x0A001700) 24)"
proof -
  have "parseAnnouncement ''23#10.0.23.0/24#fe80::1'' = Inr (23, \<lparr>destIPVersion = IPV4, destPrefix = PrefixFrom (Addr4 0x0A001700) 24\<rparr>,
     \<lparr>TargetAddress = Addr6 0xFE800000000000000000000000000001 [], TargetVNI = 0, nhType = NextHopType_STANDARD,
      NATPortRangeFrom = 0, NATPortRangeTo = 0\<rparr>)" by code_simp
  then show ?thesis using announcement_wellformed by fastforce
qed

end
