(* ===== verification/ClientStart.thy ===== *)
theory ClientStart
  imports CommandLine KernelRoutes
begin

text \<open>
  The start of the client command: subscriptions and announcements are recorded before any peer
  exists, so that every peer that connects later is sent all of them.
\<close>

lemma subscribeAll_run:
  assumes "peers w = []" "distinct vnis" "\<And>v. v \<in> set vnis \<Longrightarrow> gget (mySubscriptions w) v = None"
  shows "subscribeAll E vnis w =
     (Returns None, w\<lparr>mySubscriptions := mySubscriptions w @ map (\<lambda>v. (v, True)) vnis\<rparr>)"
  using assms
proof (induction vnis arbitrary: w)
  case (Cons v vnis)
  let ?w = "w\<lparr>mySubscriptions := mySubscriptions w @ [(v, True)]\<rparr>"
  have "mbSubscribe E v w = (Returns None, ?w)"
    using Cons.prems(1,3) by (simp add: mbSubscribe_def gput_fresh)
  moreover have "subscribeAll E vnis ?w =
      (Returns None, ?w\<lparr>mySubscriptions := mySubscriptions ?w @ map (\<lambda>v. (v, True)) vnis\<rparr>)"
    using Cons.prems by (intro Cons.IH) (auto simp: gget_append split: option.split)
  ultimately show ?case by (simp add: subscribeAll_def)
qed (simp add: subscribeAll_def)

lemma announceAll_run:
  assumes "peers w = []" "\<not> mtxSubscribers w" "map parseAnnouncement anns = map Inr anntd" "distinct anntd"
    "\<And>v d h. (v, d, h) \<in> set anntd \<Longrightarrow> \<not> rt_has (myAnnouncements w) v d h None"
  shows "\<exists>t. announceAll E anns w = (Returns None, w\<lparr>myAnnouncements := t\<rparr>) \<and>
     (\<forall>v d h p. rt_has t v d h p \<longleftrightarrow> rt_has (myAnnouncements w) v d h p \<or> p = None \<and> (v, d, h) \<in> set anntd)"
  using assms
proof (induction anns arbitrary: w anntd)
  case Nil
  then show ?case by (intro exI [of _ "myAnnouncements w"]) (simp add: announceAll_def)
next
  case (Cons a anns)
  obtain v d h rs where anntd: "anntd = (v, d, h) # rs" "parseAnnouncement a = Inr (v, d, h)"
      "map parseAnnouncement anns = map Inr rs"
    using Cons.prems(3) by (cases anntd) auto
  let ?w = "w\<lparr>myAnnouncements := snd (AddNextHop v d h None (myAnnouncements w))\<rparr>"
  have "\<not> rt_has (myAnnouncements w) v d h None" using Cons.prems(5) anntd(1) by simp
  then have "fst (AddNextHop v d h None (myAnnouncements w)) = None"
    by (simp add: AddNextHop_eq)
  then have step: "AnnounceRoute E v d h w = (Returns None, ?w)"
    using Cons.prems(1,2)
    by (simp add: AnnounceRoute_def onAnnouncements_def distributeRouteToPeers_def rlockSubscribers_def Let_def)
  have "\<exists>t. announceAll E anns ?w = (Returns None, ?w\<lparr>myAnnouncements := t\<rparr>) \<and>
      (\<forall>v d h p. rt_has t v d h p \<longleftrightarrow> rt_has (myAnnouncements ?w) v d h p \<or> p = None \<and> (v, d, h) \<in> set rs)"
    using Cons.prems anntd by (intro Cons.IH) (auto simp: rt_has_AddNextHop)
  then show ?case
    using step anntd by (auto simp: announceAll_def rt_has_AddNextHop)
qed

text \<open>The peer that \<open>AddPeer\<close> makes, and the state after all of them.\<close>

definition freshPeer :: "string \<Rightarrow> string \<Rightarrow> int \<times> int \<times> int \<Rightarrow> 32 word \<Rightarrow> metalBondPeer" where
  "freshPeer uuid addr caps ka = (let (tx, rxEvent, rxData) = caps in
     noPeer\<lparr>peerId := uuid, remoteAddr := addr, direction := OUTGOING, state := CONNECTING, peerKeepalive := ka,
       txChanCapacity := tx, rxChanEventCapacity := rxEvent, rxChanDataUpdateCapacity := rxData\<rparr>)"

lemma addPeers_run:
  assumes "distinct servers" "\<And>s. s \<in> set servers \<Longrightarrow> gget (peers w) s = None"
  shows "\<exists>w'. addPeers uuid caps servers w = (Returns (), w') \<and>
     peers w' = peers w @ zip servers [nextRef w..<nextRef w + length servers] \<and>
     (\<forall>p < nextRef w. heap w' p = heap w p) \<and>
     (\<forall>i < length servers. heap w' (nextRef w + i) =
        freshPeer (uuid (servers ! i)) (servers ! i) caps (mbKeepalive w)) \<and>
     spawned w' = spawned w @ map GoHandle [nextRef w..<nextRef w + length servers] \<and>
     mySubscriptions w' = mySubscriptions w \<and> myAnnouncements w' = myAnnouncements w \<and> client w' = client w"
  using assms
proof (induction servers arbitrary: w)
  case Nil
  then show ?case by (simp add: addPeers_def split: prod.split)
next
  case (Cons s servers)
  let ?n = "nextRef w" and ?p = "freshPeer (uuid s) s caps (mbKeepalive w)"
  obtain tx re rd where caps: "caps = (tx, re, rd)" by (cases caps)
  let ?w = "w\<lparr>heap := (heap w)(?n := ?p), nextRef := Suc ?n, spawned := spawned w @ [GoHandle ?n],
      peers := peers w @ [(s, ?n)]\<rparr>"
  have step: "AddPeer (uuid s) s [] tx re rd w = (Returns None, ?w)"
    using Cons.prems(2) [of s]
    by (simp add: AddPeer_def newMetalBondPeer_def Let_def gput_fresh freshPeer_def caps noPeer_def)
  have "gget (peers ?w) x = None" if "x \<in> set servers" for x
    using that Cons.prems by (auto simp: gget_append split: option.split)
  then obtain w' where IH: "addPeers uuid caps servers ?w = (Returns (), w')"
      "peers w' = peers ?w @ zip servers [Suc ?n..<Suc ?n + length servers]"
      "\<forall>p < Suc ?n. heap w' p = heap ?w p"
      "\<forall>i < length servers. heap w' (Suc ?n + i) = freshPeer (uuid (servers ! i)) (servers ! i) caps (mbKeepalive w)"
      "spawned w' = spawned ?w @ map GoHandle [Suc ?n..<Suc ?n + length servers]"
      "mySubscriptions w' = mySubscriptions w" "myAnnouncements w' = myAnnouncements w" "client w' = client w"
    using Cons.IH [of ?w] Cons.prems(1) by auto
  have upt: "[?n..<?n + length (s # servers)] = ?n # [Suc ?n..<Suc ?n + length servers]"
    by (subst upt_conv_Cons) simp_all
  have "heap w' (?n + i) = freshPeer (uuid ((s # servers) ! i)) ((s # servers) ! i) caps (mbKeepalive w)"
    if "i < length (s # servers)" for i
    using that IH(3,4) by (cases i) simp_all
  moreover have "addPeers uuid caps (s # servers) w = (Returns (), w')"
    using IH(1) step by (simp add: addPeers_def caps)
  moreover have "\<forall>p < ?n. heap w' p = heap w p" using IH(3) by simp
  ultimately show ?case using IH(2,5-8) unfolding upt by auto
qed

text \<open>The start with readable flags, step by step.\<close>

lemma clientStart_run:
  assumes "distinct (cliSubscribe f)" "map parseAnnouncement (cliAnnounce f) = map Inr anntd" "distinct anntd"
    "distinct (cliServer f)"
  shows "\<exists>w'. clientStart E uuid f (initWorld cfg cl) = (Returns None, w') \<and>
     gkeys (mySubscriptions w') = cliSubscribe f \<and>
     rt_rel (myAnnouncements w') = {(v, d, h, p). p = None \<and> (v, d, h) \<in> set anntd} \<and>
     gkeys (peers w') = cliServer f \<and> client w' = cl \<and>
     (\<forall>s p. gget (peers w') s = Some p \<longrightarrow> GoHandle p \<in> set (spawned w') \<and>
        heap w' p = freshPeer (uuid s) s (clientCapacities f) (mbKeepalive (initWorld cfg cl)))"
proof -
  let ?w = "initWorld cfg cl"
  have init: "peers ?w = []" "\<not> mtxSubscribers ?w" "mySubscriptions ?w = []" "myAnnouncements ?w = newRouteTable"
    "client ?w = cl" "nextRef ?w = 0" "spawned ?w = []"
    by (simp_all add: initWorld_def NewMetalBond_def Let_def World.MetalBond.extend_def)
  have none: "\<not> rt_has newRouteTable v d h p" for v d h p
    by (simp add: rt_has_def peersOf_def newRouteTable_def)
  let ?w1 = "?w\<lparr>mySubscriptions := map (\<lambda>v. (v, True)) (cliSubscribe f)\<rparr>"
  have 1: "subscribeAll E (cliSubscribe f) ?w = (Returns None, ?w1)"
    using subscribeAll_run [of ?w "cliSubscribe f" E] assms(1) by (simp add: init)
  obtain t where 2: "announceAll E (cliAnnounce f) ?w1 = (Returns None, ?w1\<lparr>myAnnouncements := t\<rparr>)"
      and t: "\<forall>v d h p. rt_has t v d h p \<longleftrightarrow> p = None \<and> (v, d, h) \<in> set anntd"
    using announceAll_run [of ?w1 "cliAnnounce f" anntd E] assms(2,3) by (auto simp: init none)
  let ?w2 = "?w1\<lparr>myAnnouncements := t\<rparr>" and ?n = "length (cliServer f)"
  obtain w' where 3: "addPeers uuid (clientCapacities f) (cliServer f) ?w2 = (Returns (), w')"
    and peers: "peers w' = zip (cliServer f) [0..<?n]" and spawned: "spawned w' = map GoHandle [0..<?n]"
    and heap: "\<forall>i < ?n. heap w' i = freshPeer (uuid (cliServer f ! i)) (cliServer f ! i) (clientCapacities f) (mbKeepalive ?w)"
    and same: "mySubscriptions w' = mySubscriptions ?w2" "myAnnouncements w' = t" "client w' = cl"
    using addPeers_run [of "cliServer f" ?w2 uuid "clientCapacities f"] assms(4) by (auto simp: init)
  have run: "clientStart E uuid f ?w = (Returns None, w')"
    using 1 2 3 by (simp add: clientStart_def)
  have keys: "gkeys (peers w') = cliServer f" by (simp add: peers gkeys_def)
  have peer: "GoHandle p \<in> set (spawned w') \<and>
      heap w' p = freshPeer (uuid s) s (clientCapacities f) (mbKeepalive ?w)" if "gget (peers w') s = Some p" for s p
  proof -
    have "(s, p) \<in> set (zip (cliServer f) [0..<?n])" using that by (simp add: peers gget_memI)
    then obtain i where "i < ?n" "s = cliServer f ! i" "p = i" by (auto simp: set_zip)
    then show ?thesis using heap by (simp add: spawned)
  qed
  show ?thesis
    using run keys peer t same by (intro exI [of _ w']) (auto simp: gkeys_def comp_def rt_rel_def)
qed

text \<open>
  C19. With a client that could be made, distinct subscriptions, readable and distinct
  announcements and distinct servers, the client command starts without an error: the node has
  exactly these subscriptions and announcements, and one connecting peer with its own goroutine
  for each server, with the channel capacities that come from the flags. Routes go to a netlink
  client exactly when mappings were given; nothing was installed or sent yet.
\<close>

theorem client_start_complete:
  assumes "makeClient K f k = (Inr oc, k')" "distinct (cliSubscribe f)"
    "map parseAnnouncement (cliAnnounce f) = map Inr anntd" "distinct anntd" "distinct (cliServer f)"
  shows "\<exists>w'. clientMain K srt C uuid f k = Inr (Returns None, w') \<and>
     gkeys (mySubscriptions w') = cliSubscribe f \<and>
     rt_rel (myAnnouncements w') = {(v, d, h, p). p = None \<and> (v, d, h) \<in> set anntd} \<and>
     gkeys (peers w') = cliServer f \<and> client w' = (oc, k') \<and> (oc = None \<longleftrightarrow> cliInstallRoutes f = []) \<and>
     (\<forall>s p. gget (peers w') s = Some p \<longrightarrow> GoHandle p \<in> set (spawned w') \<and>
        heap w' p = freshPeer (uuid s) s (clientCapacities f)
          (mbKeepalive (NewMetalBond \<lparr>cfgKeepaliveInterval = cliKeepalive f\<rparr> oc)))"
proof -
  have "oc = None \<longleftrightarrow> cliInstallRoutes f = []"
    using assms(1) by (auto simp: makeClient_def split: if_splits sum.splits prod.splits)
  moreover have "mbKeepalive (initWorld cfg (oc, k')) = mbKeepalive (NewMetalBond cfg oc)" for cfg
    by (simp add: initWorld_def NewMetalBond_def Let_def World.MetalBond.extend_def)
  ultimately show ?thesis
    using clientStart_run [OF assms(2-5), of "\<lparr>cdc = C, ops = mainOps K srt\<rparr>" uuid
        "\<lparr>cfgKeepaliveInterval = cliKeepalive f\<rparr>" "(oc, k')"] assms(1)
    by (auto simp: clientMain_def)
qed

definition exFlags :: clientFlags where
  "exFlags = \<lparr>cliServer = [''[2001:db8::1]:4711'', ''[2001:db8::2]:4711''], cliSubscribe = [23],
     cliAnnounce = [''23#10.0.23.0/24#fe80::1''], cliInstallRoutes = [''23#100''], cliTun = ''overlay-tun'',
     cliIPv4only = False, cliKeepalive = 0, cliHttp = [], cliCleanup = False, cliTxChanCapacity = 0,
     cliRxChanEventCapacity = 20, cliRxChanDataUpdateCapacity = 0\<rparr>"

theorem client_start_complete_witness:
  "(\<exists>w'. clientMain memLib insertionSort protoCodec (\<lambda>s. s) exFlags [] = Inr (Returns None, w') \<and>
     gkeys (mySubscriptions w') = [23] \<and> gkeys (peers w') = [''[2001:db8::1]:4711'', ''[2001:db8::2]:4711''] \<and>
     fst (client w') \<noteq> None) \<and>
   clientCapacities exFlags = (100, 20, 0)"
proof -
  have "parseAnnouncement ''23#10.0.23.0/24#fe80::1'' = Inr (23, \<lparr>destIPVersion = IPV4, destPrefix = PrefixFrom (Addr4 0x0A001700) 24\<rparr>,
     \<lparr>TargetAddress = Addr6 0xFE800000000000000000000000000001 [], TargetVNI = 0, nhType = NextHopType_STANDARD,
      NATPortRangeFrom = 0, NATPortRangeTo = 0\<rparr>)" (is "_ = Inr ?r") by code_simp
  then have "map parseAnnouncement (cliAnnounce exFlags) = map Inr [?r]" by (simp add: exFlags_def)
  moreover have "makeClient memLib exFlags [] = (Inr (Some \<lparr>config = \<lparr>VNITableMap = [(23, 100)], LinkName = ''overlay-tun'',
      IPv4Only = False\<rparr>, tunDevice = \<lparr>linkIndex = 5\<rparr>, nlRoutes = []\<rparr>), [])" (is "_ = (Inr ?oc, _)") by code_simp
  ultimately show ?thesis
    using client_start_complete [of memLib exFlags "[]" ?oc "[]" "[?r]" insertionSort protoCodec "\<lambda>s. s"]
    by (auto simp: exFlags_def clientCapacities_def)
qed

end
