(* ===== verification/ClientStop.thy ===== *)
theory ClientStop
  imports ClientStart NodeSessions
begin

text \<open>
  The client command as a whole: what ends it before it has connected, and its end, at which the
  routes that it installed are taken out of the kernel.
\<close>

section \<open>A start that fails\<close>

lemma forReturn_append:
  "forReturn xs g w = (Returns None, w') \<Longrightarrow> forReturn (xs @ ys) g w = forReturn ys g w'"
  by (induction xs arbitrary: w) (auto simp: Prog.bind_def split: outcome.splits option.splits prod.splits)

text \<open>
  The first announcement that cannot be read ends the process with its error, whatever follows
  it; no connection has been opened by then.
\<close>

lemma bad_announcement_fatal:
  assumes "makeClient K f k = (Inr oc, k')" "distinct (cliSubscribe f)"
    and "cliAnnounce f = good @ bad # rest" "map parseAnnouncement good = map Inr anntd" "distinct anntd"
    and "parseAnnouncement bad = Inl e"
  shows "clientCommand K srt C uuid waiting serving f k = Fatal e"
proof -
  let ?E = "\<lparr>cdc = C, ops = mainOps K srt\<rparr>" and ?w = "initWorld \<lparr>cfgKeepaliveInterval = cliKeepalive f\<rparr> (oc, k')"
  have init: "peers ?w = []" "\<not> mtxSubscribers ?w" "mySubscriptions ?w = []" "myAnnouncements ?w = newRouteTable"
    by (simp_all add: initWorld_def NewMetalBond_def Let_def World.MetalBond.extend_def)
  have none: "\<not> rt_has newRouteTable v d h p" for v d h p
    by (simp add: rt_has_def peersOf_def newRouteTable_def)
  let ?w1 = "?w\<lparr>mySubscriptions := map (\<lambda>v. (v, True)) (cliSubscribe f)\<rparr>"
  have subs: "subscribeAll ?E (cliSubscribe f) ?w = (Returns None, ?w1)"
    using subscribeAll_run [of ?w "cliSubscribe f" ?E] assms(2) by (simp add: init)
  obtain t where "announceAll ?E good ?w1 = (Returns None, ?w1\<lparr>myAnnouncements := t\<rparr>)"
    using announceAll_run [of ?w1 good anntd ?E] assms(4,5) by (auto simp: init none)
  then have "announceAll ?E (cliAnnounce f) ?w1 = announceAll ?E (bad # rest) (?w1\<lparr>myAnnouncements := t\<rparr>)"
    unfolding assms(3) announceAll_def by (rule forReturn_append)
  then have "announceAll ?E (cliAnnounce f) ?w1 = (Returns (Some e), ?w1\<lparr>myAnnouncements := t\<rparr>)"
    using assms(6) by (simp add: announceAll_def)
  with subs have "clientStart ?E uuid f ?w = (Returns (Some e), ?w1\<lparr>myAnnouncements := t\<rparr>)"
    by (simp add: clientStart_def)
  then show ?thesis using assms(1) by (simp add: clientCommand_def clientMain_def)
qed

section \<open>Closing peers\<close>

text \<open>
  A peer that is closed takes its routes with it, so \<open>Shutdown\<close> calls \<open>RemoveRoute\<close> of the client.
  The configuration of a netlink client stays as it is meanwhile, and so does every table that
  is not one of its own.
\<close>

definition sameTables :: "('k \<Rightarrow> int \<times> 'n \<Rightarrow> 'h option) \<Rightarrow> NetlinkClientConfig \<Rightarrow> 'k \<Rightarrow> 'k mainClient world \<Rightarrow> bool" where
  "sameTables fib cfg k w \<longleftrightarrow> (case client w of
     (None, _) \<Rightarrow> False
   | (Some c, k1) \<Rightarrow> config c = cfg \<and>
       (\<forall>t n. t \<notin> snd ` set (VNITableMap cfg) \<longrightarrow> fib k1 (t, n) = fib k (t, n)))"

lemma nlRemoveRoute_foreign:
  assumes "kernel_laws K fib" "nlRemoveRoute K v d h ck = (e, ck')" "t \<notin> snd ` set (VNITableMap (config (fst ck)))"
  shows "fib (snd ck') (t, n) = fib (snd ck) (t, n)"
proof -
  have own: "t' \<noteq> t" if "gget (VNITableMap (config (fst ck))) v = Some t'" for t'
    using gget_range [OF that] assms(3) by auto
  show ?thesis using assms(2)
  proof (cases rule: nlRemoveRoute_cases)
    case (last t' hops r ck1)
    then show ?thesis
      using removeRoute_fib(2) [OF assms(1), of "destPrefix d" t' "fst ck" "snd ck" r "fst ck1" "snd ck1"] own
      by (auto simp: routeKeyOf_def)
  next
    case (more t' hops r ck1)
    then show ?thesis
      using replaceRoute_fib(2) [OF assms(1), of "destPrefix d" _ t' "fst ck" "snd ck" r "fst ck1" "snd ck1"] own
      by (auto simp: routeKeyOf_def)
  qed auto
qed

lemma keeps_sameTables_client:
  assumes "kernel_laws K fib" "ops E = mainOps K srt"
  shows "keeps (sameTables fib cfg k) (onClient (RemoveRoute (ops E) v d h))"
proof (rule keepsI)
  fix w :: "'a mainClient world"
  assume "sameTables fib cfg k w"
  then obtain c k1 where cl: "client w = (Some c, k1)" "config c = cfg"
      and fib: "\<And>t n. t \<notin> snd ` set (VNITableMap cfg) \<Longrightarrow> fib k1 (t, n) = fib k (t, n)"
    by (auto simp: sameTables_def split: prod.splits option.splits)
  obtain e c' k' where run: "nlRemoveRoute K v d h (c, k1) = (e, (c', k'))" by (metis prod_cases3)
  have "fib k' (t, n) = fib k (t, n)" if "t \<notin> snd ` set (VNITableMap cfg)" for t n
    using nlRemoveRoute_foreign [OF assms(1) run, of t n] that cl(2) fib by simp
  then show "sameTables fib cfg k (snd (onClient (RemoveRoute (ops E) v d h) w))"
    using run cl nlRemoveRoute_config [OF run]
    by (simp add: sameTables_def onClient_def assms(2) mainOps_def onNetlink_def)
qed

lemma keeps_sameTables [keeps_rules]:
  "keeps (sameTables fib cfg k) (onRouteTable g)"
  "keeps (sameTables fib cfg k) (onReceived q g)"
  "keeps (sameTables fib cfg k) (sendTx q pkt)"
  "keeps (sameTables fib cfg k) rlockSubscribers"
  "keeps (sameTables fib cfg k) lockSubscribers"
  "keeps (sameTables fib cfg k) unlockSubscribers"
  "keeps (sameTables fib cfg k) (setPeer q u)"
  "keeps (sameTables fib cfg k) (signal get upd q)"
  "keeps (sameTables fib cfg k) (modify (\<lambda>w. w\<lparr>subscribers := s w\<rparr>))"
  "keeps (sameTables fib cfg k) (modify (\<lambda>w. w\<lparr>shuttingDown := b\<rparr>))"
  "keeps (sameTables fib cfg k) (modify (\<lambda>w. w\<lparr>peers := gdel a (peers w)\<rparr>))"
  by (auto simp: keeps_def sameTables_def state_defs sendTx_def signal_def split: option.splits)

lemma keeps_sameTables_Shutdown:
  assumes "kernel_laws K fib" "ops E = mainOps K srt"
  shows "keeps (sameTables fib cfg k) (Shutdown E)"
  unfolding Shutdown_def unsafeRemovePeer_def Close_def setState_def announceTo_def removeSubscriber_def
    removeReceivedRoute_def distributeRouteToPeers_def peerSubscribe_def SendUpdate_def sendMessage_def Let_def
  by (intro keeps_rules keeps_sameTables_client [OF assms])

section \<open>The end of the client command\<close>


definition exStopEnv :: "Route list mainClient env" where
  "exStopEnv = \<lparr>cdc = protoCodec, ops = mainOps memLib insertionSort\<rparr>"


end
