(* ===== verification/DestinationText.thy ===== *)
theory DestinationText
  imports Types NetipText
begin

text \<open>
  The JSON form of a destination (\<open>MarshalText\<close> and \<open>UnmarshalText\<close> of \<open>src/types.go\<close>), which is
  also the key of a destination on the JSON page. The source calls \<open>encoding/json\<close> on a struct
  with the two fields; this theory has the part of that package which this needs: the scanner,
  the parser with its limit of nesting, and the storing of a value into the two fields.
\<close>

section \<open>Scanning\<close>

datatype jsonToken = TLBrace | TRBrace | TLBrack | TRBrack | TColon | TComma
  | TStr string | TNum string | TTrue | TFalse | TNull

abbreviation quote :: char where "quote \<equiv> CHR 0x22"
abbreviation backslash :: char where "backslash \<equiv> CHR 0x5C"

text \<open>The four hexadecimal digits of an escape.\<close>

definition getu4 :: "string \<Rightarrow> nat option" where
  "getu4 s = (case map hexVal (take 4 s) of
     [Some a, Some b, Some c, Some d] \<Rightarrow> Some (((a * 16 + b) * 16 + c) * 16 + d)
   | _ \<Rightarrow> None)"

definition encodeRune :: "nat \<Rightarrow> string" where
  "encodeRune r =
     (if r < 0x80 then [char_of r]
      else if r < 0x800 then [char_of (0xC0 + r div 64), char_of (0x80 + r mod 64)]
      else if r < 0x10000 then
        [char_of (0xE0 + r div 4096), char_of (0x80 + r div 64 mod 64), char_of (0x80 + r mod 64)]
      else [char_of (0xF0 + r div 262144), char_of (0x80 + r div 4096 mod 64),
        char_of (0x80 + r div 64 mod 64), char_of (0x80 + r mod 64)])"

text \<open>
  The rest of a string after its opening quote: its value, and what follows its end. An escaped
  pair of surrogates is one character, a lone surrogate is replaced. (The library also
  replaces bytes that are not UTF-8; with or without this such a string is no name of a field
  and no prefix.)
\<close>

definition isSurrogate :: "nat \<Rightarrow> bool" where
  "isSurrogate r \<longleftrightarrow> 0xD800 \<le> r \<and> r < 0xE000"

definition surrogatePair :: "nat \<Rightarrow> string \<Rightarrow> nat option" where
  "surrogatePair r s =
     (if take 2 s = [backslash, CHR ''u''] then
        case getu4 (drop 2 s) of
          None \<Rightarrow> None
        | Some r1 \<Rightarrow>
            if r < 0xDC00 \<and> 0xDC00 \<le> r1 \<and> r1 < 0xE000
            then Some ((r - 0xD800) * 1024 + (r1 - 0xDC00) + 0x10000) else None
      else None)"

definition simpleEscape :: "char \<Rightarrow> char option" where
  "simpleEscape c =
     (if c = quote \<or> c = backslash \<or> c = CHR ''/'' then Some c
      else if c = CHR ''b'' then Some (CHR 0x08)
      else if c = CHR ''f'' then Some (CHR 0x0C)
      else if c = CHR ''n'' then Some (CHR 0x0A)
      else if c = CHR ''r'' then Some (CHR 0x0D)
      else if c = CHR ''t'' then Some (CHR 0x09)
      else None)"

function jsonString :: "string \<Rightarrow> (string \<times> string) option" where
  "jsonString [] = None"
| "jsonString (c # s) =
     (if c = quote then Some ([], s)
      else if (of_char c :: nat) < 0x20 then None
      else if c \<noteq> backslash then map_option (apfst (Cons c)) (jsonString s)
      else if s = [] then None
      else if hd s \<noteq> CHR ''u'' then
        (case simpleEscape (hd s) of None \<Rightarrow> None | Some e \<Rightarrow> map_option (apfst (Cons e)) (jsonString (tl s)))
      else case getu4 (tl s) of
          None \<Rightarrow> None
        | Some r \<Rightarrow>
            if \<not> isSurrogate r then map_option (apfst (append (encodeRune r))) (jsonString (drop 5 s))
            else (case surrogatePair r (drop 5 s) of
                None \<Rightarrow> map_option (apfst (append (encodeRune 0xFFFD))) (jsonString (drop 5 s))
              | Some r' \<Rightarrow> map_option (apfst (append (encodeRune r'))) (jsonString (drop 11 s))))"
  by pat_completeness auto
termination
  by (relation "measure length") auto

lemma jsonString_shorter: "jsonString s = Some (v, r) \<Longrightarrow> length r < length s"
proof (induction s arbitrary: v rule: length_induct)
  case (1 s)
  then obtain c t where s: "s = c # t" by (cases s) auto
  have "r = t \<or> (\<exists>u x. jsonString u = Some (x, r) \<and> u \<in> {t, tl t, drop 5 t, drop 11 t})"
    using 1(2) s by (auto split: if_splits option.splits)
  then consider "r = t" | u x where "jsonString u = Some (x, r)" "length u \<le> length t" by auto
  then show ?case
  proof cases
    case 2
    then have "length r < length u" using 1(1) s by simp
    then show ?thesis using 2(2) s by simp
  qed (simp add: s)
qed

text \<open>Numbers: the characters that can belong to one, and the grammar.\<close>

definition isNumChar :: "char \<Rightarrow> bool" where
  "isNumChar c \<longleftrightarrow> isDigit c \<or> c \<in> set ''+-.eE''"

definition digits1 :: "string \<Rightarrow> string option" where
  "digits1 s = (if s \<noteq> [] \<and> isDigit (hd s) then Some (dropWhile isDigit s) else None)"

definition fraction :: "string \<Rightarrow> string option" where
  "fraction s = (if s \<noteq> [] \<and> hd s = CHR ''.'' then digits1 (tl s) else Some s)"

definition exponent :: "string \<Rightarrow> string option" where
  "exponent s =
     (if s \<noteq> [] \<and> hd s \<in> set ''eE'' then digits1 (if tl s \<noteq> [] \<and> hd (tl s) \<in> set ''+-'' then tl (tl s) else tl s)
      else Some s)"

definition validNumber :: "string \<Rightarrow> bool" where
  "validNumber s =
     (let u = (if s \<noteq> [] \<and> hd s = CHR ''-'' then tl s else s) in
      u \<noteq> [] \<and> isDigit (hd u) \<and>
      Option.bind (fraction (if hd u = CHR ''0'' then tl u else dropWhile isDigit u)) exponent = Some [])"

function jsonTokens :: "string \<Rightarrow> jsonToken list option" where
  "jsonTokens [] = Some []"
| "jsonTokens (c # s) =
     (if c \<in> {CHR '' '', CHR 0x09, CHR 0x0A, CHR 0x0D} then jsonTokens s
      else if c = CHR ''{'' then map_option (Cons TLBrace) (jsonTokens s)
      else if c = CHR ''}'' then map_option (Cons TRBrace) (jsonTokens s)
      else if c = CHR ''['' then map_option (Cons TLBrack) (jsonTokens s)
      else if c = CHR '']'' then map_option (Cons TRBrack) (jsonTokens s)
      else if c = CHR '':'' then map_option (Cons TColon) (jsonTokens s)
      else if c = CHR '','' then map_option (Cons TComma) (jsonTokens s)
      else if c = quote then
        (case jsonString s of
           None \<Rightarrow> None
         | Some (str, r) \<Rightarrow> map_option (Cons (TStr str)) (jsonTokens r))
      else if isDigit c \<or> c = CHR ''-'' then
        if validNumber (c # takeWhile isNumChar s)
        then map_option (Cons (TNum (c # takeWhile isNumChar s))) (jsonTokens (dropWhile isNumChar s)) else None
      else if take 3 s = ''rue'' \<and> c = CHR ''t'' then map_option (Cons TTrue) (jsonTokens (drop 3 s))
      else if take 4 s = ''alse'' \<and> c = CHR ''f'' then map_option (Cons TFalse) (jsonTokens (drop 4 s))
      else if take 3 s = ''ull'' \<and> c = CHR ''n'' then map_option (Cons TNull) (jsonTokens (drop 3 s))
      else None)"
  by pat_completeness auto
termination
  by (relation "measure length") (auto simp: le_imp_less_Suc length_dropWhile_le less_SucI dest: jsonString_shorter)

section \<open>Parsing\<close>

datatype json = JNull | JBool bool | JNum string | JStr string | JArr "json list" | JObj "(string \<times> json) list"

text \<open>Containers that are open, from the inside out, and what is expected next.\<close>

datatype frame = FArr "json list" | FObj "(string \<times> json) list" string

datatype parseState =
    NeedValue
  | FirstElement                            \<comment> \<open>after \<open>[\<close>\<close>
  | NeedKey "(string \<times> json) list" bool      \<comment> \<open>after \<open>{\<close> (\<open>True\<close>) or after a comma\<close>
  | NeedColon "(string \<times> json) list" string
  | HaveValue json

abbreviation maxNestingDepth :: nat where "maxNestingDepth \<equiv> 10000"

definition beginValue :: "frame list \<Rightarrow> jsonToken \<Rightarrow> (parseState \<times> frame list) option" where
  "beginValue fs t = (case t of
     TStr s \<Rightarrow> Some (HaveValue (JStr s), fs)
   | TNum n \<Rightarrow> Some (HaveValue (JNum n), fs)
   | TTrue \<Rightarrow> Some (HaveValue (JBool True), fs)
   | TFalse \<Rightarrow> Some (HaveValue (JBool False), fs)
   | TNull \<Rightarrow> Some (HaveValue JNull, fs)
   | TLBrack \<Rightarrow> if length fs < maxNestingDepth then Some (FirstElement, FArr [] # fs) else None
   | TLBrace \<Rightarrow> if length fs < maxNestingDepth then Some (NeedKey [] True, fs) else None
   | _ \<Rightarrow> None)"

definition endValue :: "json \<Rightarrow> frame list \<Rightarrow> jsonToken \<Rightarrow> (parseState \<times> frame list) option" where
  "endValue v fs t = (case fs of
     [] \<Rightarrow> None
   | FArr vs # r \<Rightarrow>
       if t = TComma then Some (NeedValue, FArr (vs @ [v]) # r)
       else if t = TRBrack then Some (HaveValue (JArr (vs @ [v])), r) else None
   | FObj kvs k # r \<Rightarrow>
       if t = TComma then Some (NeedKey (kvs @ [(k, v)]) False, r)
       else if t = TRBrace then Some (HaveValue (JObj (kvs @ [(k, v)])), r) else None)"

definition parseStep :: "jsonToken \<Rightarrow> parseState \<times> frame list \<Rightarrow> (parseState \<times> frame list) option" where
  "parseStep t x = (case x of (st, fs) \<Rightarrow> case st of
     NeedValue \<Rightarrow> beginValue fs t
   | FirstElement \<Rightarrow> if t = TRBrack then Some (HaveValue (JArr []), tl fs) else beginValue fs t
   | NeedKey kvs first \<Rightarrow>
       (case t of TStr k \<Rightarrow> Some (NeedColon kvs k, fs)
        | TRBrace \<Rightarrow> if first then Some (HaveValue (JObj kvs), fs) else None
        | _ \<Rightarrow> None)
   | NeedColon kvs k \<Rightarrow> if t = TColon then Some (NeedValue, FObj kvs k # fs) else None
   | HaveValue v \<Rightarrow> endValue v fs t)"

fun parseTokens :: "jsonToken list \<Rightarrow> parseState \<times> frame list \<Rightarrow> json option" where
  "parseTokens [] x = (case x of (HaveValue v, []) \<Rightarrow> Some v | _ \<Rightarrow> None)"
| "parseTokens (t # ts) x = Option.bind (parseStep t x) (parseTokens ts)"

definition jsonParse :: "string \<Rightarrow> json option" where
  "jsonParse s = Option.bind (jsonTokens s) (\<lambda>ts. parseTokens ts (NeedValue, []))"

section \<open>Storing into the struct\<close>

text \<open>
  Names match exactly or, failing that, after folding; of the characters outside ASCII only the
  long s (\<open>U+017F\<close>) folds to a letter of one of the names. Storing a value of the wrong kind is
  an error that is reported at the end; a text that is no prefix ends the decoding.
\<close>

fun foldName :: "string \<Rightarrow> string" where
  "foldName [] = []"
| "foldName [c] = [toLowerChar c]"
| "foldName (c # d # s) =
     (if c = CHR 0xC5 \<and> d = CHR 0xBF then CHR ''s'' # foldName s else toLowerChar c # foldName (d # s))"

definition fieldNamed :: "string \<Rightarrow> string \<Rightarrow> bool" where
  "fieldNamed name key \<longleftrightarrow> key = name \<or> foldName key = foldName name"

definition storeIPVersion :: "json \<Rightarrow> Destination \<Rightarrow> error option \<times> Destination" where
  "storeIPVersion v d = (case v of
     JNull \<Rightarrow> (None, d)
   | JNum s \<Rightarrow>
       (case ParseUint s 64 of
          Some n \<Rightarrow> if n < 256 then (None, d\<lparr>destIPVersion := word_of_nat n\<rparr>) else (Some (Errorf ''json: cannot unmarshal''), d)
        | None \<Rightarrow> (Some (Errorf ''json: cannot unmarshal''), d))
   | _ \<Rightarrow> (Some (Errorf ''json: cannot unmarshal''), d))"

text \<open>\<open>Prefix.UnmarshalText\<close>; the text of the zero prefix is empty.\<close>

abbreviation zeroPrefix :: Prefix where "zeroPrefix \<equiv> PrefixOf AddrZero 0"

definition Prefix_UnmarshalText :: "string \<Rightarrow> error option \<times> Prefix" where
  "Prefix_UnmarshalText s =
     (if s = [] then (None, zeroPrefix)
      else case ParsePrefix s of
        Some p \<Rightarrow> (None, p)
      | None \<Rightarrow> (Some (Errorf ''netip.ParsePrefix''), zeroPrefix))"

text \<open>The first error of the wrong kind is kept in \<open>saved\<close>.\<close>

fun storeFields :: "error option \<Rightarrow> (string \<times> json) list \<Rightarrow> Destination \<Rightarrow> error option \<times> Destination" where
  "storeFields saved [] d = (saved, d)"
| "storeFields saved ((k, v) # kvs) d =
     (let save = (\<lambda>e. if saved = None then e else saved) in
      if fieldNamed ''IPVersion'' k then
        (case storeIPVersion v d of (e, d') \<Rightarrow> storeFields (save e) kvs d')
      else if fieldNamed ''Prefix'' k then
        (case v of
           JNull \<Rightarrow> storeFields saved kvs d
         | JStr s \<Rightarrow>
             (case Prefix_UnmarshalText s of
                (None, p) \<Rightarrow> storeFields saved kvs (d\<lparr>destPrefix := p\<rparr>)
              | (Some e, p) \<Rightarrow> (Some e, d\<lparr>destPrefix := p\<rparr>))
         | _ \<Rightarrow> storeFields (save (Some (Errorf ''json: cannot unmarshal''))) kvs d)
      else storeFields saved kvs d)"

definition UnmarshalText :: "string \<Rightarrow> Destination \<Rightarrow> error option \<times> Destination" where
  "UnmarshalText txt d = (case jsonParse txt of
     None \<Rightarrow> (Some (Errorf ''json: syntax error''), d)
   | Some (JObj kvs) \<Rightarrow> storeFields None kvs d
   | Some JNull \<Rightarrow> (None, d)
   | Some _ \<Rightarrow> (Some (Errorf ''json: cannot unmarshal''), d))"

section \<open>Printing\<close>

text \<open>
  \<open>Prefix.MarshalText\<close>. Its characters stand for themselves in JSON, so quoting adds the two
  quotes only.
\<close>

definition Prefix_MarshalText :: "Prefix \<Rightarrow> string" where
  "Prefix_MarshalText p = (if p = zeroPrefix then [] else Prefix_String p)"

definition MarshalText :: "Destination \<Rightarrow> string" where
  "MarshalText d =
     CHR ''{'' # quote # ''IPVersion'' @ quote # CHR '':'' # formatNat (unat (destIPVersion d)) @
     CHR '','' # quote # ''Prefix'' @ quote # CHR '':'' # quote # Prefix_MarshalText (destPrefix d) @ [quote, CHR ''}'']"

section \<open>What is printed reads back\<close>

definition plainChar :: "char \<Rightarrow> bool" where
  "plainChar c \<longleftrightarrow> c \<noteq> quote \<and> c \<noteq> backslash \<and> 0x20 \<le> (of_char c :: nat)"

lemma jsonString_plain: "list_all plainChar s \<Longrightarrow> jsonString (s @ quote # r) = Some (s, r)"
  by (induction s) (simp_all add: plainChar_def)

lemma jsonTokens_string: "list_all plainChar s \<Longrightarrow> jsonTokens (quote # s @ quote # r) = map_option (Cons (TStr s)) (jsonTokens r)"
  by (simp add: jsonString_plain)

lemma validNumber_formatNat: "validNumber (formatNat n)"
proof -
  obtain c s where c: "formatNat n = c # s" using formatNat_not_Nil by (cases "formatNat n") auto
  have digit: "isDigit x" if "x \<in> set (c # s)" for x using that formatNat_set [of x n] by (simp add: c)
  then have all: "dropWhile isDigit (c # s) = []" by (simp only: dropWhile_eq_Nil_conv) blast
  have "s = []" if "c = CHR ''0''"
    using formatNat_lead [of n] that c by (cases "n < 10") (simp_all add: formatNat.simps [of n])
  then show ?thesis
    using all digit [of c] isDigit_distinct [of c] by (auto simp: c validNumber_def Let_def fraction_def exponent_def)
qed

lemma jsonTokens_number:
  assumes "\<not> isNumChar c"
  shows "jsonTokens (formatNat n @ c # r) = map_option (Cons (TNum (formatNat n))) (jsonTokens (c # r))"
proof -
  obtain d s where d: "formatNat n = d # s" using formatNat_not_Nil by (cases "formatNat n") auto
  have digit: "isDigit d" using formatNat_set [of d n] d by simp
  have "\<forall>x \<in> set s. isNumChar x" using formatNat_set [of _ n] d by (auto simp: isNumChar_def)
  then have "takeWhile isNumChar (s @ c # r) = s" "dropWhile isNumChar (s @ c # r) = c # r"
    using assms by (simp_all add: takeWhile_append2 dropWhile_append2)
  moreover have "d \<notin> {CHR '' '', CHR 0x09, CHR 0x0A, CHR 0x0D}" "d \<noteq> CHR ''{''" "d \<noteq> CHR ''}''" "d \<noteq> CHR ''[''"
    "d \<noteq> CHR '']''" "d \<noteq> CHR '':''" "d \<noteq> CHR '',''" "d \<noteq> quote"
    using digit by (auto simp: isDigit_def)
  ultimately show ?thesis using digit validNumber_formatNat [of n] d by simp
qed

lemma Prefix_MarshalText_plain:
  assumes "prefix_ok p \<or> bitsPlusOne p = 0"
  shows "list_all plainChar (Prefix_MarshalText p)"
proof (cases "bitsPlusOne p = 0")
  case True
  then show ?thesis by (simp add: Prefix_MarshalText_def Prefix_String_def plainChar_def)
next
  case False
  then have "0 \<le> Bits p" using unat_gt_0 [of "bitsPlusOne p"] unfolding Bits_def by linarith
  moreover have "plainChar c" if "hexVal c \<noteq> None \<or> c = CHR '':'' \<or> c = CHR ''.'' \<or> c = CHR ''/''" for c
    using that by (auto simp: hexVal_def plainChar_def Let_def split: if_splits)
  ultimately show ?thesis
    using assms False Prefix_String_chars [of _ p] by (auto simp: Prefix_MarshalText_def list_all_iff)
qed

lemma jsonParse_MarshalText:
  assumes "list_all plainChar (Prefix_MarshalText (destPrefix d))"
  shows "jsonParse (MarshalText d) = Some (JObj [(''IPVersion'', JNum (formatNat (unat (destIPVersion d)))),
     (''Prefix'', JStr (Prefix_MarshalText (destPrefix d)))])"
proof -
  let ?n = "formatNat (unat (destIPVersion d))" and ?p = "Prefix_MarshalText (destPrefix d)"
  have names: "list_all plainChar ''IPVersion''" "list_all plainChar ''Prefix''" by (simp_all add: plainChar_def)
  have comma: "\<not> isNumChar (CHR '','')" by (simp add: isNumChar_def isDigit_def)
  have "jsonTokens (MarshalText d) =
      Some [TLBrace, TStr ''IPVersion'', TColon, TNum ?n, TComma, TStr ''Prefix'', TColon, TStr ?p, TRBrace]"
    unfolding MarshalText_def
    using jsonTokens_string [OF names(1)] jsonTokens_string [OF names(2)] jsonTokens_string [OF assms]
      jsonTokens_number [OF comma]
    by simp
  then show ?thesis by (simp add: jsonParse_def parseStep_def beginValue_def endValue_def)
qed

lemma UnmarshalText_MarshalText:
  "UnmarshalText (MarshalText \<lparr>destIPVersion = v, destPrefix = PrefixFrom a n\<rparr>) d0 =
     (if a = AddrZero \<or> 0 \<le> n \<and> n \<le> int (BitLen a) then (None, \<lparr>destIPVersion = v, destPrefix = PrefixFrom a n\<rparr>)
      else (Some (Errorf ''netip.ParsePrefix''), \<lparr>destIPVersion = v, destPrefix = zeroPrefix\<rparr>))"
proof -
  let ?p = "PrefixFrom a n"
  have "unat v < 256" using unat_byte_less [of v] .
  then have num: "storeIPVersion (JNum (formatNat (unat v))) d0 = (None, d0\<lparr>destIPVersion := v\<rparr>)"
    using ParseUint_formatNat [of "unat v" 64] by (simp add: storeIPVersion_def)
  have names: "fieldNamed ''IPVersion'' ''IPVersion''" "fieldNamed ''Prefix'' ''Prefix''" "\<not> fieldNamed ''IPVersion'' ''Prefix''"
    by (simp_all add: fieldNamed_def toLowerChar_def)
  have plain: "list_all plainChar (Prefix_MarshalText ?p)"
    using prefix_ok_PrefixFrom [of a n] by (intro Prefix_MarshalText_plain) (auto simp: PrefixFrom_def)
  have read: "Prefix_UnmarshalText (Prefix_MarshalText ?p) = (if a = AddrZero \<or> 0 \<le> n \<and> n \<le> int (BitLen a)
      then (None, ?p) else (Some (Errorf ''netip.ParsePrefix''), zeroPrefix))"
  proof -
    consider (zero) "a = AddrZero" | (valid) "a \<noteq> AddrZero" "0 \<le> n \<and> n \<le> int (BitLen a)"
      | (invalid) "a \<noteq> AddrZero" "\<not> (0 \<le> n \<and> n \<le> int (BitLen a))" by blast
    then show ?thesis
    proof cases
      case zero
      then show ?thesis by (simp add: PrefixFrom_def withoutZone_def Prefix_MarshalText_def Prefix_UnmarshalText_def)
    next
      case valid
      then have b: "Bits ?p = n" by (simp add: Bits_PrefixFrom)
      then have "ParsePrefix (Prefix_String ?p) = Some ?p"
        using ParsePrefix_String [OF prefix_ok_PrefixFrom [OF valid(1)]] valid(2) by simp
      moreover have "?p \<noteq> zeroPrefix" using b valid(2) by (auto simp: Bits_def)
      moreover have "Prefix_String ?p \<noteq> []" using b valid(2) by (simp add: Prefix_String_valid)
      ultimately show ?thesis using valid by (simp add: Prefix_MarshalText_def Prefix_UnmarshalText_def)
    next
      case invalid
      then have "?p \<noteq> zeroPrefix" "bitsPlusOne ?p = 0" by (cases a; auto simp: PrefixFrom_def withoutZone_def)+
      moreover have "ParsePrefix ''invalid Prefix'' = None" by (simp add: ParsePrefix_def)
      ultimately show ?thesis using invalid by (simp add: Prefix_MarshalText_def Prefix_UnmarshalText_def Prefix_String_def)
    qed
  qed
  have "UnmarshalText (MarshalText \<lparr>destIPVersion = v, destPrefix = ?p\<rparr>) d0 =
      storeFields None [(''IPVersion'', JNum (formatNat (unat v))), (''Prefix'', JStr (Prefix_MarshalText ?p))] d0"
    using jsonParse_MarshalText [of "\<lparr>destIPVersion = v, destPrefix = ?p\<rparr>"] plain by (simp add: UnmarshalText_def)
  then show ?thesis using names num read by (simp add: Let_def)
qed

text \<open>
  C25. The text of a destination, for every prefix the address library can make: a valid prefix
  and the zero prefix read back, into any destination, as the destination that was written; an
  invalid prefix of an address is written as a text that is refused, and leaves the zero prefix.
\<close>

theorem destination_text_roundtrip:
  "UnmarshalText (MarshalText \<lparr>destIPVersion = v, destPrefix = PrefixFrom a n\<rparr>) d0 =
     (if a = AddrZero \<or> 0 \<le> n \<and> n \<le> int (BitLen a) then (None, \<lparr>destIPVersion = v, destPrefix = PrefixFrom a n\<rparr>)
      else (Some (Errorf ''netip.ParsePrefix''), \<lparr>destIPVersion = v, destPrefix = zeroPrefix\<rparr>))"
  by (rule UnmarshalText_MarshalText)

text \<open>So the keys of the JSON page tell destinations apart.\<close>

lemma MarshalText_inj:
  assumes "prefix_ok (destPrefix d)" "0 \<le> Bits (destPrefix d)" "prefix_ok (destPrefix e)" "0 \<le> Bits (destPrefix e)"
    and "MarshalText d = MarshalText e"
  shows "d = e"
proof -
  have "UnmarshalText (MarshalText x) d = (None, x)" if x: "prefix_ok (destPrefix x)" "0 \<le> Bits (destPrefix x)" for x
  proof -
    let ?p = "destPrefix x"
    have pfx: "PrefixFrom (prefixIP ?p) (Bits ?p) = ?p" by (rule PrefixFrom_valid [OF x])
    have len: "prefixIP ?p = AddrZero \<or> 0 \<le> Bits ?p \<and> Bits ?p \<le> int (BitLen (prefixIP ?p))"
      using x by (simp add: prefix_ok_def)
    have "\<lparr>destIPVersion = destIPVersion x, destPrefix = ?p\<rparr> = x" by simp
    then show ?thesis
      using UnmarshalText_MarshalText [of "destIPVersion x" "prefixIP ?p" "Bits ?p" d] len by (simp only: pfx if_True)
  qed
  from this [OF assms(1,2)] this [OF assms(3,4)] have "(None :: error option, d) = (None, e)"
    unfolding assms(5) by (rule trans [OF sym])
  then show ?thesis by (rule prod.inject [THEN iffD1, THEN conjunct2])
qed

end
