(* ===== verification/Http.thy ===== *)
theory Http
  imports World GoSort GoStrings
begin

text \<open>
  The HTTP server (\<open>src/http.go\<close>): the listing of the route table that its three pages show,
  and the pages. The template, JSON and YAML encoders, the clock and the version string are
  parameters; a page is the response written to the client. The sort is any function that
  keeps the promise of theory \<open>GoSort\<close>.
\<close>

section \<open>Text of routes\<close>

definition Destination_String :: "Destination \<Rightarrow> string" where
  "Destination_String d = Prefix_String (destPrefix d)"

definition NextHop_String :: "NextHop \<Rightarrow> string" where
  "NextHop_String h =
     (if TargetVNI h \<noteq> 0
      then Addr_String (TargetAddress h) @ '' (VNI: '' @ formatNat (unat (TargetVNI h)) @ '')''
      else Addr_String (TargetAddress h))"

section \<open>The listing\<close>

record jsonRoutes =
  jsDate :: string
  jsVNet :: "(32 word, (Destination, NextHop list) gomap) gomap"
  jsVersion :: string

text \<open>\<open>js.VNet[vni][dst] = append(js.VNet[vni][dst], hops...)\<close>\<close>

definition appendHops :: "32 word \<Rightarrow> Destination \<times> NextHop list \<Rightarrow>
    (32 word, (Destination, NextHop list) gomap) gomap \<Rightarrow> (32 word, (Destination, NextHop list) gomap) gomap" where
  "appendHops vni dh net = (case dh of (dst, hops) \<Rightarrow>
     let old = (case gget (gsub net vni) dst of None \<Rightarrow> [] | Some hs \<Rightarrow> hs) in
     gput vni (gput dst (old @ hops) (gsub net vni)) net)"

definition collectVNI :: "routeTable \<Rightarrow> VNI \<Rightarrow>
    (32 word, (Destination, NextHop list) gomap) gomap \<Rightarrow> (32 word, (Destination, NextHop list) gomap) gomap" where
  "collectVNI t vni net = fold (appendHops vni) (GetDestinationsByVNI t vni) (gput vni [] net)"

definition getJsonRoutes ::
    "((NextHop \<Rightarrow> NextHop \<Rightarrow> bool) \<Rightarrow> NextHop list \<Rightarrow> NextHop list) \<Rightarrow> string \<Rightarrow> string \<Rightarrow> routeTable \<Rightarrow> error + jsonRoutes" where
  "getJsonRoutes srt version date t =
     (let net = fold (collectVNI t) (GetVNIs t) [];
          sorted = map (\<lambda>(vni, vnets). (vni, map (\<lambda>(dst, hops).
            (dst, srt (\<lambda>a b. NextHop_String a < NextHop_String b) hops)) vnets)) net
      in Inr \<lparr>jsDate = date, jsVNet = sorted, jsVersion = version\<rparr>)"

section \<open>Pages\<close>

record response =
  status :: nat
  contentType :: "string option"
  body :: string

definition errorPage :: "error \<Rightarrow> response" where
  "errorPage e = \<lparr>status = 500, contentType = None, body = ''Error: %v''\<rparr>"

text \<open>
  The page of the template: parsing its file may fail. Running it writes to the client as it
  goes and may fail on the way; the first byte of output also sends the status line, so that a
  later failure is only seen in the text.
\<close>

definition mainHandler ::
    "(error + (jsonRoutes \<Rightarrow> string \<times> error option)) \<Rightarrow> (error + jsonRoutes) \<Rightarrow> response" where
  "mainHandler tmpl listing =
     (case tmpl of
        Inl e \<Rightarrow> errorPage e
      | Inr execute \<Rightarrow>
          (case listing of
             Inl e \<Rightarrow> errorPage e
           | Inr js \<Rightarrow>
               (case execute js of
                  (out, None) \<Rightarrow> \<lparr>status = 200, contentType = None, body = out\<rparr>
                | (out, Some e) \<Rightarrow>
                    if out = [] then errorPage e
                    else \<lparr>status = 200, contentType = None, body = out @ ''Error: %v''\<rparr>)))"

definition encodeHandler :: "string \<Rightarrow> (jsonRoutes \<Rightarrow> error + string) \<Rightarrow> (error + jsonRoutes) \<Rightarrow> response" where
  "encodeHandler ctype marshal listing =
     (case listing of
        Inl e \<Rightarrow> errorPage e
      | Inr js \<Rightarrow>
          (case marshal js of
             Inl e \<Rightarrow> errorPage e
           | Inr out \<Rightarrow> \<lparr>status = 200, contentType = Some ctype, body = out\<rparr>))"

definition jsonHandler :: "(jsonRoutes \<Rightarrow> error + string) \<Rightarrow> (error + jsonRoutes) \<Rightarrow> response" where
  "jsonHandler marshalIndent listing = encodeHandler ''application/json'' marshalIndent listing"

definition yamlHandler :: "(jsonRoutes \<Rightarrow> error + string) \<Rightarrow> (error + jsonRoutes) \<Rightarrow> response" where
  "yamlHandler marshal listing = encodeHandler ''text/yaml'' marshal listing"

text \<open>
  What \<open>serveJsonRouteTable\<close> answers for the path of a request, in the form \<open>ServeMux\<close> cleans it to:
  two pages have a pattern of their own, the pattern \<open>/\<close> matches every other path.
\<close>

definition serveJsonRouteTable ::
    "(error + (jsonRoutes \<Rightarrow> string \<times> error option)) \<Rightarrow> (jsonRoutes \<Rightarrow> error + string) \<Rightarrow> (jsonRoutes \<Rightarrow> error + string)
      \<Rightarrow> (error + jsonRoutes) \<Rightarrow> string \<Rightarrow> response" where
  "serveJsonRouteTable tmpl marshalIndent marshal listing path =
     (if path = ''/routes.json'' then jsonHandler marshalIndent listing
      else if path = ''/routes.yaml'' then yamlHandler marshal listing
      else mainHandler tmpl listing)"

section \<open>The listing is the table\<close>

lemma fold_appendHops:
  assumes "gok ds" "\<And>d. d \<in> set (gkeys ds) \<Longrightarrow> gget m d = None" "gget net vni = Some m"
  shows "fold (appendHops vni) ds net = gput vni (m @ ds) net"
  using assms
proof (induction ds arbitrary: m net)
  case (Cons dh ds)
  obtain d hs where dh: "dh = (d, hs)" by (cases dh)
  have m: "gput d hs m = m @ [(d, hs)]" using Cons.prems(2) [of d] dh by (simp add: gput_fresh)
  have "appendHops vni dh net = gput vni (m @ [(d, hs)]) net"
    using Cons.prems(2) [of d] dh m by (simp add: appendHops_def Cons.prems(3))
  moreover have "gget (m @ [(d, hs)]) x = None" if "x \<in> set (gkeys ds)" for x
    using that Cons.prems(1) Cons.prems(2) [of x] dh by (auto simp: gget_append)
  ultimately show ?case
    using Cons.IH [of "m @ [(d, hs)]" "gput vni (m @ [(d, hs)]) net"] Cons.prems(1) dh by simp
qed simp

lemma collectVNI_eq:
  assumes "rt_ok t"
  shows "collectVNI t vni net = gput vni (GetDestinationsByVNI t vni) net"
proof -
  have "gok (GetDestinationsByVNI t vni)" using assms by (rule gok_GetDestinationsByVNI)
  then show ?thesis
    using fold_appendHops [of "GetDestinationsByVNI t vni" "[]" "gput vni [] net" vni]
    by (simp add: collectVNI_def)
qed

lemma fold_collectVNI:
  assumes "rt_ok t" "distinct vnis" "\<And>v. v \<in> set vnis \<Longrightarrow> gget net v = None"
  shows "fold (collectVNI t) vnis net = net @ map (\<lambda>v. (v, GetDestinationsByVNI t v)) vnis"
  using assms(2,3)
proof (induction vnis arbitrary: net)
  case (Cons v vnis)
  have put: "gput v x net = net @ [(v, x)]" for x using Cons.prems(2) [of v] by (simp add: gput_fresh)
  have "gget (net @ [(v, x)]) u = None" if "u \<in> set vnis" for u x
    using that Cons.prems(1) Cons.prems(2) [of u] by (auto simp: gget_append)
  then show ?case
    using Cons.IH [of "net @ [(v, GetDestinationsByVNI t v)]"] Cons.prems(1)
    by (simp add: collectVNI_eq [OF assms(1)] put)
qed simp

lemma gget_listing: "gget (map (\<lambda>v. (v, f v)) vs) v = (if v \<in> set vs then Some (f v) else None)"
  by (induction vs) auto

text \<open>
  C26. The listing of the HTTP pages never fails and is the route table: it has exactly the
  VNIs and destinations with a route, and for each destination the next hops of its routes,
  once each and in the order of their text form. The server answers the paths of the JSON and
  YAML pages with its encoding, or with status 500 when the encoder fails, and the path of the main
  page with the output of the template.
\<close>

theorem json_routes_exact:
  assumes "rt_ok t" "rt_pruned t" "go_sort srt"
  shows "\<exists>js. getJsonRoutes srt version date t = Inr js \<and>
     set (gkeys (jsVNet js)) = {v. \<exists>d h p. (v, d, h, p) \<in> rt_rel t} \<and>
     (\<forall>v d. case gget (gsub (jsVNet js) v) d of
        None \<Rightarrow> \<not> (\<exists>h p. (v, d, h, p) \<in> rt_rel t)
      | Some hops \<Rightarrow> hops \<noteq> [] \<and> set hops = {h. \<exists>p. (v, d, h, p) \<in> rt_rel t} \<and> distinct hops \<and>
          sorted (map NextHop_String hops)) \<and>
     (\<forall>tmpl jenc yenc. serveJsonRouteTable tmpl jenc yenc (Inr js) ''/routes.json'' = (case jenc js of
        Inl e \<Rightarrow> errorPage e | Inr out \<Rightarrow> \<lparr>status = 200, contentType = Some ''application/json'', body = out\<rparr>) \<and>
      serveJsonRouteTable tmpl jenc yenc (Inr js) ''/routes.yaml'' = (case yenc js of
        Inl e \<Rightarrow> errorPage e | Inr out \<Rightarrow> \<lparr>status = 200, contentType = Some ''text/yaml'', body = out\<rparr>)) \<and>
     (\<forall>execute jenc yenc out. execute js = (out, None) \<longrightarrow>
        serveJsonRouteTable (Inr execute) jenc yenc (Inr js) ''/'' = \<lparr>status = 200, contentType = None, body = out\<rparr>)"
proof -
  let ?srt = "srt (\<lambda>a b. NextHop_String a < NextHop_String b)"
  let ?net = "map (\<lambda>v. (v, map (\<lambda>(d, hops). (d, ?srt hops)) (GetDestinationsByVNI t v))) (GetVNIs t)"
  let ?js = "\<lparr>jsDate = date, jsVNet = ?net, jsVersion = version\<rparr>"
  have "distinct (GetVNIs t)" using assms(1) by (simp add: GetVNIs_def rt_ok_def)
  then have "getJsonRoutes srt version date t = Inr ?js"
    using fold_collectVNI [OF assms(1), of "GetVNIs t" "[]"] by (simp add: getJsonRoutes_def Let_def comp_def)
  moreover have "set (gkeys ?net) = {v. \<exists>d h p. (v, d, h, p) \<in> rt_rel t}"
    using GetVNIs_set [OF assms(2)] by (simp add: gkeys_def comp_def rt_rel_def)
  moreover have "case gget (gsub ?net v) d of
        None \<Rightarrow> \<not> (\<exists>h p. (v, d, h, p) \<in> rt_rel t)
      | Some hops \<Rightarrow> hops \<noteq> [] \<and> set hops = {h. \<exists>p. (v, d, h, p) \<in> rt_rel t} \<and> distinct hops \<and>
          sorted (map NextHop_String hops)" for v d
  proof (cases "\<exists>h p. rt_has t v d h p")
    case True
    then have "v \<in> set (GetVNIs t)" using GetVNIs_set [OF assms(2)] by blast
    then have listed: "gget (gsub ?net v) d = Some (?srt (GetNextHopsByDestination t v d))"
      using True by (simp add: gsub_def gget_listing gget_map_snd GetDestinationsByVNI_exact [OF assms(2)])
    have set: "set (?srt (GetNextHopsByDestination t v d)) = {h. \<exists>p. rt_has t v d h p}"
      using go_sort.set_srt [OF assms(3)] GetNextHopsByDestination_set [OF assms(2)] by simp
    then have "?srt (GetNextHopsByDestination t v d) \<noteq> []" using True by auto
    moreover have "distinct (?srt (GetNextHopsByDestination t v d))"
      using go_sort.distinct_srt [OF assms(3)] distinct_GetNextHopsByDestination [OF assms(1)] by blast
    moreover have "sorted (map NextHop_String (?srt (GetNextHopsByDestination t v d)))"
      by (rule go_sort.sorted_srt [OF assms(3)])
    ultimately show ?thesis unfolding listed option.case rt_rel_def using set by simp
  next
    case False
    then have "gget (gsub ?net v) d = None"
      by (simp add: gsub_def gget_listing gget_map_snd GetDestinationsByVNI_exact [OF assms(2)])
    then show ?thesis using False by (simp add: rt_rel_def)
  qed
  ultimately show ?thesis by (intro exI [of _ ?js])
      (simp add: serveJsonRouteTable_def mainHandler_def jsonHandler_def yamlHandler_def encodeHandler_def)
qed

theorem json_routes_exact_witness:
  "rt_pruned exTable \<and> (\<exists>js. getJsonRoutes insertionSort ''development'' ''2025-01-01 00:00:00'' exTable = Inr js \<and>
     set (gkeys (jsVNet js)) = {7})"
proof -
  have "{v. \<exists>d h p. (v, d, h, p) \<in> rt_rel exTable} = {7}" by (auto simp: exTable_has)
  then show ?thesis
    using json_routes_exact [OF exTable_ok goSort.go_sort_axioms, of "''development''" "''2025-01-01 00:00:00''"] exTable_ok(2)
    by auto
qed

end
