(* ===== verification/ArpSpoofer.thy ===== *)
theory ArpSpoofer
  imports Netlink GoStrings
begin

unbundle bit_operations_syntax

text \<open>
  The ARP responder of \<open>src/extras/arp_spoofer\<close>. What comes from outside are parameters or
  inputs: the interface table and the packet capture (\<open>pcap\<close>) of \<open>NewARPSpoofer\<close>, the packets
  and stop signals that the goroutine of \<open>Start\<close> selects from, the serializer of \<open>gopacket\<close> and
  the write to the interface. \<open>net.ParseCIDR\<close> and \<open>net.IPNet.Contains\<close> are the library's.
\<close>

section \<open>Networks\<close>

text \<open>\<open>net.IP.To4\<close>, \<open>net.IP.Mask\<close> and the IPv4-in-IPv6 form of \<open>As16\<close>.\<close>

definition v4InV6Prefix :: "byte list" where
  "v4InV6Prefix = replicate 10 0 @ [255, 255]"

definition To4 :: "byte list \<Rightarrow> byte list option" where
  "To4 ip = (if length ip = 4 then Some ip
     else if length ip = 16 \<and> take 12 ip = v4InV6Prefix then Some (drop 12 ip)
     else None)"

definition maskTo :: "byte list \<Rightarrow> byte list \<Rightarrow> byte list" where
  "maskTo ip m =
     (let ip' = (if length m = 4 \<and> length ip = 16 \<and> take 12 ip = v4InV6Prefix then drop 12 ip else ip)
      in if length ip' \<noteq> length m then [] else maskIP ip' m)"

definition As16 :: "Addr \<Rightarrow> byte list" where
  "As16 a = (case a of
     AddrZero \<Rightarrow> replicate 16 0 | Addr4 w \<Rightarrow> v4InV6Prefix @ be_bytes 4 (unat w) | Addr6 w z \<Rightarrow> be_bytes 16 (unat w))"

text \<open>The decimal number of \<open>ParseCIDR\<close>: digits only, below \<open>0xFFFFFF\<close>.\<close>

definition ParseCIDR :: "string \<Rightarrow> IPNet option" where
  "ParseCIDR s =
     (if CHR ''/'' \<notin> set s then None else
      let addr = takeWhile (\<lambda>c. c \<noteq> CHR ''/'') s; bits = tl (dropWhile (\<lambda>c. c \<noteq> CHR ''/'') s) in
      case ParseAddr addr of
        None \<Rightarrow> None
      | Some a \<Rightarrow>
          if withoutZone a \<noteq> a then None
          else if bits = [] then None
          else case parseDigits 16777214 0 bits of
            None \<Rightarrow> None
          | Some n \<Rightarrow>
              if BitLen a < n then None
              else let m = CIDRMask (int n) (BitLen a) in Some \<lparr>netIP = maskTo (As16 a) m, netMask = m\<rparr>)"

definition networkNumberAndMask :: "IPNet \<Rightarrow> byte list \<times> byte list" where
  "networkNumberAndMask n =
     (let ip = (case To4 (netIP n) of Some x \<Rightarrow> x | None \<Rightarrow> netIP n); m = netMask n in
      if length ip \<noteq> 4 \<and> length ip \<noteq> 16 then ([], [])
      else if length m = 4 then (if length ip \<noteq> 4 then ([], []) else (ip, m))
      else if length m = 16 then (ip, if length ip = 4 then drop 12 m else m)
      else ([], []))"

definition IPNet_Contains :: "IPNet \<Rightarrow> byte list \<Rightarrow> bool" where
  "IPNet_Contains n ip0 =
     (let (nn, m) = networkNumberAndMask n; ip = (case To4 ip0 of Some x \<Rightarrow> x | None \<Rightarrow> ip0) in
      length ip = length nn \<and> maskIP nn m = maskIP ip m)"

section \<open>Packets\<close>

abbreviation ARPRequest :: "16 word" where "ARPRequest \<equiv> 1"
abbreviation ARPReply :: "16 word" where "ARPReply \<equiv> 2"

record ARP =
  AddrType :: "16 word"
  Protocol :: "16 word"
  HwAddressSize :: "8 word"
  ProtAddressSize :: "8 word"
  Operation :: "16 word"
  SourceHwAddress :: "byte list"
  SourceProtAddress :: "byte list"
  DstHwAddress :: "byte list"
  DstProtAddress :: "byte list"

record Ethernet =
  SrcMAC :: "byte list"
  DstMAC :: "byte list"
  EthernetType :: "16 word"

abbreviation EthernetTypeARP :: "16 word" where "EthernetTypeARP \<equiv> 0x0806"

record ARPSpoofer =
  iface :: string
  mac :: "byte list"
  ipNetwork :: IPNet

section \<open>The code\<close>

text \<open>
  \<open>interfaceByName\<close> gives the hardware address, \<open>openLive\<close> the error of opening the capture and
  \<open>setFilter\<close> the error of its filter.
\<close>

definition NewARPSpoofer ::
    "(string \<Rightarrow> error + byte list) \<Rightarrow> (string \<Rightarrow> error option) \<Rightarrow> error option \<Rightarrow> string \<Rightarrow> string \<Rightarrow> error + ARPSpoofer" where
  "NewARPSpoofer interfaceByName openLive setFilter ifc ipPrefix =
     (case ParseCIDR ipPrefix of
        None \<Rightarrow> Inl (Errorf ''invalid IP prefix: %v'')
      | Some ipNet \<Rightarrow>
          (case interfaceByName ifc of
             Inl e \<Rightarrow> Inl (Wrapf ''interface not found: %v'' e)
           | Inr hw \<Rightarrow>
               (case openLive ifc of
                  Some e \<Rightarrow> Inl (Wrapf ''failed to open interface: %v'' e)
                | None \<Rightarrow>
                    (case setFilter of
                       Some e \<Rightarrow> Inl (Wrapf ''failed to set BPF filter: %v'' e)
                     | None \<Rightarrow> Inr \<lparr>iface = ifc, mac = hw, ipNetwork = ipNet\<rparr>))))"

text \<open>The reply to a packet, if there is one; a packet is its ARP layer, if it has one.\<close>

definition replyTo :: "ARPSpoofer \<Rightarrow> ARP \<Rightarrow> Ethernet \<times> ARP" where
  "replyTo sp arp =
     (\<lparr>SrcMAC = mac sp, DstMAC = SourceHwAddress arp, EthernetType = EthernetTypeARP\<rparr>,
      \<lparr>AddrType = AddrType arp, Protocol = Protocol arp, HwAddressSize = HwAddressSize arp,
       ProtAddressSize = ProtAddressSize arp, Operation = ARPReply, SourceHwAddress = mac sp,
       SourceProtAddress = DstProtAddress arp, DstHwAddress = SourceHwAddress arp,
       DstProtAddress = SourceProtAddress arp\<rparr>)"

text \<open>
  \<open>handlePacket\<close>: what is written to the interface. A serializer that fails, or a write that
  fails, is logged and the packet is dropped.
\<close>

definition handlePacket ::
    "(Ethernet \<times> ARP \<Rightarrow> error + byte list) \<Rightarrow> ARPSpoofer \<Rightarrow> ARP option \<Rightarrow> byte list list" where
  "handlePacket serialize sp arpLayer =
     (case arpLayer of
        None \<Rightarrow> []
      | Some arp \<Rightarrow>
          if Operation arp \<noteq> ARPRequest then []
          else if \<not> IPNet_Contains (ipNetwork sp) (DstProtAddress arp) then []
          else case serialize (replyTo sp arp) of Inl e \<Rightarrow> [] | Inr frame \<Rightarrow> [frame])"

text \<open>
  The loop of \<open>Start\<close>: each round takes a stop signal or a packet; \<open>Closed\<close> is the nil packet of a
  capture that has ended, whose layers cannot be asked for. The result are the frames written
  and whether the loop has ended, panicked or waits for the next event.
\<close>

datatype arpEvent = Stop | Arrival "ARP option" | Closed

datatype loopEnd = Ended | Panicked | Waiting

fun arpLoop :: "(Ethernet \<times> ARP \<Rightarrow> error + byte list) \<Rightarrow> ARPSpoofer \<Rightarrow> arpEvent list \<Rightarrow> byte list list \<times> loopEnd" where
  "arpLoop serialize sp [] = ([], Waiting)"
| "arpLoop serialize sp (Stop # es) = ([], Ended)"
| "arpLoop serialize sp (Closed # es) = ([], Panicked)"
| "arpLoop serialize sp (Arrival p # es) =
     (let (frames, r) = arpLoop serialize sp es in (handlePacket serialize sp p @ frames, r))"

text \<open>The program: it needs an interface and a prefix; what happens before the wait for a signal.\<close>

record arpFlags =
  flagInterface :: string
  flagIPPrefix :: string
  flagVersion :: bool

datatype arpMainResult = PrintedVersion | NoArguments | InitFailed error | Running ARPSpoofer

definition arpMain :: "(string \<Rightarrow> string \<Rightarrow> error + ARPSpoofer) \<Rightarrow> arpFlags \<Rightarrow> arpMainResult" where
  "arpMain newSpoofer f =
     (if flagVersion f then PrintedVersion
      else if flagInterface f \<noteq> [] \<and> flagIPPrefix f \<noteq> [] then
        (case newSpoofer (flagInterface f) (flagIPPrefix f) of
           Inl e \<Rightarrow> InitFailed e
         | Inr sp \<Rightarrow> Running sp)
      else NoArguments)"

section \<open>What is answered\<close>

lemma arpLoop_run:
  "list_all (\<lambda>e. \<exists>p. e = Arrival p) es \<Longrightarrow> arpLoop serialize sp (es @ fs) =
     (concat (map (\<lambda>e. case e of Arrival p \<Rightarrow> handlePacket serialize sp p | _ \<Rightarrow> []) es) @ fst (arpLoop serialize sp fs),
      snd (arpLoop serialize sp fs))"
  by (induction es) (auto simp: Let_def split: prod.split)


definition exSpoofer :: ARPSpoofer where
  "exSpoofer = \<lparr>iface = ''eth0'', mac = [2, 0, 0, 0, 0, 1],
     ipNetwork = \<lparr>netIP = [192, 168, 1, 0], netMask = [255, 255, 255, 0]\<rparr>\<rparr>"

definition exARP :: "byte \<Rightarrow> ARP" where
  "exARP x = \<lparr>AddrType = 1, Protocol = 0x0800, HwAddressSize = 6, ProtAddressSize = 4, Operation = ARPRequest,
     SourceHwAddress = [2, 0, 0, 0, 0, 9], SourceProtAddress = [192, 168, 1, 2],
     DstHwAddress = [0, 0, 0, 0, 0, 0], DstProtAddress = [192, 168, x, 7]\<rparr>"

definition exSerialize :: "Ethernet \<times> ARP \<Rightarrow> error + byte list" where
  "exSerialize x = Inr (DstMAC (fst x) @ SrcMAC (fst x) @ SourceProtAddress (snd x))"


end
