(* ===== verification/ArpLifecycle.thy ===== *)
theory ArpLifecycle
  imports ArpSpoofer
begin

text \<open>
  The life of the ARP responder (\<open>main\<close> of \<open>src/extras/arp_spoofer\<close>, \<open>Start\<close> and \<open>Stop\<close> of its
  spoofer): the main goroutine, which waits for a signal, stops the loop and waits for it, and
  the goroutine of the loop, in any interleaving. They meet at the unbuffered channel \<open>stopChan\<close>
  and at the wait group. When the main goroutine returns or a goroutine panics, the process ends.
\<close>

section \<open>The two goroutines\<close>

datatype arpMainAt = AwaitSignal | SendingStop | AwaitWg | ArpExited | ArpCrashed

text \<open>The loop; after it the deferred \<open>wg.Done()\<close>, and after that the deferred \<open>handle.Close()\<close>.\<close>

datatype arpLoopAt = LoopSelecting | LoopLeft | LoopCounted | LoopGone

record arpSys =
  arpMainAt :: arpMainAt
  arpLoopAt :: arpLoopAt
  arpWg :: nat
  handleOpen :: bool
  written :: "byte list list"
  seen :: "ARP option list"

text \<open>\<open>Start\<close>: the counter is raised before the goroutine starts.\<close>

definition arpStart :: arpSys where
  "arpStart = \<lparr>arpMainAt = AwaitSignal, arpLoopAt = LoopSelecting, arpWg = 1, handleOpen = True, written = [], seen = []\<rparr>"

datatype arpMove =
    SignalArrives           \<comment> \<open>\<open>main\<close> receives from \<open>done\<close>\<close>
  | PacketArrives "ARP option"
  | CaptureEnds             \<comment> \<open>the nil packet of a closed channel\<close>
  | StopMeets               \<comment> \<open>\<open>Stop\<close> sends, the \<open>select\<close> receives\<close>
  | LoopDone                \<comment> \<open>\<open>wg.Done()\<close>\<close>
  | HandleCloses            \<comment> \<open>\<open>handle.Close()\<close>\<close>
  | MainReturns             \<comment> \<open>after \<open>wg.Wait()\<close>\<close>

definition arpExec :: "(Ethernet \<times> ARP \<Rightarrow> error + byte list) \<Rightarrow> ARPSpoofer \<Rightarrow> arpMove \<Rightarrow> arpSys \<Rightarrow> arpSys option" where
  "arpExec serialize sp m s =
     (if arpMainAt s = ArpExited \<or> arpMainAt s = ArpCrashed then None else
      case m of
        SignalArrives \<Rightarrow> if arpMainAt s = AwaitSignal then Some (s\<lparr>arpMainAt := SendingStop\<rparr>) else None
      | PacketArrives p \<Rightarrow>
          if arpLoopAt s = LoopSelecting
          then Some (s\<lparr>written := written s @ handlePacket serialize sp p, seen := seen s @ [p]\<rparr>) else None
      | CaptureEnds \<Rightarrow> if arpLoopAt s = LoopSelecting then Some (s\<lparr>arpMainAt := ArpCrashed\<rparr>) else None
      | StopMeets \<Rightarrow>
          if arpMainAt s = SendingStop \<and> arpLoopAt s = LoopSelecting
          then Some (s\<lparr>arpMainAt := AwaitWg, arpLoopAt := LoopLeft\<rparr>) else None
      | LoopDone \<Rightarrow>
          if arpLoopAt s = LoopLeft then Some (s\<lparr>arpWg := arpWg s - 1, arpLoopAt := LoopCounted\<rparr>) else None
      | HandleCloses \<Rightarrow>
          if arpLoopAt s = LoopCounted then Some (s\<lparr>handleOpen := False, arpLoopAt := LoopGone\<rparr>) else None
      | MainReturns \<Rightarrow>
          if arpMainAt s = AwaitWg \<and> arpWg s = 0 then Some (s\<lparr>arpMainAt := ArpExited\<rparr>) else None)"

inductive arpReach :: "(Ethernet \<times> ARP \<Rightarrow> error + byte list) \<Rightarrow> ARPSpoofer \<Rightarrow> arpSys \<Rightarrow> bool" for serialize sp where
  arpReach_start: "arpReach serialize sp arpStart"
| arpReach_exec: "arpReach serialize sp s \<Longrightarrow> arpExec serialize sp m s = Some s' \<Longrightarrow> arpReach serialize sp s'"

fun arpExecs :: "(Ethernet \<times> ARP \<Rightarrow> error + byte list) \<Rightarrow> ARPSpoofer \<Rightarrow> arpMove list \<Rightarrow> arpSys \<Rightarrow> arpSys option" where
  "arpExecs serialize sp [] s = Some s"
| "arpExecs serialize sp (m # ms) s =
     (case arpExec serialize sp m s of None \<Rightarrow> None | Some s' \<Rightarrow> arpExecs serialize sp ms s')"

section \<open>The invariant\<close>

definition arp_inv :: "(Ethernet \<times> ARP \<Rightarrow> error + byte list) \<Rightarrow> ARPSpoofer \<Rightarrow> arpSys \<Rightarrow> bool" where
  "arp_inv serialize sp s \<longleftrightarrow>
     written s = concat (map (handlePacket serialize sp) (seen s)) \<and>
     arpWg s = (if arpLoopAt s = LoopSelecting \<or> arpLoopAt s = LoopLeft then 1 else 0) \<and>
     (arpMainAt s = AwaitSignal \<or> arpMainAt s = SendingStop \<longrightarrow> arpLoopAt s = LoopSelecting) \<and>
     (arpMainAt s = AwaitWg \<longrightarrow> arpLoopAt s \<noteq> LoopSelecting) \<and>
     (arpMainAt s = ArpExited \<longrightarrow> arpWg s = 0) \<and>
     (handleOpen s \<longleftrightarrow> arpLoopAt s \<noteq> LoopGone)"

lemma arp_inv_exec: "arp_inv serialize sp s \<Longrightarrow> arpExec serialize sp m s = Some s' \<Longrightarrow> arp_inv serialize sp s'"
  by (cases m) (auto simp: arpExec_def arp_inv_def split: if_splits)

lemma arp_inv_reach: "arpReach serialize sp s \<Longrightarrow> arp_inv serialize sp s"
proof (induction rule: arpReach.induct)
  case arpReach_start
  show ?case by (simp add: arp_inv_def arpStart_def)
next
  case (arpReach_exec s m s')
  then show ?case by (blast intro: arp_inv_exec)
qed

text \<open>The moves that end the process, from each place after the signal.\<close>

definition arpFinish :: "arpSys \<Rightarrow> arpMove list" where
  "arpFinish s =
     (if arpMainAt s = SendingStop then [StopMeets, LoopDone, MainReturns]
      else if arpLoopAt s = LoopLeft then [LoopDone, MainReturns] else [MainReturns])"

lemma arpFinish_run:
  assumes "arp_inv serialize sp s" "arpMainAt s = SendingStop \<or> arpMainAt s = AwaitWg"
  shows "\<exists>s'. arpExecs serialize sp (arpFinish s) s = Some s' \<and> arpMainAt s' = ArpExited \<and> written s' = written s"
  using assms by (cases "arpLoopAt s") (auto simp: arp_inv_def arpFinish_def arpExec_def)

text \<open>
  C33. The responder over every interleaving of its two goroutines: what has been written is
  exactly the replies to the packets received, in order; when the program has exited the loop has
  ended and counted down; no packet is received after the stop; and from the signal on it can always
  exit, in at most three moves and without writing anything more.
\<close>

theorem arp_stops:
  assumes "arpReach serialize sp s"
  shows "written s = concat (map (handlePacket serialize sp) (seen s)) \<and>
     (arpMainAt s = ArpExited \<longrightarrow> (arpLoopAt s = LoopCounted \<or> arpLoopAt s = LoopGone)) \<and>
     (arpMainAt s = AwaitWg \<longrightarrow> arpExec serialize sp (PacketArrives p) s = None) \<and>
     (arpMainAt s = SendingStop \<or> arpMainAt s = AwaitWg \<longrightarrow>
       (\<exists>ms s'. length ms \<le> 3 \<and> arpExecs serialize sp ms s = Some s' \<and> arpMainAt s' = ArpExited \<and> written s' = written s))"
proof -
  have inv: "arp_inv serialize sp s" using assms by (rule arp_inv_reach)
  have "length (arpFinish s) \<le> 3" by (simp add: arpFinish_def)
  moreover have "arpMainAt s = ArpExited \<longrightarrow> (arpLoopAt s = LoopCounted \<or> arpLoopAt s = LoopGone)"
    using inv by (cases "arpLoopAt s") (auto simp: arp_inv_def)
  moreover have "arpMainAt s = AwaitWg \<longrightarrow> arpExec serialize sp (PacketArrives p) s = None"
    using inv by (auto simp: arp_inv_def arpExec_def)
  ultimately show ?thesis using inv arpFinish_run [OF inv] unfolding arp_inv_def by blast
qed

text \<open>One packet, the signal, the stop; the process ends while the capture is still open.\<close>

lemma arpExecs_reach: "arpReach serialize sp s \<Longrightarrow> arpExecs serialize sp ms s = Some s' \<Longrightarrow> arpReach serialize sp s'"
  by (induction ms arbitrary: s) (auto split: option.splits intro: arpReach_exec)

definition exStopped :: arpSys where
  "exStopped = \<lparr>arpMainAt = ArpExited, arpLoopAt = LoopCounted, arpWg = 0, handleOpen = True,
     written = [[2, 0, 0, 0, 0, 9, 2, 0, 0, 0, 0, 1, 192, 168, 1, 7]], seen = [Some (exARP 1)]\<rparr>"

theorem arp_stops_witness:
  "arpReach exSerialize exSpoofer exStopped \<and> handleOpen exStopped \<and>
     written exStopped = concat (map (handlePacket exSerialize exSpoofer) (seen exStopped))"
proof -
  have "handlePacket exSerialize exSpoofer (Some (exARP 1)) = [[2, 0, 0, 0, 0, 9, 2, 0, 0, 0, 0, 1, 192, 168, 1, 7]]"
    by code_simp
  then have "arpExecs exSerialize exSpoofer [PacketArrives (Some (exARP 1)), SignalArrives, StopMeets, LoopDone, MainReturns] arpStart =
      Some exStopped"
    by (simp add: arpExec_def arpStart_def exStopped_def)
  then have "arpReach exSerialize exSpoofer exStopped" by (rule arpExecs_reach [OF arpReach_start])
  with arp_stops [OF this] show ?thesis by (simp add: exStopped_def)
qed

end
