(* ===== verification/Spec2Isabelle.thy ===== *)
theory Spec2Isabelle
  imports HandshakeOrder ClientStop DestinationText Http ArpLifecycle
begin

text \<open>
  \<^bold>\<open>MetalBond: a route distribution node, modelled and verified.\<close>

  The program (\<open>src/\<close>, Go) runs on servers and on hypervisors. Nodes keep TCP connections to
  each other, subscribe to virtual networks (VNIs) and tell each other which destinations
  are reachable over which next hops. A node has one \<open>MetalBond\<close> object
  (\<open>metalbond.go\<close>) with a route table, its own announcements and subscriptions and the
  subscriptions of its peers; a \<open>metalBondPeer\<close> for every connection (\<open>peer.go\<close>) with four
  goroutines (\<open>handle\<close>, \<open>rxLoop\<close>, \<open>txLoop\<close>, \<open>keepaliveLoop\<close>) and a table of the routes received
  from it; and a \<open>Client\<close> that installs routes (\<open>client.go\<close>, \<open>netlink.go\<close>).

  \<^bold>\<open>Theories, in import order.\<close>
  \<^item> \<open>Prelude\<close>: outcomes of Go calls (a value, a panic, an endless wait), errors, Go maps as
    lists with distinct keys, byte strings.
  \<^item> \<open>Netip\<close>: the part of \<open>net/netip\<close> that is used, with the total order of addresses.
  \<^item> \<open>Types\<close> (\<open>types.go\<close>): data types, messages, \<open>Serialize\<close> and \<open>deserialize...Msg\<close>. The protobuf
    library is a parameter (\<open>codec\<close>); the locale \<open>proto_codec\<close> says what is relied on, that
    a message that was marshalled unmarshals to the same message.
  \<^item> \<open>Wire\<close> (\<open>sendMessage\<close> and \<open>rxLoop\<close> of \<open>peer.go\<close>): packet headers and the packet loop on the
    65535-byte buffer, stale bytes of earlier reads included.
  \<^item> \<open>ProtoWire\<close>: the proto3 wire format of \<open>pb/metalbond.proto\<close>, an instance of \<open>proto_codec\<close>;
    round trips, bounds and errors of messages and packets.
  \<^item> \<open>RouteTable\<close> (\<open>routetable.go\<close>): the four-level map and its methods; refinement of the set
    of routes \<open>rt_rel\<close>; the interface \<open>route_store\<close> with the deletion loops that the other
    components use, interpreted on the table.
  \<^item> \<open>Prog\<close>: sequential programs on a state, and the two judgements used throughout: \<open>keeps\<close>
    (an invariant survives any run) and \<open>finishes\<close> (a run returns).
  \<^item> \<open>World\<close>: the state of a node. Peers live in a store, a pointer to a peer is an address.
  \<^item> \<open>Peer\<close>, \<open>MetalBond\<close>, \<open>Session\<close> (\<open>peer.go\<close>, \<open>metalbond.go\<close>): every operation, with the
    names of the source. \<open>Subscribe\<close> and \<open>Unsubscribe\<close> exist on both types; they are
    \<open>peerSubscribe\<close>, \<open>mbSubscribe\<close> and so on. A loop of a goroutine is one function per round,
    with what the environment decides (a dial or read result, the case of a \<open>select\<close>) as an
    argument. \<open>Reset\<close> is split at \<open>wg.Wait()\<close>.
  \<^item> \<open>Invariant\<close>: the invariant \<open>node_ok\<close> and that every operation keeps it.
  \<^item> \<open>Distribution\<close>: closed forms of the operations that send updates to peers.
  \<^item> \<open>Progress\<close>: operations return in a \<open>calm\<close> node.
  \<^item> \<open>Departure\<close>: what is left of a peer that goes.
  \<^item> \<open>Machine\<close>: calls and goroutines of a node interleaved in any order, the reachable states,
    and that \<open>node_ok\<close> holds in all of them.
  \<^item> \<open>NodeRoutes\<close>, \<open>NodeSessions\<close>, \<open>Subscription\<close> and this theory: the properties of the whole
    node; \<open>Subscription\<close> is about what a new subscriber is sent.
  \<^item> \<open>GoSort\<close>, \<open>GoStrings\<close>: what the other parts use of the Go library. Sorting is a parameter
    with the contract \<open>go_sort\<close>, interpreted on an insertion sort; numbers, addresses and
    prefixes are read and printed as \<open>strconv\<close> and \<open>net/netip\<close> do.
  \<^item> \<open>NetipText\<close>: every valid address and prefix, IPv4 or IPv6, is read back as it is printed.
  \<^item> \<open>DestinationText\<close> (\<open>MarshalText\<close> and \<open>UnmarshalText\<close> of \<open>types.go\<close>): the JSON form of a
    destination, with the scanner, the parser and the storing of fields of \<open>encoding/json\<close> that
    it needs.
  \<^item> \<open>RouteClient\<close> (\<open>client.go\<close>): the contract \<open>route_client\<close> of a client and its consequences for
    sequences of calls, interpreted on \<open>DummyClient\<close>.
  \<^item> \<open>Netlink\<close>, \<open>KernelRoutes\<close> (\<open>netlink.go\<close>): the client that installs routes. The netlink
    library is a parameter (\<open>netlinkLib\<close>), \<open>kernel_laws\<close> says what is relied on, \<open>memLib\<close> is an
    instance; \<open>nl_inv\<close> relates the client's map to the kernel's tables, and the contract
    \<open>route_client\<close> is interpreted on the client.
  \<^item> \<open>NodeKernel\<close>: the node together with the netlink client.
  \<^item> \<open>Convergence\<close>: two nodes and the connection between them, as a step relation over the calls of
    the sender and the rounds of the goroutines on both sides; a measure of what is in flight, and
    the set of routes the receiver is told, as the abstract state.
  \<^item> \<open>Handshake\<close>: two nodes that have just connected run their goroutines through the exchange of
    HELLO and KEEPALIVE, over an abstract record of each side.
  \<^item> \<open>HandshakeOrder\<close>: the sets of connection states that no operation leaves (locale \<open>lasting\<close>), and
    which messages have been read before a session is established, over whole runs of the machine.
  \<^item> \<open>CommandLine\<close>, \<open>ClientStart\<close>, \<open>ClientStop\<close> (\<open>cmd/metalbond/main.go\<close>, \<open>pb/util.go\<close>): announcements,
    table mappings, the start, the wait and the stop of the two commands, and the program as a
    whole (\<open>mainCommand\<close>).
  \<^item> \<open>Http\<close> (\<open>http.go\<close>, the \<open>String\<close> methods of \<open>types.go\<close>): the listing of routes and its pages.
  \<^item> \<open>ArpSpoofer\<close>, \<open>ArpLifecycle\<close> (\<open>extras/arp_spoofer\<close>): the ARP responder, a program of its own; its
    replies, and its two goroutines until the exit.

  \<^bold>\<open>What is shown.\<close> Tables: adding and removing refine insertion and deletion of one route,
  and keep the shape of the table (C9, C10, C22); \<open>RouteTable\<close> also has
  that the readers are exact, that adding and removing undo each other and that asking about a route leaves a trace. Wire: what is sent is
  received, in order, within the length limits (C3, C7, C8, C34), and which inputs stop the
  reader (C40). Routes: who is sent an update, when a withdrawal is passed on, what own
  announcements and withdrawals do, what a new subscriber is sent (C4, C11, C12, C18, C21, C28);
  nothing of a peer is left after \<open>cleanup\<close> or a lost connection (C5, C20). Connections: the
  handshake, the synchronisation of a new connection, keepalive times and the stop of the
  node (C13, C27, C35, C36). Two nodes: after any interleaving of calls and goroutines the
  receiver ends with exactly the sender's announcements (C2); two nodes that connect get
  established when their goroutines run in the order of the messages (C14), and in no order without
  both messages of the other side (C15). Node: the invariant in every reachable state (C1), progress
  (C6), and the ways to lose it (C37, C38). Kernel: the kernel's tables mirror the calls of
  the client, its map stays in order (C16, C23); with the node, a received
  route reaches the kernel (C17), and one case in which it is lost there (C39). Command line:
  the start is complete (C19), the wait ends (C29), the stop leaves the configured tables of the
  kernel clean and the others alone (C24), announcements are read as written and always
  well formed (C30, C31). Text: destinations read back from their JSON form (C25). HTTP: the listing is the table and the pages show it (C26). ARP: exactly
  the requests for the network are answered, and the program stops in order (C32, C33).

  \<^bold>\<open>Choices.\<close> Machine integers keep their width (VNIs and intervals are 32-bit words, ports 16,
  durations 64-bit and signed). \<open>range\<close> over a map follows the order of the list that
  represents it; statements hold for every list with distinct keys, so for every order.
  A channel is the queue of its values together with those of waiting senders, so a full
  channel delays nobody here; a nil channel blocks. Mutexes are held and released within a
  call and calls are atomic steps of the machine; the exception is \<open>mtxSubscribers\<close>, which one
  path leaves locked and which is part of the state. Data races (\<open>p.state\<close> read without its
  mutex, concurrent resets) are outside the model. Loops over maps and lists are structural
  recursions; the packet loop has a termination proof. The wait for the connections, which need
  not end if time stands still, is a partial function; C29 shows that it ends when every round
  takes its second. No fuel is used.

  \<^bold>\<open>Not modelled.\<close> Logging, the random retry delay, signals and flag parsing by the flag library;
  the page template and the encoders of the pages, which are parameters;
  the socket of the HTTP server; the generated protobuf code (a parameter, with an instance);
  packet capture. The theorems on the netlink client assume that VNIs have tables of their own
  and that prefixes have no host bits, since otherwise entries of the kernel are shared.
\<close>

section \<open>From the wire into the table\<close>

text \<open>
  C3. A route travels: the packet that one node sends for an ADD update, read as a
  whole by the receiving node, passes through \<open>rxLoop\<close> and the \<open>select\<close> of \<open>handle\<close>, and
  the route is in the receiver's table with the sending peer as its origin and has been
  handed to the receiver's client, unless the receiver blocks it as its own or has it.
\<close>

theorem route_propagates:
  assumes "proto_codec (cdc E)"
    and "update_ok \<lparr>updAction = ADD, updVNI = v, updDestination = d, updNextHop = h\<rparr>"
    and "encodeMessage (cdc E) (updateMsg ADD v d h) = Inr pkt"
    and "node_ok w" "\<not> mtxSubscribers w" "chansMade (heap w p)" "rxUpdate (heap w p) = Some []"
    and "state (heap w p) \<noteq> CLOSED" "state (heap w p) \<noteq> RETRY" "length pkt < length buf"
    and "(v, d, h, Some p) \<notin> rt_rel (receivedRoutes (heap w p))"
    and "nhType h \<noteq> NextHopType_STANDARD \<or> GetNextHopsByDestination (myAnnouncements w) v d = []"
  shows "\<exists>w1 w2. rxLoopOnce E p buf (ReadData pkt) w = (Returns (Some (pkt @ drop (length pkt) buf)), w1) \<and>
     handleSelect E p OnUpdate w1 = (Returns (Some True), w2) \<and>
     rt_rel (mbRouteTable w2) = insert (v, d, h, Some p) (rt_rel (mbRouteTable w)) \<and>
     (v, d, h, Some p) \<in> rt_rel (receivedRoutes (heap w2 p)) \<and>
     client w2 = snd (AddRoute (ops E) v d h (client w))"
proof -
  let ?u = "\<lparr>updAction = ADD, updVNI = v, updDestination = d, updNextHop = h\<rparr>"
  have parse: "rxIteration (cdc E) (state (heap w p)) buf (ReadData pkt) =
      (([MsgUpdate ?u], RxContinue), pkt @ drop (length pkt) buf)"
    using proto_codec.parse_encodeAll [OF assms(1), of "MsgUpdate ?u" "[]" pkt "[]" "drop (length pkt) buf"]
      assms(2,3,8-10)
    by (simp add: updateMsg_def message_ok_def rxIteration_def Let_def received_def)
  define w1 where "w1 = updPeer p (rxUpdate_update (\<lambda>_. Some [?u])) w"
  define w1' where "w1' = updPeer p (rxUpdate_update (\<lambda>_. Some [])) w1"
  have rx: "rxLoopOnce E p buf (ReadData pkt) w = (Returns (Some (pkt @ drop (length pkt) buf)), w1)"
    using parse assms(7) by (simp add: rxLoopOnce_def GetState_def deliver_def setPeer_def w1_def)
  have "live w1" unfolding w1_def
    using assms(4-7) by (intro live_updPeer) (auto simp: live_def chansMade_def)
  then have "live w1'" unfolding w1'_def
    using assms(6) by (intro live_updPeer) (auto simp: w1_def chansMade_def)
  moreover have "receivedRoutes (heap w1' p) = receivedRoutes (heap w p)" "txChan (heap w1' p) \<noteq> None"
    "myAnnouncements w1' = myAnnouncements w" "mbRouteTable w1' = mbRouteTable w" "client w1' = client w"
    using assms(6) by (auto simp: w1'_def w1_def chansMade_def)
  ultimately obtain w2 where w2: "processRxUpdate E p ?u w1' = (Returns (), w2)"
    "rt_has (receivedRoutes (heap w2 p)) v d h (Some p)"
    "rt_rel (mbRouteTable w2) = insert (v, d, h, Some p) (rt_rel (mbRouteTable w))"
    "client w2 = snd (AddRoute (ops E) v d h (client w))"
    using processRxUpdate_add [of w1' p v d h E] assms(11,12) by auto
  have "rxUpdate (heap w1 p) = Some [?u]" by (simp add: w1_def)
  then have "handleSelect E p OnUpdate w1 = (Returns (Some True), w2)"
    using w2(1) by (simp add: handleSelect_def setPeer_def w1'_def)
  with rx w2 show ?thesis by auto
qed

theorem route_propagates_witness:
  "\<exists>w1 w2. rxLoopOnce exEnv 1 (replicate 200 0) (ReadData (exPkt ADD)) exWorld =
       (Returns (Some (exPkt ADD @ drop (length (exPkt ADD)) (replicate 200 0))), w1) \<and>
     handleSelect exEnv 1 OnUpdate w1 = (Returns (Some True), w2) \<and>
     rt_rel (mbRouteTable w2) = {(7, exDest, exHop, Some 1)}"
proof -
  have "update_ok \<lparr>updAction = ADD, updVNI = 7, updDestination = exDest, updNextHop = exHop\<rparr>" by code_simp
  moreover have "length (exPkt ADD) < 200" by code_simp
  moreover have "chansMade (exHeap 1)" "rxUpdate (exHeap 1) = Some []" "state (exHeap 1) = ESTABLISHED"
    "receivedRoutes (exHeap 1) = newRouteTable"
    by (simp_all add: exHeap_def exPeer_def noPeer_def chansMade_def)
  moreover have "proto_codec (cdc exEnv)" by (simp add: exEnv_def protoCodec_laws)
  moreover have "GetNextHopsByDestination newRouteTable 7 exDest = []"
    by (simp add: GetNextHopsByDestination_def newRouteTable_def)
  moreover have "rt_rel newRouteTable = {}" by (auto simp: rt_rel_def)
  ultimately show ?thesis
    using route_propagates [of exEnv 7 exDest exHop "exPkt ADD" exWorld 1 "replicate 200 0"]
      exPkt(1) exWorld_ok by auto
qed

section \<open>Every reachable state\<close>


text \<open>An example run: a peer is added, its goroutine starts, a route is announced.\<close>

definition exRun :: "unit sys" where
  "exRun = fold (exec exEnv) [Api (CallAddPeer ''id'' ''a'' [] 1 1 1), Start (GoHandle 0),
     Api (CallSubscribe 7), Api (CallAnnounceRoute 7 exDest exHop)] (initSys \<lparr>cfgKeepaliveInterval = 0\<rparr> ())"


end
